(* ===== verification/Prelude.thy ===== *)
theory Prelude
  imports Main "HOL-Library.AList"
begin

text \<open>
  The vocabulary every other theory shares: the exceptions of the program as values, a result
  type for code that may raise, Python's insertion-ordered dictionaries as association lists,
  Python's list indexing, and the collections of facts that the component proofs pass to the
  simplifier.
\<close>

named_theorems py_simps \<open>rewrite rules for results, dictionaries and indexing\<close>
named_theorems fsm_defs \<open>the definitions of the state machine's handlers\<close>
named_theorems store_defs \<open>the definitions of the case store's operations\<close>
named_theorems frames \<open>what the steps of a handler leave alone\<close>

section \<open>Exceptions as values\<close>

text \<open>
  One constructor per exception class the program raises or lets escape.  The classes of
  \<^verbatim>\<open>app/core/case_store.py\<close> are the four after \<open>NameError\<close>, \<open>DatabaseError\<close> stands for any exception
  of a database driver that is re-raised, and an \<^verbatim>\<open>HTTPException\<close> carries its
  status code.  Messages are not modelled.  \<open>Unmodelled\<close> is no exception: it marks a run that stores a
  value of a type the records do not represent (a number as a payment id, say), where the model stops.
\<close>

datatype py_error =
    ValueError
  | KeyError
  | IndexError
  | TypeError
  | AttributeError
  | AssertionError
  | RuntimeError
  | NameError
  | CaseNotFoundError
  | CaseAlreadyExistsError
  | FailureAlreadyRecordedError
  | DecisionAlreadyRecordedError
  | DatabaseError
  | OverflowError
  | OSError
  | JSONDecodeError
  | HTTPException int
  | Unmodelled

type_synonym 'a result = "py_error + 'a"

fun bindR :: "'a result \<Rightarrow> ('a \<Rightarrow> 'b result) \<Rightarrow> 'b result" where
  "bindR (Inl e) f = Inl e"
| "bindR (Inr x) f = f x"

definition guardR :: "bool \<Rightarrow> py_error \<Rightarrow> unit result" where
  "guardR ok e = (if ok then Inr () else Inl e)"

definition of_option :: "py_error \<Rightarrow> 'a option \<Rightarrow> 'a result" where
  "of_option e x = (case x of None \<Rightarrow> Inl e | Some y \<Rightarrow> Inr y)"

fun mapR :: "('a \<Rightarrow> 'b result) \<Rightarrow> 'a list \<Rightarrow> 'b list result" where
  "mapR f [] = Inr []"
| "mapR f (x # xs) = bindR (f x) (\<lambda>y. bindR (mapR f xs) (\<lambda>ys. Inr (y # ys)))"

lemma bindR_eq_Inr [py_simps]: "bindR m f = Inr y \<longleftrightarrow> (\<exists>x. m = Inr x \<and> f x = Inr y)"
  by (cases m) auto

lemma bindR_eq_Inl [py_simps]:
  "bindR m f = Inl e \<longleftrightarrow> m = Inl e \<or> (\<exists>x. m = Inr x \<and> f x = Inl e)"
  by (cases m) auto

lemma guardR_Inr [simp]: "guardR ok e = Inr u \<longleftrightarrow> ok"
  by (simp add: guardR_def)

lemma guardR_Inl [simp]: "guardR ok e = Inl e' \<longleftrightarrow> \<not> ok \<and> e' = e"
  by (auto simp: guardR_def)

lemma guardR_True [simp]: "guardR True e = Inr ()"
  by (simp add: guardR_def)

lemma guardR_False [simp]: "guardR False e = Inl e"
  by (simp add: guardR_def)

lemma of_option_simps [simp]:
  "of_option e None = Inl e"
  "of_option e (Some x) = Inr x"
  by (simp_all add: of_option_def)

lemma of_option_eq_Inr [simp]: "of_option e m = Inr x \<longleftrightarrow> m = Some x"
  by (cases m) auto

lemma of_option_eq_Inl [simp]: "of_option e m = Inl e' \<longleftrightarrow> m = None \<and> e' = e"
  by (cases m) auto

lemma mapR_length: "mapR f xs = Inr ys \<Longrightarrow> length ys = length xs"
  by (induction xs arbitrary: ys) (auto simp: bindR_eq_Inr)

lemma mapR_Inr: "(\<And>x. x \<in> set xs \<Longrightarrow> f x = Inr (g x)) \<Longrightarrow> mapR f xs = Inr (map g xs)"
  by (induction xs) auto

section \<open>Dictionaries\<close>

text \<open>
  A Python \<^verbatim>\<open>dict\<close> keeps its insertion order, and the program depends on it: the first pending
  decision of a case is the first one inserted.  A dictionary is therefore an association list
  with distinct keys; assignment replaces the value of a key in place, or appends the pair.
\<close>

type_synonym ('k, 'v) dict = "('k \<times> 'v) list"

abbreviation dict_get :: "('k, 'v) dict \<Rightarrow> 'k \<Rightarrow> 'v option" where
  "dict_get d k \<equiv> map_of d k"

abbreviation dict_set :: "'k \<Rightarrow> 'v \<Rightarrow> ('k, 'v) dict \<Rightarrow> ('k, 'v) dict" where
  "dict_set k v d \<equiv> AList.update k v d"

abbreviation dict_values :: "('k, 'v) dict \<Rightarrow> 'v list" where
  "dict_values d \<equiv> map snd d"

definition dict_wf :: "('k, 'v) dict \<Rightarrow> bool" where
  "dict_wf d \<longleftrightarrow> distinct (map fst d)"

lemma dict_get_set [simp]: "dict_get (dict_set k v d) k' = (if k' = k then Some v else dict_get d k')"
  by (simp add: update_conv')

lemma dict_wf_Nil [simp]: "dict_wf []"
  by (simp add: dict_wf_def)

lemma dict_wf_set [simp]: "dict_wf d \<Longrightarrow> dict_wf (dict_set k v d)"
  by (simp add: dict_wf_def distinct_update)

lemma dict_set_fresh: "dict_get d k = None \<Longrightarrow> dict_set k v d = d @ [(k, v)]"
  by (induction d) (auto split: if_splits)

lemma dict_set_keys: "dict_get d k \<noteq> None \<Longrightarrow> map fst (dict_set k v d) = map fst d"
  by (induction d) (auto split: if_splits)

lemma dict_get_Some_in: "dict_get d k = Some v \<Longrightarrow> (k, v) \<in> set d"
  by (rule map_of_SomeD)

lemma dict_wf_get: "dict_wf d \<Longrightarrow> (k, v) \<in> set d \<Longrightarrow> dict_get d k = Some v"
  by (simp add: dict_wf_def)

lemma dict_values_get: "dict_wf d \<Longrightarrow> v \<in> set (dict_values d) \<longleftrightarrow> (\<exists>k. dict_get d k = Some v)"
  by (force simp: dict_wf_def dest: map_of_SomeD)

lemma set_dict_set:
  "dict_wf d \<Longrightarrow> set (dict_set k v d) = {(k, v)} \<union> {p \<in> set d. fst p \<noteq> k}"
proof (induction d)
  case Nil
  then show ?case by simp
next
  case (Cons p d)
  obtain a b where p: "p = (a, b)" by (cases p)
  from Cons.prems have wf: "dict_wf d" and fresh: "a \<notin> fst ` set d"
    by (auto simp: dict_wf_def p)
  from fresh have "{p \<in> set d. fst p \<noteq> a} = set d" by force
  then show ?case using Cons.IH [OF wf] by (auto simp: p)
qed

section \<open>List indexing\<close>

text \<open>\<^verbatim>\<open>xs[i]\<close>: a negative index counts from the end, an index out of range raises IndexError.\<close>

definition py_nth :: "'a list \<Rightarrow> int \<Rightarrow> 'a result" where
  "py_nth xs i =
     (if i \<ge> int (length xs) \<or> i < - int (length xs) then Inl IndexError
      else Inr (if i < 0 then rev xs ! nat (- i - 1) else xs ! nat i))"

lemma py_nth_in: "py_nth xs i = Inr x \<Longrightarrow> x \<in> set xs"
  using nth_mem [of "nat i" xs] nth_mem [of "nat (- i - 1)" "rev xs"]
  by (auto simp: py_nth_def split: if_splits)

lemma py_nth_clamped:
  "xs \<noteq> [] \<Longrightarrow> 0 \<le> i \<Longrightarrow> py_nth xs (min i (int (length xs) - 1)) = Inr (xs ! nat (min i (int (length xs) - 1)))"
  by (cases xs) (auto simp: py_nth_def)

lemma py_nth_Nil [simp]: "py_nth [] i = Inl IndexError"
  by (auto simp: py_nth_def)

end
