(* ===== verification/PyText.thy ===== *)
theory PyText
  imports Prelude "HOL-Library.Word"
begin

text \<open>
  The part of Python's \<^verbatim>\<open>str\<close> the program uses: stripping and lower-casing, decimal rendering of
  integers with zero padding, substring search, UTF-8 encoding and the string escapes of
  \<^verbatim>\<open>json.dumps\<close>.  A \<open>string\<close> holds one Python character per \<open>char\<close>, so the model covers the code
  points below 256; on those the functions agree with Python's.  The lemmas say that decimal
  rendering and JSON quoting can be undone, also in front of further text.
\<close>

section \<open>Characters\<close>

definition ord_of :: "char \<Rightarrow> nat" where
  "ord_of c = of_char c"

lemma ord_of_less [simp]: "ord_of c < 256"
  using nat_of_char_less_256 by (simp add: ord_of_def)

lemma char_of_ord [simp]: "char_of (ord_of c) = c"
  by (simp add: ord_of_def)

lemma ord_char_of [simp]: "n < 256 \<Longrightarrow> ord_of (char_of n) = n"
  by (simp add: ord_of_def)

lemma ord_of_inj: "ord_of c = ord_of d \<longleftrightarrow> c = d"
  by (metis char_of_ord)

definition is_space :: "char \<Rightarrow> bool" where
  "is_space c \<longleftrightarrow> (let n = ord_of c in 9 \<le> n \<and> n \<le> 13 \<or> 28 \<le> n \<and> n \<le> 32 \<or> n = 133 \<or> n = 160)"

definition is_digit :: "char \<Rightarrow> bool" where
  "is_digit c \<longleftrightarrow> 48 \<le> ord_of c \<and> ord_of c \<le> 57"

definition lower_char :: "char \<Rightarrow> char" where
  "lower_char c =
     (let n = ord_of c
      in if 65 \<le> n \<and> n \<le> 90 \<or> 192 \<le> n \<and> n \<le> 222 \<and> n \<noteq> 215 then char_of (n + 32) else c)"

definition py_strip :: "string \<Rightarrow> string" where
  "py_strip s = rev (dropWhile is_space (rev (dropWhile is_space s)))"

definition py_lower :: "string \<Rightarrow> string" where
  "py_lower s = map lower_char s"

lemma lower_char_idem [simp]: "lower_char (lower_char c) = lower_char c"
proof -
  have "ord_of c < 256" by simp
  then show ?thesis by (auto simp: lower_char_def Let_def)
qed

lemma py_lower_idem [simp]: "py_lower (py_lower s) = py_lower s"
  by (simp add: py_lower_def)

section \<open>Decimal rendering\<close>

definition digit :: "nat \<Rightarrow> char" where
  "digit d = char_of (48 + d)"

definition digit_val :: "char \<Rightarrow> nat" where
  "digit_val c = ord_of c - 48"

fun dec :: "nat \<Rightarrow> string" where
  "dec n = (if n < 10 then [digit n] else dec (n div 10) @ [digit (n mod 10)])"

declare dec.simps [simp del]

definition undec :: "string \<Rightarrow> nat" where
  "undec s = foldl (\<lambda>a c. 10 * a + digit_val c) 0 s"

definition py_str_int :: "int \<Rightarrow> string" where
  "py_str_int i = (if i < 0 then CHR ''-'' # dec (nat (- i)) else dec (nat i))"

text \<open>\<^verbatim>\<open>f"{n:0wd}"\<close> for a natural number.\<close>

definition zfill :: "nat \<Rightarrow> nat \<Rightarrow> string" where
  "zfill w n = replicate (w - length (dec n)) (CHR ''0'') @ dec n"

lemma digit_val_digit [simp]: "d < 10 \<Longrightarrow> digit_val (digit d) = d"
  by (simp add: digit_def digit_val_def)

lemma is_digit_digit [simp]: "d < 10 \<Longrightarrow> is_digit (digit d)"
  by (simp add: digit_def is_digit_def)

lemma undec_snoc: "undec (s @ [c]) = 10 * undec s + digit_val c"
  by (simp add: undec_def)

lemma undec_dec [simp]: "undec (dec n) = n"
proof (induction n rule: dec.induct)
  case (1 n)
  show ?case
  proof (cases "n < 10")
    case True
    then show ?thesis by (simp add: dec.simps [of n] undec_def)
  next
    case False
    with 1 show ?thesis by (simp add: dec.simps [of n] undec_snoc)
  qed
qed

lemma dec_digits: "c \<in> set (dec n) \<Longrightarrow> is_digit c"
proof (induction n rule: dec.induct)
  case (1 n)
  then show ?case by (cases "n < 10") (auto simp: dec.simps [of n])
qed

lemma dec_nonempty [simp]: "dec n \<noteq> []"
  by (simp add: dec.simps [of n])

lemma dec_inj: "dec m = dec n \<longleftrightarrow> m = n"
  by (metis undec_dec)

lemma digit_val_zero [simp]: "digit_val (CHR ''0'') = 0"
  by (simp add: digit_val_def ord_of_def)

lemma undec_zeros: "undec (replicate k (CHR ''0'') @ s) = undec s"
  by (induction k) (simp_all add: undec_def)

lemma undec_zfill [simp]: "undec (zfill w n) = n"
  by (simp add: zfill_def undec_zeros)

lemma zfill_inj: "zfill w m = zfill w n \<longleftrightarrow> m = n"
  by (metis undec_zfill)

lemma is_digit_zero [simp]: "is_digit (CHR ''0'')"
  by (simp add: is_digit_def ord_of_def)

lemma zfill_digits: "c \<in> set (zfill w n) \<Longrightarrow> is_digit c"
  by (auto simp: zfill_def dec_digits split: if_splits)

lemma not_digit_literals [simp]:
  "\<not> is_digit (CHR ''-'')" "\<not> is_digit (CHR '':'')" "\<not> is_digit (CHR ''.'')"
  "\<not> is_digit (CHR ''+'')" "\<not> is_digit (CHR ''T'')" "\<not> is_digit (CHR '','')"
  "\<not> is_digit (CHR ''/'')" "\<not> is_digit (CHR 0x22)" "\<not> is_digit (CHR ''n'')"
  by (simp_all add: is_digit_def ord_of_def)

text \<open>A run of digits in front of a non-digit is determined by the text.\<close>

lemma digit_run_unique:
  assumes "\<forall>c \<in> set xs. is_digit c" and "\<forall>c \<in> set ys. is_digit c"
    and "\<not> is_digit c" and "\<not> is_digit d"
    and "xs @ c # r = ys @ d # s"
  shows "xs = ys \<and> c # r = d # s"
proof -
  have "xs = takeWhile is_digit (xs @ c # r)" using assms(1,3) by simp
  moreover have "ys = takeWhile is_digit (ys @ d # s)" using assms(2,4) by simp
  ultimately have "xs = ys" using assms(5) by simp
  with assms(5) show ?thesis by simp
qed

lemma dec_run_unique:
  "\<not> is_digit c \<Longrightarrow> \<not> is_digit d \<Longrightarrow> dec m @ c # r = dec n @ d # s \<Longrightarrow> m = n \<and> c # r = d # s"
  using digit_run_unique [of "dec m" "dec n" c d r s] by (auto simp: dec_digits dec_inj)

lemma zfill_run_unique:
  "\<not> is_digit c \<Longrightarrow> \<not> is_digit d \<Longrightarrow> zfill w m @ c # r = zfill w n @ d # s \<Longrightarrow> m = n \<and> c # r = d # s"
  using digit_run_unique [of "zfill w m" "zfill w n" c d r s] by (auto simp: zfill_digits zfill_inj)

lemma dec_hd: "hd (dec n) \<noteq> CHR ''-''"
  using dec_digits [of "hd (dec n)" n] dec_nonempty [of n]
  by (metis hd_in_set not_digit_literals(1))

lemma py_str_int_run_unique:
  assumes "\<not> is_digit c" and "\<not> is_digit d" and "py_str_int i @ c # r = py_str_int j @ d # s"
  shows "i = j \<and> c # r = d # s"
proof -
  have sign: "dec m @ u \<noteq> CHR ''-'' # v" for m u v
    using dec_hd [of m] dec_nonempty [of m] by (cases "dec m") auto
  have sign': "CHR ''-'' # v \<noteq> dec m @ u" for m u v
    using sign [of m u v] by metis
  have neg: "k < 0 \<Longrightarrow> py_str_int k @ t = CHR ''-'' # (dec (nat (- k)) @ t)"
    and pos: "\<not> k < 0 \<Longrightarrow> py_str_int k @ t = dec (nat k) @ t" for k t
    by (simp_all add: py_str_int_def)
  show ?thesis
  proof (cases "i < 0")
    case True
    have j: "j < 0"
    proof (rule ccontr)
      assume "\<not> j < 0"
      with True assms(3) have "CHR ''-'' # (dec (nat (- i)) @ c # r) = dec (nat j) @ d # s"
        by (simp only: neg pos not_False_eq_True)
      then show False by (simp only: sign')
    qed
    with True assms(3) have "dec (nat (- i)) @ c # r = dec (nat (- j)) @ d # s"
      by (simp only: neg list.inject)
    from dec_run_unique [OF assms(1,2) this] have "nat (- i) = nat (- j)" and "c # r = d # s"
      by simp_all
    with True j show ?thesis by arith
  next
    case False
    have j: "\<not> j < 0"
    proof
      assume "j < 0"
      with False assms(3) have "dec (nat i) @ c # r = CHR ''-'' # (dec (nat (- j)) @ d # s)"
        by (simp only: neg pos not_False_eq_True)
      then show False by (simp only: sign)
    qed
    with False assms(3) have "dec (nat i) @ c # r = dec (nat j) @ d # s"
      by (simp only: pos not_False_eq_True)
    from dec_run_unique [OF assms(1,2) this] have "nat i = nat j" and "c # r = d # s"
      by simp_all
    with False j show ?thesis by arith
  qed
qed

section \<open>Substrings\<close>

text \<open>\<^verbatim>\<open>sub in s\<close>, \<^verbatim>\<open>s.split(sep)[-1]\<close> for a one-character separator, \<^verbatim>\<open>s.startswith(p)\<close>.\<close>

fun py_contains :: "string \<Rightarrow> string \<Rightarrow> bool" where
  "py_contains sub [] = (sub = [])"
| "py_contains sub (c # s) = (take (length sub) (c # s) = sub \<or> py_contains sub s)"

definition split_last :: "char \<Rightarrow> string \<Rightarrow> string" where
  "split_last sep s = rev (takeWhile (\<lambda>c. c \<noteq> sep) (rev s))"

definition py_startswith :: "string \<Rightarrow> string \<Rightarrow> bool" where
  "py_startswith p s \<longleftrightarrow> take (length p) s = p"

lemma py_startswith_iff: "py_startswith p s \<longleftrightarrow> (\<exists>r. s = p @ r)"
  by (auto simp: py_startswith_def) (metis append_take_drop_id)

section \<open>UTF-8\<close>

type_synonym byte = "8 word"

definition utf8_char :: "char \<Rightarrow> byte list" where
  "utf8_char c =
     (let n = ord_of c
      in if n < 128 then [word_of_nat n]
         else [word_of_nat (192 + n div 64), word_of_nat (128 + n mod 64)])"

definition utf8 :: "string \<Rightarrow> byte list" where
  "utf8 s = concat (map utf8_char s)"

section \<open>JSON strings\<close>

definition hex_digit :: "nat \<Rightarrow> char" where
  "hex_digit d = (if d < 10 then char_of (48 + d) else char_of (87 + d))"

definition hex_val :: "char \<Rightarrow> nat" where
  "hex_val c = (if ord_of c < 58 then ord_of c - 48 else ord_of c - 87)"

lemma hex_val_digit [simp]: "d < 16 \<Longrightarrow> hex_val (hex_digit d) = d"
  by (auto simp: hex_val_def hex_digit_def)

definition json_esc :: "char \<Rightarrow> string" where
  "json_esc c =
     (if c = CHR 0x22 then [CHR 0x5C, CHR 0x22]
      else if c = CHR 0x5C then [CHR 0x5C, CHR 0x5C]
      else if c = CHR 0x0A then [CHR 0x5C, CHR ''n'']
      else if c = CHR 0x0D then [CHR 0x5C, CHR ''r'']
      else if c = CHR 0x09 then [CHR 0x5C, CHR ''t'']
      else if c = CHR 0x0C then [CHR 0x5C, CHR ''f'']
      else if c = CHR 0x08 then [CHR 0x5C, CHR ''b'']
      else if 32 \<le> ord_of c \<and> ord_of c \<le> 126 then [c]
      else [CHR 0x5C, CHR ''u'', CHR ''0'', CHR ''0'',
            hex_digit (ord_of c div 16), hex_digit (ord_of c mod 16)])"

definition json_str :: "string \<Rightarrow> string" where
  "json_str s = CHR 0x22 # concat (map json_esc s) @ [CHR 0x22]"

text \<open>Reading one escaped character back.\<close>

fun json_unesc :: "string \<Rightarrow> (char \<times> string) option" where
  "json_unesc [] = None"
| "json_unesc (c # s) =
     (if c \<noteq> CHR 0x5C then Some (c, s)
      else (case s of
              [] \<Rightarrow> None
            | k # r \<Rightarrow>
                if k = CHR ''n'' then Some (CHR 0x0A, r)
                else if k = CHR ''r'' then Some (CHR 0x0D, r)
                else if k = CHR ''t'' then Some (CHR 0x09, r)
                else if k = CHR ''f'' then Some (CHR 0x0C, r)
                else if k = CHR ''b'' then Some (CHR 0x08, r)
                else if k = CHR ''u''
                then (case r of
                        _ # _ # x # y # t \<Rightarrow> Some (char_of (16 * hex_val x + hex_val y), t)
                      | _ \<Rightarrow> None)
                else Some (k, r)))"

definition json_special :: "char \<Rightarrow> bool" where
  "json_special c \<longleftrightarrow> c \<in> {CHR 0x22, CHR 0x5C, CHR 0x0A, CHR 0x0D, CHR 0x09, CHR 0x0C, CHR 0x08}"

lemma json_unesc_special: "json_special c \<Longrightarrow> json_unesc (json_esc c @ r) = Some (c, r)"
  unfolding json_special_def by (elim insertE emptyE) (simp_all add: json_esc_def)

lemma json_esc_plain:
  "\<not> json_special c \<Longrightarrow> 32 \<le> ord_of c \<and> ord_of c \<le> 126 \<Longrightarrow> json_esc c = [c]"
  unfolding json_special_def json_esc_def by simp

lemma json_esc_unicode:
  "\<not> json_special c \<Longrightarrow> \<not> (32 \<le> ord_of c \<and> ord_of c \<le> 126) \<Longrightarrow>
   json_esc c = [CHR 0x5C, CHR ''u'', CHR ''0'', CHR ''0'',
                 hex_digit (ord_of c div 16), hex_digit (ord_of c mod 16)]"
  unfolding json_special_def json_esc_def by simp

lemma json_unesc_esc: "json_unesc (json_esc c @ r) = Some (c, r)"
proof (cases "json_special c")
  case True
  then show ?thesis by (rule json_unesc_special)
next
  case False
  then have ne: "c \<noteq> CHR 0x5C" by (simp add: json_special_def)
  have "ord_of c div 16 < 16" using ord_of_less [of c] by linarith
  then have hex: "16 * hex_val (hex_digit (ord_of c div 16)) + hex_val (hex_digit (ord_of c mod 16)) = ord_of c"
    by simp
  show ?thesis
  proof (cases "32 \<le> ord_of c \<and> ord_of c \<le> 126")
    case True
    with False ne show ?thesis by (simp add: json_esc_plain)
  next
    case plain: False
    show ?thesis
      by (simp add: json_esc_unicode [OF False plain] hex del: hex_val_digit)
  qed
qed

lemma json_esc_not_quote: "json_esc c @ r \<noteq> CHR 0x22 # s"
  by (simp add: json_esc_def)

lemma json_body_unique:
  "concat (map json_esc s) @ CHR 0x22 # r = concat (map json_esc s') @ CHR 0x22 # r'
   \<Longrightarrow> s = s' \<and> r = r'"
proof (induction s arbitrary: s')
  case Nil
  then show ?case
    by (cases s') (auto simp: json_esc_not_quote [THEN not_sym])
next
  case (Cons c s)
  then obtain d t where s': "s' = d # t"
    by (cases s') (auto simp: json_esc_not_quote)
  let ?rest = "concat (map json_esc s) @ CHR 0x22 # r"
  let ?rest' = "concat (map json_esc t) @ CHR 0x22 # r'"
  from Cons.prems s' have "json_unesc (json_esc c @ ?rest) = json_unesc (json_esc d @ ?rest')"
    by simp
  then have "c = d" and "?rest = ?rest'" by (simp_all only: json_unesc_esc) auto
  with Cons.IH [of t] s' show ?case by simp
qed

lemma json_str_unique: "json_str s @ r = json_str s' @ r' \<Longrightarrow> s = s' \<and> r = r'"
  using json_body_unique [of s r s' r'] by (simp add: json_str_def)

end
