(* ===== verification/PyVal.thy ===== *)
theory PyVal
  imports Complex_Main PyText
begin

text \<open>
  Dynamically typed values, as \<^verbatim>\<open>json.loads\<close> and \<^verbatim>\<open>yaml.safe_load\<close> return them, with the
  operations the program applies: truth testing, item access, \<^verbatim>\<open>.get\<close>, \<^verbatim>\<open>int()\<close> and \<^verbatim>\<open>str()\<close>.
  Dictionary keys are strings.  A finite float is its exact rational value; infinities and NaN are
  outside the model.
\<close>

datatype pyval =
    PNone
  | PBool bool
  | PInt int
  | PFloat rat
  | PStr string
  | PList "pyval list"
  | PDict "(string \<times> pyval) list"

section \<open>Truth, items, get\<close>

fun truthy :: "pyval \<Rightarrow> bool" where
  "truthy PNone = False"
| "truthy (PBool b) = b"
| "truthy (PInt i) = (i \<noteq> 0)"
| "truthy (PFloat r) = (r \<noteq> 0)"
| "truthy (PStr s) = (s \<noteq> [])"
| "truthy (PList xs) = (xs \<noteq> [])"
| "truthy (PDict d) = (d \<noteq> [])"

text \<open>\<^verbatim>\<open>v[k]\<close> for a string \<^verbatim>\<open>k\<close>.\<close>

fun py_item :: "pyval \<Rightarrow> string \<Rightarrow> pyval result" where
  "py_item (PDict d) k = of_option KeyError (dict_get d k)"
| "py_item _ k = Inl TypeError"

text \<open>\<^verbatim>\<open>v.get(k, default)\<close>.\<close>

fun py_get :: "pyval \<Rightarrow> string \<Rightarrow> pyval \<Rightarrow> pyval result" where
  "py_get (PDict d) k dflt = Inr (case dict_get d k of None \<Rightarrow> dflt | Some v \<Rightarrow> v)"
| "py_get _ k dflt = Inl AttributeError"

text \<open>\<^verbatim>\<open>v or w\<close>.\<close>

definition py_or :: "pyval \<Rightarrow> pyval \<Rightarrow> pyval" where
  "py_or v w = (if truthy v then v else w)"

section \<open>int() and str()\<close>

text \<open>
  The literals \<^verbatim>\<open>int(str)\<close> accepts: surrounding white space, a sign, decimal digits with single
  underscores between digits, and at most 4300 digits (the interpreter's limit).
\<close>

fun int_digits :: "bool \<Rightarrow> string \<Rightarrow> bool" where
  "int_digits p [] = p"
| "int_digits p (c # s) =
     (if is_digit c then int_digits True s
      else if c = CHR ''_'' then p \<and> int_digits False s
      else False)"

definition py_int_of_str :: "string \<Rightarrow> int result" where
  "py_int_of_str s =
     (let t = py_strip s;
          neg = (t \<noteq> [] \<and> hd t = CHR ''-'');
          u = (if t \<noteq> [] \<and> (hd t = CHR ''-'' \<or> hd t = CHR ''+'') then tl t else t);
          ds = filter is_digit u
      in if int_digits False u \<and> length ds \<le> 4300
         then Inr (if neg then - int (undec ds) else int (undec ds))
         else Inl ValueError)"

fun py_int :: "pyval \<Rightarrow> int result" where
  "py_int (PInt i) = Inr i"
| "py_int (PBool b) = Inr (if b then 1 else 0)"
| "py_int (PFloat r) = Inr (if r < 0 then \<lceil>r\<rceil> else \<lfloor>r\<rfloor>)"
| "py_int (PStr s) = py_int_of_str s"
| "py_int _ = Inl TypeError"

text \<open>
  \<^verbatim>\<open>str(v)\<close>.  The callers match the text against anchored patterns of digits; the texts of floats,
  lists and dictionaries, none of which the patterns accept, are represented by their one character
  that rules them out.
\<close>

fun py_str :: "pyval \<Rightarrow> string" where
  "py_str PNone = ''None''"
| "py_str (PBool b) = (if b then ''True'' else ''False'')"
| "py_str (PInt i) = py_str_int i"
| "py_str (PFloat r) = ''.''"
| "py_str (PStr s) = s"
| "py_str (PList xs) = ''[''"
| "py_str (PDict d) = ''{''"

lemma int_digits_all: "\<forall>c \<in> set s. is_digit c \<Longrightarrow> int_digits p s = (s \<noteq> [] \<or> p)"
  by (induction s arbitrary: p) auto

lemma is_space_not_digit: "is_digit c \<Longrightarrow> \<not> is_space c"
  by (auto simp: is_digit_def is_space_def Let_def)

lemma dropWhile_first_keeps: "s \<noteq> [] \<Longrightarrow> \<not> P (hd s) \<Longrightarrow> dropWhile P s = s"
  by (cases s) auto

lemma py_strip_digits: "\<forall>c \<in> set s. is_digit c \<Longrightarrow> py_strip s = s"
proof (cases "s = []")
  case True
  then show ?thesis by (simp add: py_strip_def)
next
  case False
  assume "\<forall>c \<in> set s. is_digit c"
  then have "\<forall>c \<in> set s. \<not> is_space c" by (simp add: is_space_not_digit)
  with False have "dropWhile is_space s = s" and "dropWhile is_space (rev s) = rev s"
    by (simp_all add: dropWhile_first_keeps hd_rev)
  then show ?thesis by (simp add: py_strip_def)
qed

lemma py_int_of_dec: "length (dec n) \<le> 4300 \<Longrightarrow> py_int_of_str (dec n) = Inr (int n)"
proof -
  assume len: "length (dec n) \<le> 4300"
  have digits: "\<forall>c \<in> set (dec n). is_digit c" by (simp add: dec_digits)
  then have "filter is_digit (dec n) = dec n" by simp
  moreover have "is_digit (hd (dec n))" using digits by simp
  then have "hd (dec n) \<noteq> CHR ''-''" and "hd (dec n) \<noteq> CHR ''+''" by force+
  ultimately show ?thesis
    using len digits by (simp add: py_int_of_str_def Let_def py_strip_digits int_digits_all)
qed

end
