(* ===== verification/PyTime.thy ===== *)
theory PyTime
  imports PyText
begin

text \<open>
  Python's \<^verbatim>\<open>datetime\<close> as far as the program uses it.  Every \<^verbatim>\<open>datetime\<close> of the program is
  timezone-aware and in UTC, so it is the number of microseconds since 1970-01-01T00:00Z; a
  \<^verbatim>\<open>timedelta\<close> is a number of microseconds and a \<^verbatim>\<open>time\<close> of day the microseconds since midnight.
  India has kept UTC+5:30 since 1945, so \<^verbatim>\<open>astimezone(IST)\<close> adds a constant.  Python limits years
  to 1..9999 and raises OverflowError beyond; the model's integers have no such limit.
  Civil dates follow CPython's \<^verbatim>\<open>_ord2ymd\<close>.
\<close>

type_synonym datetime = int
type_synonym timedelta = int
type_synonym clock_time = int

section \<open>Units\<close>

definition usec_per_second :: int where "usec_per_second = 1000000"
definition usec_per_minute :: int where "usec_per_minute = 60000000"
definition usec_per_hour :: int where "usec_per_hour = 3600000000"
definition usec_per_day :: int where "usec_per_day = 86400000000"

lemmas usec_defs = usec_per_second_def usec_per_minute_def usec_per_hour_def usec_per_day_def

definition hours :: "int \<Rightarrow> timedelta" where
  "hours h = h * usec_per_hour"

lemma usec_per_day_pos [simp]: "0 < usec_per_day"
  by (simp add: usec_per_day_def)

lemma hours_nonneg [simp]: "0 \<le> hours h \<longleftrightarrow> 0 \<le> h"
  by (simp add: hours_def usec_per_hour_def)

lemma hours_mono [simp]: "hours g \<le> hours h \<longleftrightarrow> g \<le> h"
  by (simp add: hours_def usec_per_hour_def)

lemma hours_less [simp]: "hours g < hours h \<longleftrightarrow> g < h"
  by (simp add: hours_def usec_per_hour_def)

lemma hours_neg [simp]: "hours h < 0 \<longleftrightarrow> h < 0"
  by (simp add: hours_def usec_per_hour_def)

text \<open>
  \<^verbatim>\<open>timedelta / int\<close>: CPython's \<^verbatim>\<open>_divide_and_round\<close>, to the nearest microsecond and halves to even.
\<close>

definition divide_and_round :: "int \<Rightarrow> int \<Rightarrow> int" where
  "divide_and_round a b =
     (let q = a div b; r = 2 * (a mod b);
          greater_than_half = (if b > 0 then r > b else r < b)
      in if greater_than_half \<or> r = b \<and> q mod 2 = 1 then q + 1 else q)"

lemma divide_and_round_one [simp]: "divide_and_round a 1 = a"
  by (simp add: divide_and_round_def Let_def)

lemma divide_and_round_bounds:
  assumes "0 < b"
  shows "2 * b * divide_and_round a b \<le> 2 * a + b" and "2 * a - b \<le> 2 * b * divide_and_round a b"
proof -
  have bq: "b * (a div b) = a - a mod b" by (simp add: minus_mod_eq_mult_div)
  have r: "0 \<le> a mod b" "a mod b < b" using assms by simp_all
  have down: "x = 2 * (a - m) \<Longrightarrow> 2 * m \<le> b \<Longrightarrow> 0 \<le> m \<Longrightarrow> x \<le> 2 * a + b \<and> 2 * a - b \<le> x"
    and up: "x = 2 * (a - m) + 2 * b \<Longrightarrow> b \<le> 2 * m \<Longrightarrow> m < b \<Longrightarrow> x \<le> 2 * a + b \<and> 2 * a - b \<le> x"
    for x m :: int by auto
  let ?q = "a div b"
  have "divide_and_round a b = ?q \<and> 2 * (a mod b) \<le> b
      \<or> divide_and_round a b = ?q + 1 \<and> b \<le> 2 * (a mod b)"
    using assms by (auto simp: divide_and_round_def Let_def)
  then have "2 * b * divide_and_round a b \<le> 2 * a + b \<and> 2 * a - b \<le> 2 * b * divide_and_round a b"
  proof
    assume h: "divide_and_round a b = ?q \<and> 2 * (a mod b) \<le> b"
    then have "2 * b * divide_and_round a b = 2 * (a - a mod b)" by (simp add: bq mult.assoc)
    from down [OF this conjunct2 [OF h] r(1)] show ?thesis .
  next
    assume h: "divide_and_round a b = ?q + 1 \<and> b \<le> 2 * (a mod b)"
    then have "2 * b * divide_and_round a b = 2 * (b * (a div b)) + 2 * b"
      by (simp add: algebra_simps)
    then have "2 * b * divide_and_round a b = 2 * (a - a mod b) + 2 * b" by (simp only: bq)
    from up [OF this conjunct2 [OF h] r(2)] show ?thesis .
  qed
  then show "2 * b * divide_and_round a b \<le> 2 * a + b"
    and "2 * a - b \<le> 2 * b * divide_and_round a b" by simp_all
qed

lemma divide_and_round_nonneg:
  assumes "0 < b" and "0 \<le> a"
  shows "0 \<le> divide_and_round a b"
proof -
  have "0 \<le> a div b" using assms by (simp add: pos_imp_zdiv_nonneg_iff)
  then show ?thesis by (auto simp: divide_and_round_def Let_def)
qed

lemma divide_and_round_le:
  assumes "0 < b" and "0 \<le> a"
  shows "divide_and_round a b \<le> a"
proof (cases "b = 1")
  case True
  then show ?thesis by simp
next
  case False
  with assms(1) have b2: "2 \<le> b" by simp
  show ?thesis
  proof (rule ccontr)
    assume "\<not> divide_and_round a b \<le> a"
    then have "a + 1 \<le> divide_and_round a b" by simp
    then have "2 * b * (a + 1) \<le> 2 * b * divide_and_round a b" using b2 by simp
    also have "\<dots> \<le> 2 * a + b" by (rule divide_and_round_bounds(1)) (rule assms(1))
    finally have "2 * b * a + b \<le> 2 * a" by (simp add: algebra_simps)
    moreover have "2 * a \<le> 2 * b * a" using b2 assms(2) by (simp add: mult_right_mono)
    ultimately show False using b2 by linarith
  qed
qed

section \<open>Time of day, Indian time\<close>

definition ist_offset :: timedelta where
  "ist_offset = 5 * usec_per_hour + 30 * usec_per_minute"

text \<open>An IST-aware datetime is represented by its local reading in microseconds.\<close>

definition astimezone_ist :: "datetime \<Rightarrow> int" where
  "astimezone_ist t = t + ist_offset"

definition astimezone_utc :: "int \<Rightarrow> datetime" where
  "astimezone_utc l = l - ist_offset"

definition time_of :: "int \<Rightarrow> clock_time" where
  "time_of l = l mod usec_per_day"

definition mk_time :: "int \<Rightarrow> int \<Rightarrow> clock_time" where
  "mk_time h m = h * usec_per_hour + m * usec_per_minute"

definition time_hour :: "clock_time \<Rightarrow> int" where
  "time_hour t = t div usec_per_hour"

definition time_minute :: "clock_time \<Rightarrow> int" where
  "time_minute t = t mod usec_per_hour div usec_per_minute"

text \<open>\<^verbatim>\<open>dt.replace(hour=h, minute=m, second=0, microsecond=0)\<close>.\<close>

definition replace_time :: "int \<Rightarrow> int \<Rightarrow> int \<Rightarrow> int" where
  "replace_time l h m = l - time_of l + mk_time h m"

lemma time_of_bounds [simp]: "0 \<le> time_of l" "time_of l < usec_per_day"
  by (simp_all add: time_of_def)

lemma hours_24: "hours 24 = usec_per_day"
  by (simp add: hours_def usec_defs)

lemma time_of_add_day [simp]: "time_of (l + hours 24) = time_of l"
  by (simp add: time_of_def hours_24)

lemma time_of_whole_day: "0 \<le> t \<Longrightarrow> t < usec_per_day \<Longrightarrow> time_of (l - time_of l + t) = t"
proof -
  assume "0 \<le> t" "t < usec_per_day"
  moreover have "l - time_of l = usec_per_day * (l div usec_per_day)"
    by (simp add: time_of_def minus_mod_eq_mult_div)
  ultimately show ?thesis by (simp add: time_of_def mod_add_left_eq)
qed

text \<open>A wall-clock time with whole minutes, as the configuration's parser produces it.\<close>

definition whole_minute :: "clock_time \<Rightarrow> bool" where
  "whole_minute t \<longleftrightarrow> 0 \<le> t \<and> t < usec_per_day \<and> t mod usec_per_minute = 0"

lemma mk_time_hour_minute: "whole_minute t \<Longrightarrow> mk_time (time_hour t) (time_minute t) = t"
proof -
  assume "whole_minute t"
  then have "t mod usec_per_minute = 0" by (simp add: whole_minute_def)
  moreover have "t mod usec_per_hour mod usec_per_minute = t mod usec_per_minute"
    by (rule mod_mod_cancel) (simp add: usec_defs)
  ultimately have "t mod usec_per_hour div usec_per_minute * usec_per_minute = t mod usec_per_hour"
    by (metis add.right_neutral div_mult_mod_eq)
  then show ?thesis by (simp add: mk_time_def time_hour_def time_minute_def)
qed

lemma whole_minute_mk_time:
  "0 \<le> h \<Longrightarrow> h < 24 \<Longrightarrow> 0 \<le> m \<Longrightarrow> m < 60 \<Longrightarrow> whole_minute (mk_time h m)"
  by (simp add: whole_minute_def mk_time_def usec_defs mod_eq_0_iff_dvd)

lemma replace_time_eq:
  "whole_minute t \<Longrightarrow> replace_time l (time_hour t) (time_minute t) = l - time_of l + t"
  by (simp add: replace_time_def mk_time_hour_minute)

lemma time_of_replace:
  "whole_minute t \<Longrightarrow> time_of (replace_time l (time_hour t) (time_minute t)) = t"
  by (simp add: replace_time_eq time_of_whole_day whole_minute_def)

section \<open>Civil dates\<close>

definition is_leap :: "int \<Rightarrow> bool" where
  "is_leap y \<longleftrightarrow> y mod 4 = 0 \<and> (y mod 100 \<noteq> 0 \<or> y mod 400 = 0)"

definition days_before_month :: "int \<Rightarrow> int" where
  "days_before_month m = [0, 0, 31, 59, 90, 120, 151, 181, 212, 243, 273, 304, 334] ! nat m"

definition days_in_month :: "int \<Rightarrow> int" where
  "days_in_month m = [0, 31, 28, 31, 30, 31, 30, 31, 31, 30, 31, 30, 31] ! nat m"

text \<open>The month and day of the \<open>n\<close>-th day (from 0) of a year.\<close>

definition month_day :: "bool \<Rightarrow> int \<Rightarrow> int \<times> int" where
  "month_day leap n =
     (let month = (n + 50) div 32;
          preceding = days_before_month month + (if month > 2 \<and> leap then 1 else 0)
      in if preceding > n
         then let month' = month - 1;
                  preceding' = preceding - (days_in_month month' + (if month' = 2 \<and> leap then 1 else 0))
              in (month', n - preceding' + 1)
         else (month, n - preceding + 1))"

definition ord2ymd :: "int \<Rightarrow> int \<times> int \<times> int" where
  "ord2ymd ordinal =
     (let n = ordinal - 1;
          n400 = n div 146097; r400 = n mod 146097;
          n100 = r400 div 36524; r100 = r400 mod 36524;
          n4 = r100 div 1461; r4 = r100 mod 1461;
          n1 = r4 div 365; r1 = r4 mod 365;
          year = n400 * 400 + 1 + n100 * 100 + n4 * 4 + n1
      in if n1 = 4 \<or> n100 = 4 then (year - 1, 12, 31)
         else let leap = (n1 = 3 \<and> (n4 \<noteq> 24 \<or> n100 = 3));
                  md = month_day leap r1
              in (year, fst md, snd md))"

definition epoch_ordinal :: int where "epoch_ordinal = 719163"

definition ymd_of :: "datetime \<Rightarrow> int \<times> int \<times> int" where
  "ymd_of t = ord2ymd (epoch_ordinal + t div usec_per_day)"

definition dt_day :: "datetime \<Rightarrow> int" where
  "dt_day t = snd (snd (ymd_of t))"

definition dt_hour :: "datetime \<Rightarrow> int" where
  "dt_hour t = time_hour (time_of t)"

lemma dt_hour_bounds: "0 \<le> dt_hour t" "dt_hour t < 24"
proof -
  have "0 \<le> time_of t" and "time_of t < 86400000000"
    using time_of_bounds [of t] by (simp_all add: usec_per_day_def)
  then show "0 \<le> dt_hour t" and "dt_hour t < 24"
    by (simp_all add: dt_hour_def time_hour_def usec_per_hour_def div_int_pos_iff)
qed

section \<open>isoformat\<close>

text \<open>
  \<^verbatim>\<open>date.isoformat()\<close> and \<^verbatim>\<open>datetime.isoformat()\<close> of a UTC datetime: microseconds are written only
  when they are not zero.
\<close>

definition iso_date :: "datetime \<Rightarrow> string" where
  "iso_date t =
     (let (y, m, d) = ymd_of t
      in zfill 4 (nat y) @ CHR ''-'' # zfill 2 (nat m) @ CHR ''-'' # zfill 2 (nat d))"

definition isoformat :: "datetime \<Rightarrow> string" where
  "isoformat t =
     (let tod = time_of t;
          us = tod mod usec_per_second;
          s = tod div usec_per_second
      in iso_date t @ CHR ''T'' # zfill 2 (nat (s div 3600)) @ CHR '':''
         # zfill 2 (nat (s div 60 mod 60)) @ CHR '':'' # zfill 2 (nat (s mod 60))
         @ (if us = 0 then [] else CHR ''.'' # zfill 6 (nat us)) @ ''+00:00'')"

end
