(* ===== verification/Models.thy ===== *)
theory Models
  imports PyVal PyTime
begin

text \<open>
  The data classes of \<^verbatim>\<open>app/models.py\<close>.  Each class is a record, prefixed where two classes share
  a field name, and each \<^verbatim>\<open>__post_init__\<close> is a constructor function that returns the record or the
  ValueError it raises.  The \<^verbatim>\<open>Literal\<close> types are datatypes.  The \<^verbatim>\<open>state\<close> strings are the
  datatype of the state names the program assigns; \<open>state_name\<close> gives back the string.
\<close>

datatype bucket_name = Treatment | Control
datatype decline_class = Technical | Business | Unclassified
datatype control_result = Recovered_naturally | Still_failed | Unknown
datatype resolution = Written_off | Recovered_manually
datatype backend_name = Etcd | Postgres_outbox
datatype retry_outcome = Pending | Recovered | Failed
datatype actor = Agent | Human

datatype case_state =
    RECEIVED
  | CLASSIFIED
  | TREATMENT
  | CONTROL_HELD
  | CONTROL_RECOVERED
  | CONTROL_STILL_FAILED
  | AFA_REQUIRED
  | NOTICE_PENDING
  | NOTICE_SENT
  | RETRY_SCHEDULED
  | THROTTLED
  | RETRY_EXECUTED
  | RETRY_EVAL
  | RECOVERED
  | RECOVERED_NATURALLY
  | ESCALATED
  | RESOLVED_BY_HUMAN

fun state_name :: "case_state \<Rightarrow> string" where
  "state_name RECEIVED = ''RECEIVED''"
| "state_name CLASSIFIED = ''CLASSIFIED''"
| "state_name TREATMENT = ''TREATMENT''"
| "state_name CONTROL_HELD = ''CONTROL_HELD''"
| "state_name CONTROL_RECOVERED = ''CONTROL_RECOVERED''"
| "state_name CONTROL_STILL_FAILED = ''CONTROL_STILL_FAILED''"
| "state_name AFA_REQUIRED = ''AFA_REQUIRED''"
| "state_name NOTICE_PENDING = ''NOTICE_PENDING''"
| "state_name NOTICE_SENT = ''NOTICE_SENT''"
| "state_name RETRY_SCHEDULED = ''RETRY_SCHEDULED''"
| "state_name THROTTLED = ''THROTTLED''"
| "state_name RETRY_EXECUTED = ''RETRY_EXECUTED''"
| "state_name RETRY_EVAL = ''RETRY_EVAL''"
| "state_name RECOVERED = ''RECOVERED''"
| "state_name RECOVERED_NATURALLY = ''RECOVERED_NATURALLY''"
| "state_name ESCALATED = ''ESCALATED''"
| "state_name RESOLVED_BY_HUMAN = ''RESOLVED_BY_HUMAN''"

fun actor_name :: "actor \<Rightarrow> string" where
  "actor_name Agent = ''agent''"
| "actor_name Human = ''human''"

lemma state_name_inj: "state_name s = state_name t \<longleftrightarrow> s = t"
  by (cases s; cases t) simp_all

lemma actor_name_inj: "actor_name a = actor_name b \<longleftrightarrow> a = b"
  by (cases a; cases b) simp_all

section \<open>The state names are finite\<close>

text \<open>With this instance, statements over all states are decided by evaluation.\<close>

instantiation case_state :: enum
begin

definition enum_case_state :: "case_state list" where
  "enum_case_state =
     [RECEIVED, CLASSIFIED, TREATMENT, CONTROL_HELD, CONTROL_RECOVERED, CONTROL_STILL_FAILED,
      AFA_REQUIRED, NOTICE_PENDING, NOTICE_SENT, RETRY_SCHEDULED, THROTTLED, RETRY_EXECUTED,
      RETRY_EVAL, RECOVERED, RECOVERED_NATURALLY, ESCALATED, RESOLVED_BY_HUMAN]"

definition enum_all_case_state :: "(case_state \<Rightarrow> bool) \<Rightarrow> bool" where
  "enum_all_case_state P \<longleftrightarrow> list_all P (enum_class.enum :: case_state list)"

definition enum_ex_case_state :: "(case_state \<Rightarrow> bool) \<Rightarrow> bool" where
  "enum_ex_case_state P \<longleftrightarrow> list_ex P (enum_class.enum :: case_state list)"

lemma case_state_in_enum: "(s :: case_state) \<in> set enum_class.enum"
  by (cases s) (simp_all add: enum_case_state_def)

instance
proof
  show u: "(UNIV :: case_state set) = set enum_class.enum"
    by (auto simp: case_state_in_enum)
  show "distinct (enum_class.enum :: case_state list)"
    by (simp add: enum_case_state_def)
  show "enum_class.enum_all P = Ball UNIV P" for P :: "case_state \<Rightarrow> bool"
    by (simp add: enum_all_case_state_def list_all_iff u)
  show "enum_class.enum_ex P = Bex UNIV P" for P :: "case_state \<Rightarrow> bool"
    by (simp add: enum_ex_case_state_def list_ex_iff u)
qed

end

section \<open>RecoveryCase\<close>

record recovery_case =
  case_id :: string
  mandate_id :: string
  instrument_id :: string
  original_amount :: int
  opened_at :: datetime
  retries_used :: int
  state :: case_state
  bucket :: "bucket_name option"
  control_outcome :: "control_result option"
  control_observation_deadline :: "datetime option"
  resolution_note :: "resolution option"

definition recovery_case_ok :: "recovery_case \<Rightarrow> bool" where
  "recovery_case_ok c \<longleftrightarrow>
     case_id c \<noteq> [] \<and> mandate_id c \<noteq> [] \<and> instrument_id c \<noteq> [] \<and> 0 < original_amount c
     \<and> 0 \<le> retries_used c"

text \<open>The constructor call of the state machine: the fields it does not pass take their defaults.\<close>

definition RecoveryCase ::
  "string \<Rightarrow> string \<Rightarrow> string \<Rightarrow> int \<Rightarrow> datetime \<Rightarrow> int \<Rightarrow> case_state \<Rightarrow> recovery_case result" where
  "RecoveryCase cid mid iid amount opened used st =
     (if cid = [] then Inl ValueError
      else if mid = [] then Inl ValueError
      else if iid = [] then Inl ValueError
      else if amount \<le> 0 then Inl ValueError
      else if used < 0 then Inl ValueError
      else Inr \<lparr>case_id = cid, mandate_id = mid, instrument_id = iid, original_amount = amount,
                opened_at = opened, retries_used = used, state = st, bucket = None,
                control_outcome = None, control_observation_deadline = None,
                resolution_note = None\<rparr>)"

lemma RecoveryCase_ok: "RecoveryCase cid mid iid amount opened used st = Inr c \<Longrightarrow> recovery_case_ok c"
  by (auto simp: RecoveryCase_def recovery_case_ok_def split: if_splits)

definition assign_bucket :: "recovery_case \<Rightarrow> bucket_name \<Rightarrow> recovery_case result" where
  "assign_bucket c b =
     (if bucket c \<noteq> None \<and> bucket c \<noteq> Some b then Inl ValueError
      else Inr (c\<lparr>bucket := Some b\<rparr>))"

section \<open>Payment events\<close>

record failure_event =
  fe_case_id :: string
  fe_payment_id :: string
  attempt_number :: int
  reason_code :: "string option"
  decline_class :: decline_class
  fe_amount :: int
  received_at :: datetime
  fe_mandate_id :: "string option"
  fe_instrument_id :: string
  error_reason :: "string option"
  error_source :: "string option"
  error_step :: "string option"
  fe_notes :: "(string, pyval) dict option"

definition failure_event_ok :: "failure_event \<Rightarrow> bool" where
  "failure_event_ok e \<longleftrightarrow>
     1 \<le> attempt_number e \<and> 0 < fe_amount e \<and> fe_payment_id e \<noteq> [] \<and> fe_case_id e \<noteq> []"

definition PaymentFailureEvent :: "failure_event \<Rightarrow> failure_event result" where
  "PaymentFailureEvent e =
     (if attempt_number e < 1 then Inl ValueError
      else if fe_amount e \<le> 0 then Inl ValueError
      else if fe_payment_id e = [] then Inl ValueError
      else if fe_case_id e = [] then Inl ValueError
      else Inr e)"

record success_event =
  se_case_id :: string
  se_payment_id :: string
  se_amount :: int
  captured_at :: datetime
  matched_attempt_number :: "int option"

definition PaymentSuccessEvent :: "success_event \<Rightarrow> success_event result" where
  "PaymentSuccessEvent e =
     (if se_case_id e = [] then Inl ValueError
      else if se_payment_id e = [] then Inl ValueError
      else if se_amount e \<le> 0 then Inl ValueError
      else Inr e)"

section \<open>RetryDecision, AuditEntry, NoticeRecord\<close>

record retry_decision =
  rd_case_id :: string
  rd_attempt_number :: int
  rd_scheduled_at :: datetime
  reasoning :: string
  rd_commit_backend :: backend_name
  commit_ref :: string
  executed_at :: "datetime option"
  outcome :: retry_outcome

definition RetryDecision :: "retry_decision \<Rightarrow> retry_decision result" where
  "RetryDecision d =
     (if rd_attempt_number d < 1 then Inl ValueError
      else if reasoning d = [] then Inl ValueError
      else if commit_ref d = [] then Inl ValueError
      else Inr d)"

record audit_entry =
  ae_case_id :: string
  from_state :: case_state
  to_state :: case_state
  rule_fired :: string
  rule_version :: int
  timestamp :: datetime
  entry_actor :: actor
  sequence_id :: "int option"
  prev_hash :: "string option"
  entry_hash :: "string option"
  ae_scheduled_at :: "datetime option"

definition AuditEntry ::
  "string \<Rightarrow> case_state \<Rightarrow> case_state \<Rightarrow> string \<Rightarrow> int \<Rightarrow> datetime \<Rightarrow> actor \<Rightarrow> audit_entry result" where
  "AuditEntry cid from to rule version ts who =
     (if rule = [] then Inl ValueError
      else if version < 1 then Inl ValueError
      else Inr \<lparr>ae_case_id = cid, from_state = from, to_state = to, rule_fired = rule,
                rule_version = version, timestamp = ts, entry_actor = who, sequence_id = None,
                prev_hash = None, entry_hash = None, ae_scheduled_at = None\<rparr>)"

record notice_record =
  nr_instrument_id :: string
  mandate_ids :: "string list"
  sent_at :: "datetime option"
  dnd_deferred :: bool

definition NoticeRecord :: "notice_record \<Rightarrow> notice_record result" where
  "NoticeRecord n = (if mandate_ids n = [] then Inl ValueError else Inr n)"

lemmas model_ctor_defs =
  RecoveryCase_def PaymentFailureEvent_def PaymentSuccessEvent_def RetryDecision_def AuditEntry_def
  NoticeRecord_def

end
