(* ===== verification/Config.thy ===== *)
theory Config
  imports Models
begin

text \<open>
  \<^verbatim>\<open>app/core/config.py\<close>: the duration, time-scale and clock-time parsers, the frozen configuration
  classes with their validation, and \<^verbatim>\<open>load_config\<close> over the value tree that \<^verbatim>\<open>yaml.safe_load\<close>
  returns (the YAML reader itself is a library).  \<open>npci_rules_yaml\<close> is the tree of the shipped
  \<^verbatim>\<open>config/npci_rules.yaml\<close>.
\<close>

section \<open>Parsers\<close>

text \<open>
  The anchored patterns \<^verbatim>\<open>^(\d+)h$\<close> and \<^verbatim>\<open>^(\d+)x$\<close> after stripping: one or more digits, then the
  unit letter.  More than 4300 digits make \<^verbatim>\<open>int\<close> raise the same ValueError.
\<close>

definition parse_suffixed :: "char \<Rightarrow> string \<Rightarrow> int result" where
  "parse_suffixed unit value =
     (let s = py_strip value; ds = butlast s
      in if s \<noteq> [] \<and> last s = unit \<and> ds \<noteq> [] \<and> list_all is_digit ds \<and> length ds \<le> 4300
         then Inr (int (undec ds)) else Inl ValueError)"

definition parse_duration :: "string \<Rightarrow> timedelta result" where
  "parse_duration value = bindR (parse_suffixed (CHR ''h'') value) (\<lambda>n. Inr (hours n))"

definition parse_time_scale :: "string \<Rightarrow> int result" where
  "parse_time_scale value = parse_suffixed (CHR ''x'') value"

text \<open>\<^verbatim>\<open>^([01]\d|2[0-3]):([0-5]\d)$\<close>.\<close>

fun parse_clock_time :: "string \<Rightarrow> clock_time result" where
  "parse_clock_time value =
     (case py_strip value of
        [a, b, c, d, e] \<Rightarrow>
          if is_digit a \<and> is_digit b \<and> c = CHR '':'' \<and> is_digit d \<and> is_digit e
             \<and> 10 * digit_val a + digit_val b < 24 \<and> digit_val d < 6
          then Inr (mk_time (int (10 * digit_val a + digit_val b)) (int (10 * digit_val d + digit_val e)))
          else Inl ValueError
      | _ \<Rightarrow> Inl ValueError)"

section \<open>The configuration classes\<close>

record peak_window =
  window_start :: clock_time
  window_end :: clock_time

record npci_rules =
  max_retries :: int
  notice_lead_time :: timedelta
  peak_windows :: "peak_window list"
  afa_free_ceiling :: "(string, int) dict"

record self_imposed_policy =
  control_observation_window :: timedelta
  retry_spacing :: "timedelta list"
  max_schedule_window :: timedelta

record decline_rules =
  technical :: "string list"
  business :: "string list"
  default_class :: string

datatype profile_name = Prod | Demo

record app_config =
  npci :: npci_rules
  self_imposed :: self_imposed_policy
  config_profile :: profile_name
  time_scale :: int
  decline :: decline_rules
  rails :: "(string, rat) dict"

definition SelfImposedPolicy :: "timedelta \<Rightarrow> timedelta list \<Rightarrow> timedelta \<Rightarrow> self_imposed_policy result" where
  "SelfImposedPolicy obs spacing window =
     (if list_ex (\<lambda>d. d < 0) spacing then Inl ValueError
      else if list_ex (\<lambda>d. d < hours 24) (drop 1 spacing) then Inl ValueError
      else Inr \<lparr>control_observation_window = obs, retry_spacing = spacing, max_schedule_window = window\<rparr>)"

section \<open>load_config\<close>

fun as_list :: "pyval \<Rightarrow> pyval list result" where
  "as_list (PList xs) = Inr xs"
| "as_list _ = Inl TypeError"

fun as_str :: "pyval \<Rightarrow> string result" where
  "as_str (PStr s) = Inr s"
| "as_str _ = Inl TypeError"

fun as_dict :: "pyval \<Rightarrow> (string, pyval) dict result" where
  "as_dict (PDict d) = Inr d"
| "as_dict _ = Inl AttributeError"

text \<open>\<^verbatim>\<open>float(v)\<close> for the numbers a YAML file holds.\<close>

fun py_float :: "pyval \<Rightarrow> rat result" where
  "py_float (PFloat r) = Inr r"
| "py_float (PInt i) = Inr (of_int i)"
| "py_float (PBool b) = Inr (if b then 1 else 0)"
| "py_float (PStr s) = Inl ValueError"
| "py_float _ = Inl TypeError"

definition load_window :: "pyval \<Rightarrow> peak_window result" where
  "load_window w =
     bindR (py_item w ''start'') (\<lambda>a. bindR (parse_clock_time (py_str a)) (\<lambda>s.
     bindR (py_item w ''end'') (\<lambda>b. bindR (parse_clock_time (py_str b)) (\<lambda>e.
     Inr \<lparr>window_start = s, window_end = e\<rparr>))))"

definition load_npci :: "pyval \<Rightarrow> npci_rules result" where
  "load_npci raw =
     bindR (bindR (py_item raw ''max_retries'') py_int) (\<lambda>mr.
     bindR (bindR (py_item raw ''notice_lead_time'') (\<lambda>v. parse_duration (py_str v))) (\<lambda>lead.
     bindR (bindR (bindR (py_get raw ''peak_windows'' (PList [])) as_list) (mapR load_window)) (\<lambda>ws.
     bindR (bindR (py_item raw ''afa_free_ceiling'') as_dict) (\<lambda>d.
     bindR (mapR (\<lambda>(k, v). bindR (py_int v) (\<lambda>i. Inr (k, i))) d) (\<lambda>ceil.
     Inr \<lparr>max_retries = mr, notice_lead_time = lead, peak_windows = ws, afa_free_ceiling = ceil\<rparr>)))))"

definition load_self_imposed :: "pyval \<Rightarrow> self_imposed_policy result" where
  "load_self_imposed raw =
     bindR (bindR (py_get raw ''control_observation_window'' (PStr ''72h'')) (\<lambda>v. parse_duration (py_str v))) (\<lambda>obs.
     bindR (bindR (bindR (py_get raw ''retry_spacing'' (PList [PStr ''0h'', PStr ''72h'', PStr ''168h''])) as_list)
              (mapR (\<lambda>s. parse_duration (py_str s)))) (\<lambda>spacing.
     bindR (bindR (py_get raw ''max_schedule_window'' (PStr ''48h'')) (\<lambda>v. parse_duration (py_str v))) (\<lambda>window.
     SelfImposedPolicy obs spacing window)))"

definition load_decline :: "pyval \<Rightarrow> decline_rules result" where
  "load_decline raw =
     bindR (py_get raw ''default'' (PStr ''business'')) (\<lambda>dv.
     bindR (guardR (py_str dv = ''technical'' \<or> py_str dv = ''business'') ValueError) (\<lambda>_.
     bindR (bindR (bindR (py_get raw ''technical'' (PList [])) as_list) (mapR as_str)) (\<lambda>ts.
     bindR (bindR (bindR (py_get raw ''business'' (PList [])) as_list) (mapR as_str)) (\<lambda>bs.
     Inr \<lparr>technical = ts, business = bs, default_class = py_str dv\<rparr>))))"

definition default_rails :: pyval where
  "default_rails = PDict [(''upi'', PFloat (65 / 100)), (''card'', PFloat (70 / 100)), (''nach'', PFloat (75 / 100))]"

fun profile_key :: "profile_name \<Rightarrow> string" where
  "profile_key Prod = ''prod''"
| "profile_key Demo = ''demo''"

text \<open>The membership tests of the guard: \<^verbatim>\<open>key in value\<close>.\<close>

fun has_key :: "pyval \<Rightarrow> string \<Rightarrow> bool result" where
  "has_key (PDict d) k = Inr (dict_get d k \<noteq> None)"
| "has_key (PList xs) k = Inr (list_ex (\<lambda>v. case v of PStr s \<Rightarrow> s = k | _ \<Rightarrow> False) xs)"
| "has_key (PStr s) k = Inr (py_contains k s)"
| "has_key _ k = Inl TypeError"

definition load_config :: "profile_name \<Rightarrow> pyval \<Rightarrow> app_config result" where
  "load_config profile raw =
     bindR (guardR (truthy raw) ValueError) (\<lambda>_.
     bindR (bindR (has_key raw ''npci_rules'') (\<lambda>b. guardR b ValueError)) (\<lambda>_.
     bindR (bindR (has_key raw ''profiles'') (\<lambda>b. guardR b ValueError)) (\<lambda>_.
     bindR (py_item raw ''profiles'') (\<lambda>profiles.
     bindR (bindR (has_key profiles (profile_key profile)) (\<lambda>b. guardR b ValueError)) (\<lambda>_.
     bindR (bindR (py_item raw ''npci_rules'') load_npci) (\<lambda>rules.
     bindR (bindR (py_get raw ''self_imposed'' (PDict [])) load_self_imposed) (\<lambda>policy.
     bindR (bindR (bindR (py_item profiles (profile_key profile)) (\<lambda>p. py_item p ''time_scale''))
              (\<lambda>v. parse_time_scale (py_str v))) (\<lambda>scale.
     bindR (bindR (py_get raw ''decline_rules'' PNone) (\<lambda>d. load_decline (py_or d (PDict [])))) (\<lambda>dr.
     bindR (bindR (py_get raw ''rails'' PNone) (\<lambda>r. as_dict (py_or r default_rails))) (\<lambda>rd.
     bindR (mapR (\<lambda>(k, v). bindR (py_float v) (\<lambda>f. Inr (k, f))) rd) (\<lambda>rs.
     Inr \<lparr>npci = rules, self_imposed = policy, config_profile = profile, time_scale = scale,
          decline = dr, rails = rs\<rparr>)))))))))))"

section \<open>The shipped configuration\<close>

definition npci_rules_yaml :: pyval where
  "npci_rules_yaml = PDict
     [(''npci_rules'', PDict
        [(''max_retries'', PInt 3),
         (''notice_lead_time'', PStr ''24h''),
         (''peak_windows'', PList
            [PDict [(''start'', PStr ''10:00''), (''end'', PStr ''13:00'')],
             PDict [(''start'', PStr ''17:00''), (''end'', PStr ''21:30'')]]),
         (''afa_free_ceiling'', PDict
            [(''default'', PInt 1500000), (''insurance'', PInt 10000000),
             (''mutual_fund'', PInt 10000000), (''credit_card_bill'', PInt 10000000)])]),
      (''self_imposed'', PDict
        [(''control_observation_window'', PStr ''72h''),
         (''retry_spacing'', PList [PStr ''0h'', PStr ''72h'', PStr ''168h'']),
         (''max_schedule_window'', PStr ''48h'')]),
      (''profiles'', PDict
        [(''prod'', PDict [(''time_scale'', PStr ''1x'')]),
         (''demo'', PDict [(''time_scale'', PStr ''3600x'')])]),
      (''decline_rules'', PDict
        [(''technical'', PList
            [PStr ''bank_server_down'', PStr ''network_timeout'', PStr ''upi_timeout'',
             PStr ''issuer_unavailable'', PStr ''payment_authorization_failed'']),
         (''business'', PList
            [PStr ''insufficient_funds'', PStr ''blocked_account'', PStr ''invalid_mandate'',
             PStr ''payment_limit_exceeded'', PStr ''payment_failed'']),
         (''default'', PStr ''business'')]),
      (''rails'', PDict
        [(''upi'', PFloat (65 / 100)), (''card'', PFloat (70 / 100)), (''nach'', PFloat (75 / 100))])]"

definition shipped_config :: "profile_name \<Rightarrow> app_config" where
  "shipped_config profile =
     \<lparr>npci = \<lparr>max_retries = 3, notice_lead_time = hours 24,
        peak_windows = [\<lparr>window_start = mk_time 10 0, window_end = mk_time 13 0\<rparr>,
                        \<lparr>window_start = mk_time 17 0, window_end = mk_time 21 30\<rparr>],
        afa_free_ceiling = [(''default'', 1500000), (''insurance'', 10000000),
                            (''mutual_fund'', 10000000), (''credit_card_bill'', 10000000)]\<rparr>,
      self_imposed = \<lparr>control_observation_window = hours 72,
        retry_spacing = [hours 0, hours 72, hours 168], max_schedule_window = hours 48\<rparr>,
      config_profile = profile,
      time_scale = (case profile of Prod \<Rightarrow> 1 | Demo \<Rightarrow> 3600),
      decline = \<lparr>technical = [''bank_server_down'', ''network_timeout'', ''upi_timeout'',
                             ''issuer_unavailable'', ''payment_authorization_failed''],
                 business = [''insufficient_funds'', ''blocked_account'', ''invalid_mandate'',
                             ''payment_limit_exceeded'', ''payment_failed''],
                 default_class = ''business''\<rparr>,
      rails = [(''upi'', 65 / 100), (''card'', 70 / 100), (''nach'', 75 / 100)]\<rparr>"

lemma digit_run_values:
  "parse_suffixed (CHR ''h'') ''0h'' = Inr 0" "parse_suffixed (CHR ''h'') ''24h'' = Inr 24"
  "parse_suffixed (CHR ''h'') ''48h'' = Inr 48" "parse_suffixed (CHR ''h'') ''72h'' = Inr 72"
  "parse_suffixed (CHR ''h'') ''168h'' = Inr 168"
  "parse_suffixed (CHR ''x'') ''1x'' = Inr 1" "parse_suffixed (CHR ''x'') ''3600x'' = Inr 3600"
  by code_simp+

lemma clock_time_values:
  "parse_clock_time ''10:00'' = Inr (mk_time 10 0)" "parse_clock_time ''13:00'' = Inr (mk_time 13 0)"
  "parse_clock_time ''17:00'' = Inr (mk_time 17 0)" "parse_clock_time ''21:30'' = Inr (mk_time 21 30)"
  by code_simp+

section \<open>What the parsers accept\<close>

lemma undec_butlast_digits: "list_all is_digit (dec n)"
  by (simp add: list_all_iff dec_digits)

lemma py_strip_no_space:
  assumes "s \<noteq> []" and "\<not> is_space (hd s)" and "\<not> is_space (last s)"
  shows "py_strip s = s"
  using assms by (simp add: py_strip_def dropWhile_first_keeps hd_rev)

lemma not_space_units [simp]: "\<not> is_space (CHR ''h'')" "\<not> is_space (CHR ''x'')"
  by (simp_all add: is_space_def ord_of_def Let_def)

lemma parse_suffixed_dec:
  assumes "length (dec n) \<le> 4300" and "\<not> is_space u"
  shows "parse_suffixed u (dec n @ [u]) = Inr (int n)"
proof -
  have "is_digit (hd (dec n))" by (rule dec_digits [OF hd_in_set]) simp
  then have "py_strip (dec n @ [u]) = dec n @ [u]"
    using assms(2) by (simp add: py_strip_no_space is_space_not_digit)
  with assms(1) show ?thesis by (simp add: parse_suffixed_def Let_def undec_butlast_digits)
qed

lemma parse_suffixed_Inr:
  "parse_suffixed u s = Inr i \<longleftrightarrow>
     (\<exists>ds. py_strip s = ds @ [u] \<and> ds \<noteq> [] \<and> list_all is_digit ds \<and> length ds \<le> 4300 \<and> i = int (undec ds))"
proof (cases "py_strip s" rule: rev_cases)
  case Nil
  then show ?thesis by (simp add: parse_suffixed_def)
next
  case (snoc ds c)
  then show ?thesis by (auto simp: parse_suffixed_def Let_def)
qed

lemma parse_duration_nonneg: "parse_duration s = Inr d \<Longrightarrow> 0 \<le> d"
  by (auto simp: parse_duration_def bindR_eq_Inr parse_suffixed_Inr)

lemma parse_clock_time_whole: "parse_clock_time s = Inr t \<Longrightarrow> whole_minute t"
proof -
  assume h: "parse_clock_time s = Inr t"
  have dv: "digit_val x \<le> 9" if "is_digit x" for x
    using that unfolding is_digit_def digit_val_def by arith
  from h obtain a b d e where
    ok: "is_digit e" "10 * digit_val a + digit_val b < 24" "digit_val d < 6"
    and t: "t = mk_time (int (10 * digit_val a + digit_val b)) (int (10 * digit_val d + digit_val e))"
    by (auto split: list.splits if_splits)
  have "10 * digit_val d + digit_val e < 60" using ok(3) dv [OF ok(1)] by simp
  with ok(2) show ?thesis unfolding t by (intro whole_minute_mk_time) linarith+
qed

section \<open>What a loaded configuration guarantees\<close>

definition policy_ok :: "self_imposed_policy \<Rightarrow> bool" where
  "policy_ok p \<longleftrightarrow>
     0 \<le> control_observation_window p \<and> 0 \<le> max_schedule_window p
     \<and> (\<forall>d \<in> set (retry_spacing p). 0 \<le> d) \<and> (\<forall>d \<in> set (drop 1 (retry_spacing p)). hours 24 \<le> d)"

definition config_ok :: "app_config \<Rightarrow> bool" where
  "config_ok c \<longleftrightarrow>
     0 \<le> notice_lead_time (npci c)
     \<and> (\<forall>w \<in> set (peak_windows (npci c)). whole_minute (window_start w) \<and> whole_minute (window_end w))
     \<and> policy_ok (self_imposed c) \<and> 0 \<le> time_scale c
     \<and> default_class (decline c) \<in> {''technical'', ''business''}"

lemma mapR_Inr_set: "mapR f xs = Inr ys \<Longrightarrow> y \<in> set ys \<Longrightarrow> \<exists>x \<in> set xs. f x = Inr y"
  by (induction xs arbitrary: ys) (auto simp: bindR_eq_Inr)

lemma load_window_ok:
  "load_window w = Inr pw \<Longrightarrow> whole_minute (window_start pw) \<and> whole_minute (window_end pw)"
  by (auto simp: load_window_def bindR_eq_Inr simp del: parse_clock_time.simps dest: parse_clock_time_whole)

lemma load_npci_ok:
  assumes "load_npci raw = Inr r"
  shows "0 \<le> notice_lead_time r"
    and "w \<in> set (peak_windows r) \<Longrightarrow> whole_minute (window_start w) \<and> whole_minute (window_end w)"
proof -
  from assms have lead: "\<exists>s. parse_duration s = Inr (notice_lead_time r)"
    and "\<exists>ws0. mapR load_window ws0 = Inr (peak_windows r)"
    by (auto simp: load_npci_def bindR_eq_Inr)
  then obtain ws0 where ws: "mapR load_window ws0 = Inr (peak_windows r)" by blast
  from lead show "0 \<le> notice_lead_time r" by (auto dest: parse_duration_nonneg)
  show "w \<in> set (peak_windows r) \<Longrightarrow> whole_minute (window_start w) \<and> whole_minute (window_end w)"
    by (auto dest!: mapR_Inr_set [OF ws] dest: load_window_ok)
qed

lemma SelfImposedPolicy_Inr:
  "SelfImposedPolicy obs sp win = Inr p \<Longrightarrow> 0 \<le> obs \<Longrightarrow> 0 \<le> win \<Longrightarrow> policy_ok p"
  by (auto simp: SelfImposedPolicy_def policy_ok_def list_ex_iff not_less split: if_splits)

lemma load_self_imposed_ok: "load_self_imposed raw = Inr p \<Longrightarrow> policy_ok p"
  by (auto simp: load_self_imposed_def bindR_eq_Inr intro!: SelfImposedPolicy_Inr dest: parse_duration_nonneg)

lemma load_decline_ok: "load_decline raw = Inr r \<Longrightarrow> default_class r \<in> {''technical'', ''business''}"
  by (auto simp: load_decline_def bindR_eq_Inr)

lemma parse_time_scale_nonneg: "parse_time_scale s = Inr n \<Longrightarrow> 0 \<le> n"
  by (auto simp: parse_time_scale_def parse_suffixed_Inr)

lemma load_config_parts:
  assumes "load_config profile raw = Inr c"
  shows "\<exists>r. load_npci r = Inr (npci c)" and "\<exists>r. load_self_imposed r = Inr (self_imposed c)"
    and "\<exists>s. parse_time_scale s = Inr (time_scale c)" and "\<exists>r. load_decline r = Inr (decline c)"
    and "config_profile c = profile"
  using assms unfolding load_config_def bindR_eq_Inr by fastforce+

text \<open>
  C33. Whatever tree the YAML file holds, a configuration that \<^verbatim>\<open>load_config\<close> accepts has a
  non-negative notice lead time, peak windows whose bounds are whole minutes of a day, a retry
  spacing that is nowhere negative and at least 24 hours after the first gap, non-negative
  observation and scheduling windows, a non-negative time scale and a default decline class that is
  'technical' or 'business'.
\<close>

theorem load_config_ok:
  assumes "load_config profile raw = Inr c"
  shows "config_ok c \<and> config_profile c = profile"
proof -
  note parts = load_config_parts [OF assms]
  have "0 \<le> notice_lead_time (npci c)" using parts(1) load_npci_ok(1) by blast
  moreover have "\<forall>w \<in> set (peak_windows (npci c)). whole_minute (window_start w) \<and> whole_minute (window_end w)"
    using parts(1) load_npci_ok(2) by blast
  moreover have "policy_ok (self_imposed c)" using parts(2) load_self_imposed_ok by blast
  moreover have "0 \<le> time_scale c" using parts(3) parse_time_scale_nonneg by blast
  moreover have "default_class (decline c) \<in> {''technical'', ''business''}"
    using parts(4) load_decline_ok by blast
  ultimately show ?thesis using parts(5) by (simp add: config_ok_def)
qed

lemma load_shipped:
  "load_config profile npci_rules_yaml = Inr (shipped_config profile)"
  by (cases profile)
     (simp_all add: load_config_def load_npci_def load_self_imposed_def load_decline_def load_window_def
        npci_rules_yaml_def shipped_config_def parse_duration_def parse_time_scale_def
        digit_run_values clock_time_values SelfImposedPolicy_def py_or_def guardR_def
        del: parse_clock_time.simps)

theorem load_config_ok_witness:
  "load_config Prod npci_rules_yaml = Inr (shipped_config Prod)
   \<and> config_ok (shipped_config Prod) \<and> config_profile (shipped_config Prod) = Prod"
  using load_shipped [of Prod] load_config_ok [OF load_shipped [of Prod]] by simp

text \<open>
  Durations: \<^verbatim>\<open>parse_duration\<close> accepts exactly the texts that are, after stripping white space,
  one or more digits followed by \<^verbatim>\<open>h\<close>, and returns that many hours; every other text is a
  ValueError, and a duration written in decimal is read back.
\<close>

theorem parse_duration_spec:
  "(\<forall>d. parse_duration s = Inr d \<longleftrightarrow>
        (\<exists>ds. py_strip s = ds @ ''h'' \<and> ds \<noteq> [] \<and> list_all is_digit ds \<and> length ds \<le> 4300
              \<and> d = hours (int (undec ds))))
   \<and> (\<forall>e. parse_duration s = Inl e \<longrightarrow> e = ValueError)
   \<and> (length (dec n) \<le> 4300 \<longrightarrow> parse_duration (dec n @ ''h'') = Inr (hours (int n)))"
proof (intro conjI allI impI)
  show "parse_duration s = Inr d \<longleftrightarrow>
        (\<exists>ds. py_strip s = ds @ ''h'' \<and> ds \<noteq> [] \<and> list_all is_digit ds \<and> length ds \<le> 4300
              \<and> d = hours (int (undec ds)))" for d
    by (auto simp: parse_duration_def bindR_eq_Inr parse_suffixed_Inr)
  show "parse_duration s = Inl e \<Longrightarrow> e = ValueError" for e
    by (auto simp: parse_duration_def bindR_eq_Inl parse_suffixed_def Let_def split: if_splits)
  show "length (dec n) \<le> 4300 \<Longrightarrow> parse_duration (dec n @ ''h'') = Inr (hours (int n))"
    by (simp add: parse_duration_def parse_suffixed_dec)
qed

theorem parse_duration_spec_witness:
  "parse_duration '' 72h '' = Inr (hours 72) \<and> parse_duration (dec 72 @ ''h'') = Inr (hours (int 72))"
proof -
  have "length (dec 72) \<le> 4300" by code_simp
  moreover have "py_strip '' 72h '' = ''72'' @ ''h'' \<and> ''72'' \<noteq> [] \<and> list_all is_digit ''72''
      \<and> length ''72'' \<le> 4300 \<and> hours 72 = hours (int (undec ''72''))" by code_simp
  ultimately show ?thesis
    using parse_duration_spec [of "'' 72h ''" 72] by blast
qed

end
