(* ===== verification/Clock.thy ===== *)
theory Clock
  imports Config
begin

text \<open>
  \<^verbatim>\<open>app/core/clock.py\<close>: the real clock and the accelerated one.  The wall clock,
  \<^verbatim>\<open>datetime.now(timezone.utc)\<close>, is an input of every reading.  The locale \<open>clock_contract\<close> is what
  the state machine relies on; it is proved once for the two clocks.
\<close>

datatype clock = RealClock | AcceleratedClock (clock_scale: int) (clock_offset: timedelta)

definition mk_AcceleratedClock :: "int \<Rightarrow> clock result" where
  "mk_AcceleratedClock scale = (if scale < 1 then Inl ValueError else Inr (AcceleratedClock scale 0))"

fun clock_now :: "clock \<Rightarrow> datetime \<Rightarrow> datetime" where
  "clock_now RealClock wall = wall"
| "clock_now (AcceleratedClock scale offset) wall = wall + offset"

fun resolve_delay :: "clock \<Rightarrow> timedelta \<Rightarrow> timedelta result" where
  "resolve_delay RealClock real_delay = (if real_delay < 0 then Inl ValueError else Inr real_delay)"
| "resolve_delay (AcceleratedClock scale offset) real_delay =
     (if real_delay < 0 then Inl ValueError else Inr (divide_and_round real_delay scale))"

fun advance :: "clock \<Rightarrow> timedelta \<Rightarrow> clock result" where
  "advance RealClock delta = Inl RuntimeError"
| "advance (AcceleratedClock scale offset) delta = Inr (AcceleratedClock scale (offset + delta))"

text \<open>\<^verbatim>\<open>_wire_clock\<close> of \<^verbatim>\<open>app/main.py\<close>.\<close>

definition wire_clock :: "app_config \<Rightarrow> clock result" where
  "wire_clock cfg =
     (if config_profile cfg = Prod then Inr RealClock else mk_AcceleratedClock (time_scale cfg))"

fun valid_clock :: "clock \<Rightarrow> bool" where
  "valid_clock RealClock = True"
| "valid_clock (AcceleratedClock scale offset) = (1 \<le> scale)"

section \<open>The interface\<close>

locale clock_contract =
  fixes valid :: "'c \<Rightarrow> bool"
    and now :: "'c \<Rightarrow> datetime \<Rightarrow> datetime"
    and resolve :: "'c \<Rightarrow> timedelta \<Rightarrow> timedelta result"
    and adv :: "'c \<Rightarrow> timedelta \<Rightarrow> 'c result"
  assumes negative: "valid c \<Longrightarrow> d < 0 \<Longrightarrow> resolve c d = Inl ValueError"
    and resolved: "valid c \<Longrightarrow> 0 \<le> d \<Longrightarrow> \<exists>r. resolve c d = Inr r \<and> 0 \<le> r \<and> r \<le> d"
    and monotone: "valid c \<Longrightarrow> d \<le> d' \<Longrightarrow> resolve c d = Inr r \<Longrightarrow> resolve c d' = Inr r' \<Longrightarrow> r \<le> r'"
    and now_mono: "valid c \<Longrightarrow> wall \<le> wall' \<Longrightarrow> now c wall \<le> now c wall'"
    and advanced: "valid c \<Longrightarrow> adv c d = Inr c' \<Longrightarrow> valid c' \<and> now c' wall = now c wall + d"
    and advanced_delay: "valid c \<Longrightarrow> adv c d = Inr c' \<Longrightarrow> resolve c' = resolve c"
begin

lemma resolve_cases:
  "valid c \<Longrightarrow> resolve c d = Inl ValueError \<and> d < 0 \<or> (\<exists>r. resolve c d = Inr r \<and> 0 \<le> r \<and> r \<le> d)"
  using negative [of c d] resolved [of c d] by fastforce

lemma resolve_Inr_bounds: "valid c \<Longrightarrow> resolve c d = Inr r \<Longrightarrow> 0 \<le> r \<and> r \<le> d"
  using resolve_cases [of c d] by auto

lemma resolve_error: "valid c \<Longrightarrow> resolve c d = Inl e \<Longrightarrow> e = ValueError \<and> d < 0"
  using resolve_cases [of c d] by auto

lemma resolve_zero: "valid c \<Longrightarrow> resolve c 0 = Inr 0"
  using resolved [of c 0] by fastforce

end

lemma divide_and_round_mono:
  assumes "0 < b" and "a \<le> a'"
  shows "divide_and_round a b \<le> divide_and_round a' b"
proof (cases "a div b = a' div b")
  case True
  then have "a mod b \<le> a' mod b"
    using assms(2) by (simp add: minus_mult_div_eq_mod [symmetric])
  with True assms(1) show ?thesis by (auto simp: divide_and_round_def Let_def)
next
  case False
  have "a div b \<le> a' div b" using assms by (simp add: zdiv_mono1)
  with False have "a div b + 1 \<le> a' div b" by simp
  moreover have "divide_and_round a b \<le> a div b + 1" and "a' div b \<le> divide_and_round a' b"
    by (simp_all add: divide_and_round_def Let_def)
  ultimately show ?thesis by linarith
qed

interpretation clk: clock_contract valid_clock clock_now resolve_delay advance
proof unfold_locales
  show "valid_clock c \<Longrightarrow> d < 0 \<Longrightarrow> resolve_delay c d = Inl ValueError" for c d
    by (cases c) simp_all
  show "valid_clock c \<Longrightarrow> 0 \<le> d \<Longrightarrow> \<exists>r. resolve_delay c d = Inr r \<and> 0 \<le> r \<and> r \<le> d" for c d
    by (cases c) (simp_all add: divide_and_round_nonneg divide_and_round_le)
  show "valid_clock c \<Longrightarrow> d \<le> d' \<Longrightarrow> resolve_delay c d = Inr r \<Longrightarrow> resolve_delay c d' = Inr r' \<Longrightarrow> r \<le> r'"
    for c d d' r r'
    by (cases c) (auto simp: divide_and_round_mono split: if_splits)
  show "valid_clock c \<Longrightarrow> wall \<le> wall' \<Longrightarrow> clock_now c wall \<le> clock_now c wall'" for c wall wall'
    by (cases c) simp_all
  show "valid_clock c \<Longrightarrow> advance c d = Inr c' \<Longrightarrow> valid_clock c' \<and> clock_now c' wall = clock_now c wall + d"
    for c d c' wall
    by (cases c) auto
  show "valid_clock c \<Longrightarrow> advance c d = Inr c' \<Longrightarrow> resolve_delay c' = resolve_delay c" for c d c'
    by (cases c) (auto simp: fun_eq_iff)
qed

lemma wire_clock_valid: "wire_clock cfg = Inr c \<Longrightarrow> valid_clock c"
  by (auto simp: wire_clock_def mk_AcceleratedClock_def split: if_splits)

lemma wire_clock_shipped:
  "wire_clock (shipped_config Prod) = Inr RealClock"
  "wire_clock (shipped_config Demo) = Inr (AcceleratedClock 3600 0)"
  by (simp_all add: wire_clock_def shipped_config_def mk_AcceleratedClock_def)

text \<open>
  The clock that the configuration selects turns a delay into one between zero and that delay
  and keeps the order of delays, refuses a negative delay with a ValueError, and advancing it by
  \<open>d\<close> moves its reading by exactly \<open>d\<close> without changing how it resolves delays; the
  real clock cannot be advanced.
\<close>

theorem wired_clock_contract:
  assumes "wire_clock cfg = Inr c"
  shows "(\<forall>d < 0. resolve_delay c d = Inl ValueError)
       \<and> (\<forall>d \<ge> 0. \<exists>r. resolve_delay c d = Inr r \<and> 0 \<le> r \<and> r \<le> d)
       \<and> (\<forall>d d' r r'. d \<le> d' \<longrightarrow> resolve_delay c d = Inr r \<longrightarrow> resolve_delay c d' = Inr r' \<longrightarrow> r \<le> r')
       \<and> (\<forall>d c'. advance c d = Inr c' \<longrightarrow>
            (\<forall>wall. clock_now c' wall = clock_now c wall + d) \<and> resolve_delay c' = resolve_delay c)
       \<and> (config_profile cfg = Prod \<longrightarrow> (\<forall>d. advance c d = Inl RuntimeError))"
proof -
  from assms have v: "valid_clock c" by (rule wire_clock_valid)
  have "config_profile cfg = Prod \<Longrightarrow> c = RealClock"
    using assms by (simp add: wire_clock_def)
  then show ?thesis
    using clk.negative [OF v] clk.resolved [OF v] clk.monotone [OF v] clk.advanced [OF v]
      clk.advanced_delay [OF v] by auto
qed

theorem wired_clock_contract_witness:
  "wire_clock (shipped_config Demo) = Inr (AcceleratedClock 3600 0)
   \<and> (\<exists>r. resolve_delay (AcceleratedClock 3600 0) (hours 72) = Inr r \<and> 0 \<le> r \<and> r \<le> hours 72)"
proof -
  have "0 \<le> hours 72" by simp
  with wired_clock_contract [OF wire_clock_shipped(2)] wire_clock_shipped(2) show ?thesis by blast
qed

end
