(* ===== verification/Scheduling.thy ===== *)
theory Scheduling
  imports Clock
begin

text \<open>
  The scheduling half of \<^verbatim>\<open>app/core/state_machine.py\<close>: the peak-hour shift, the legal candidate
  slots, the salary-window scan and \<^verbatim>\<open>_compute_scheduled_at\<close>.
\<close>

definition rule_version_const :: int where "rule_version_const = 2"
definition salary_start_day :: int where "salary_start_day = 1"
definition salary_end_day :: int where "salary_end_day = 7"

section \<open>Peak windows\<close>

definition in_window :: "peak_window \<Rightarrow> datetime \<Rightarrow> bool" where
  "in_window w t \<longleftrightarrow>
     (let current_time = time_of (astimezone_ist t)
      in window_start w \<le> current_time \<and> current_time < window_end w)"

fun avoid_peak_loop :: "datetime \<Rightarrow> peak_window list \<Rightarrow> datetime" where
  "avoid_peak_loop t [] = t"
| "avoid_peak_loop t (w # ws) =
     (if in_window w t
      then astimezone_utc (replace_time (astimezone_ist t) (time_hour (window_end w)) (time_minute (window_end w)))
      else avoid_peak_loop t ws)"

definition avoid_peak_windows :: "app_config \<Rightarrow> datetime \<Rightarrow> datetime" where
  "avoid_peak_windows cfg t = avoid_peak_loop t (peak_windows (npci cfg))"

section \<open>Candidate slots\<close>

fun candidates_loop ::
  "app_config \<Rightarrow> clock \<Rightarrow> datetime \<Rightarrow> datetime \<Rightarrow> int list \<Rightarrow> datetime list \<Rightarrow> datetime list result" where
  "candidates_loop cfg clk fl latest [] acc = Inr acc"
| "candidates_loop cfg clk fl latest (h # hs) acc =
     bindR (resolve_delay clk (hours h)) (\<lambda>d.
       let candidate = fl + d
       in if candidate \<le> latest
          then let candidate = avoid_peak_windows cfg candidate
               in if candidate \<le> latest
                  then candidates_loop cfg clk fl latest hs (acc @ [candidate])
                  else candidates_loop cfg clk fl latest hs acc
          else candidates_loop cfg clk fl latest hs acc)"

definition generate_legal_candidates ::
  "app_config \<Rightarrow> clock \<Rightarrow> datetime \<Rightarrow> datetime \<Rightarrow> datetime list result" where
  "generate_legal_candidates cfg clk fl latest =
     bindR (candidates_loop cfg clk fl latest [0, 12, 24, 48, 72] []) (\<lambda>candidates.
       Inr (if candidates = [] then [avoid_peak_windows cfg fl] else candidates))"

section \<open>Salary window\<close>

function salary_loop :: "datetime \<Rightarrow> datetime \<Rightarrow> datetime option" where
  "salary_loop cursor window_end_at =
     (if cursor \<le> window_end_at
      then if salary_start_day \<le> dt_day cursor \<and> dt_day cursor \<le> salary_end_day
           then Some cursor
           else salary_loop (cursor + usec_per_day) window_end_at
      else None)"
  by pat_completeness auto
termination
  by (relation "measure (\<lambda>(cursor, window_end_at). nat (window_end_at + 1 - cursor))")
     (auto simp: usec_per_day_def)

declare salary_loop.simps [simp del]

definition first_salary_window_day :: "datetime \<Rightarrow> datetime \<Rightarrow> datetime option" where
  "first_salary_window_day window_start_at window_end_at =
     (if window_end_at < window_start_at then None else salary_loop window_start_at window_end_at)"

section \<open>Choosing the instant of a retry\<close>

text \<open>
  The receipt's texts.  The en dash of the salary-window text is written as its UTF-8 bytes.
\<close>

definition attempt_text :: "int \<Rightarrow> string" where
  "attempt_text used = ''Retry attempt '' @ py_str_int (used + 1) @ '': ''"

definition config_version_text :: string where
  "config_version_text = ''config v'' @ py_str_int rule_version_const"

definition bandit_text :: "int \<Rightarrow> datetime \<Rightarrow> datetime \<Rightarrow> datetime \<Rightarrow> string \<Rightarrow> string" where
  "bandit_text used sched fl latest note =
     attempt_text used @ ''bandit selected '' @ isoformat sched @ '' among legal slots (floor='' @ isoformat fl
     @ '', latest='' @ isoformat latest @ ''). Constraint: '' @ note @ '' ('' @ config_version_text @ '').''"

definition salary_text :: "int \<Rightarrow> datetime \<Rightarrow> string \<Rightarrow> string" where
  "salary_text used day note =
     attempt_text used @ ''insufficient_funds bias applied '' @ [CHR 0xE2, CHR 0x80, CHR 0x94]
     @ '' targeting '' @ iso_date day @ '' (day-'' @ py_str_int salary_start_day
     @ [CHR 0xE2, CHR 0x80, CHR 0x93] @ py_str_int salary_end_day @ '' salary window), no earlier than the ''
     @ note @ '' floor ('' @ config_version_text @ '').''"

definition floor_text :: "int \<Rightarrow> string \<Rightarrow> string" where
  "floor_text used note =
     attempt_text used @ ''scheduled at the '' @ note @ '' floor ('' @ config_version_text @ '').''"

definition peak_text :: string where
  "peak_text = '' Peak-hour blackout applied.''"

text \<open>
  \<^verbatim>\<open>_compute_scheduled_at\<close>.  \<open>now\<close> is its reading of the clock; the bandit is the function behind
  \<^verbatim>\<open>bandit.suggest_from\<close>, if one is passed.
\<close>

type_synonym chooser = "datetime list \<Rightarrow> datetime result"

definition floor_parts ::
  "app_config \<Rightarrow> int \<Rightarrow> datetime \<Rightarrow> datetime option \<Rightarrow> (datetime \<times> string) result" where
  "floor_parts cfg used now prev_executed =
     bindR (py_nth (retry_spacing (self_imposed cfg))
              (min used (int (length (retry_spacing (self_imposed cfg))) - 1))) (\<lambda>spacing_delay.
       let by_notice = now + notice_lead_time (npci cfg);
           by_spacing = (case prev_executed of Some p \<Rightarrow> p + spacing_delay | None \<Rightarrow> now + spacing_delay)
       in Inr (max by_notice by_spacing, if by_notice \<ge> by_spacing then ''notice lead'' else ''NPCI spacing floor''))"

definition fallback_schedule ::
  "app_config \<Rightarrow> clock \<Rightarrow> int \<Rightarrow> string option \<Rightarrow> datetime \<Rightarrow> datetime \<Rightarrow> datetime \<Rightarrow> string
   \<Rightarrow> (datetime \<times> string) result" where
  "fallback_schedule cfg clk used rcode now fl latest note =
     (case (if rcode = Some ''insufficient_funds'' then first_salary_window_day fl latest else None) of
        Some salary_day \<Rightarrow>
          bindR (resolve_delay clk (salary_day - now)) (\<lambda>d.
            Inr (avoid_peak_windows cfg (now + d), salary_text used salary_day note @ peak_text))
      | None \<Rightarrow>
          bindR (resolve_delay clk (fl - now)) (\<lambda>d.
            let sched = avoid_peak_windows cfg (now + d)
            in Inr (sched, floor_text used note @ (if sched \<noteq> now + d then peak_text else []))))"

definition compute_scheduled_at ::
  "app_config \<Rightarrow> clock \<Rightarrow> int \<Rightarrow> string option \<Rightarrow> datetime \<Rightarrow> datetime option \<Rightarrow> chooser option
   \<Rightarrow> (datetime \<times> string) result" where
  "compute_scheduled_at cfg clk used rcode now prev_executed bandit =
     bindR (floor_parts cfg used now prev_executed) (\<lambda>(fl, note).
       let latest = fl + max_schedule_window (self_imposed cfg)
       in bindR (generate_legal_candidates cfg clk fl latest) (\<lambda>candidates.
            case (if candidates \<noteq> [] then bandit else None) of
              Some pick \<Rightarrow>
                bindR (pick candidates) (\<lambda>selected.
                bindR (guardR (selected \<in> set candidates) AssertionError) (\<lambda>_.
                  Inr (selected, bandit_text used selected fl latest note)))
            | None \<Rightarrow> fallback_schedule cfg clk used rcode now fl latest note))"

section \<open>The shift leaves the blackout\<close>

text \<open>
  Windows are separated when the end of one never lies inside another; the shipped windows are.
\<close>

definition windows_separated :: "peak_window list \<Rightarrow> bool" where
  "windows_separated ws \<longleftrightarrow>
     (\<forall>v \<in> set ws. \<forall>w \<in> set ws. \<not> (window_start w \<le> window_end v \<and> window_end v < window_end w))"

definition windows_whole :: "peak_window list \<Rightarrow> bool" where
  "windows_whole ws \<longleftrightarrow> (\<forall>w \<in> set ws. whole_minute (window_end w))"

definition in_blackout :: "app_config \<Rightarrow> datetime \<Rightarrow> bool" where
  "in_blackout cfg t \<longleftrightarrow> (\<exists>w \<in> set (peak_windows (npci cfg)). in_window w t)"

lemma shift_to_end:
  assumes "whole_minute (window_end w)" and "in_window w t"
  defines "t' \<equiv> astimezone_utc (replace_time (astimezone_ist t) (time_hour (window_end w)) (time_minute (window_end w)))"
  shows "time_of (astimezone_ist t') = window_end w" and "t < t'" and "t' < t + usec_per_day"
    and "t' - t \<le> window_end w - window_start w"
proof -
  have t': "astimezone_ist t' = astimezone_ist t - time_of (astimezone_ist t) + window_end w"
    by (simp add: t'_def astimezone_utc_def astimezone_ist_def replace_time_eq [OF assms(1)])
  have bounds: "0 \<le> window_end w" "window_end w < usec_per_day"
    using assms(1) by (simp_all add: whole_minute_def)
  show "time_of (astimezone_ist t') = window_end w"
    unfolding t' by (rule time_of_whole_day [OF bounds])
  have diff: "t' - t = window_end w - time_of (astimezone_ist t)"
    using t' by (simp add: astimezone_ist_def)
  have inside: "window_start w \<le> time_of (astimezone_ist t)" "time_of (astimezone_ist t) < window_end w"
    using assms(2) by (simp_all add: in_window_def Let_def)
  show "t < t'" using diff inside by linarith
  show "t' < t + usec_per_day" using diff bounds time_of_bounds(1) [of "astimezone_ist t"] by linarith
  show "t' - t \<le> window_end w - window_start w" using diff inside by linarith
qed

lemma avoid_peak_loop_cases:
  "(\<forall>w \<in> set ws. \<not> in_window w t) \<and> avoid_peak_loop t ws = t
   \<or> (\<exists>w \<in> set ws. in_window w t \<and> avoid_peak_loop t ws =
        astimezone_utc (replace_time (astimezone_ist t) (time_hour (window_end w)) (time_minute (window_end w))))"
  by (induction ws) auto

lemma avoid_peak_cases:
  "\<not> in_blackout cfg t \<and> avoid_peak_windows cfg t = t
   \<or> (\<exists>w \<in> set (peak_windows (npci cfg)). in_window w t \<and> avoid_peak_windows cfg t =
        astimezone_utc (replace_time (astimezone_ist t) (time_hour (window_end w)) (time_minute (window_end w))))"
  using avoid_peak_loop_cases [of "peak_windows (npci cfg)" t]
  by (auto simp: avoid_peak_windows_def in_blackout_def)

lemma avoid_peak_ge:
  "windows_whole (peak_windows (npci cfg)) \<Longrightarrow> t \<le> avoid_peak_windows cfg t"
  using avoid_peak_cases [of cfg t] shift_to_end(2) by (force simp: windows_whole_def)

lemma avoid_peak_lt_day:
  "windows_whole (peak_windows (npci cfg)) \<Longrightarrow> avoid_peak_windows cfg t < t + usec_per_day"
  using avoid_peak_cases [of cfg t] shift_to_end(3) by (force simp: windows_whole_def)

lemma avoid_peak_not_blackout:
  assumes "windows_whole (peak_windows (npci cfg))" and "windows_separated (peak_windows (npci cfg))"
  shows "\<not> in_blackout cfg (avoid_peak_windows cfg t)"
proof -
  from avoid_peak_cases [of cfg t] show ?thesis
  proof
    assume "\<not> in_blackout cfg t \<and> avoid_peak_windows cfg t = t"
    then show ?thesis by simp
  next
    assume "\<exists>w \<in> set (peak_windows (npci cfg)). in_window w t \<and> avoid_peak_windows cfg t =
        astimezone_utc (replace_time (astimezone_ist t) (time_hour (window_end w)) (time_minute (window_end w)))"
    then obtain w where w: "w \<in> set (peak_windows (npci cfg))" "in_window w t"
      and moved: "avoid_peak_windows cfg t =
        astimezone_utc (replace_time (astimezone_ist t) (time_hour (window_end w)) (time_minute (window_end w)))"
      by blast
    with assms(1) have "time_of (astimezone_ist (avoid_peak_windows cfg t)) = window_end w"
      by (simp add: moved shift_to_end(1) windows_whole_def)
    with assms(2) w(1) show ?thesis
      by (auto simp: in_blackout_def in_window_def Let_def windows_separated_def)
  qed
qed

lemma shipped_windows:
  "windows_whole (peak_windows (npci (shipped_config p)))"
  "windows_separated (peak_windows (npci (shipped_config p)))"
  by (simp_all add: windows_whole_def windows_separated_def shipped_config_def whole_minute_mk_time)
     (simp add: mk_time_def usec_defs)

text \<open>
  With peak windows on whole minutes, none of which ends inside another, the peak-hour shift
  returns an instant outside every window, never moves an instant backwards and never by a day or
  more, and leaves an instant outside the windows alone; so shifting twice is shifting once.
\<close>

theorem avoid_peak_windows_correct:
  assumes "windows_whole (peak_windows (npci cfg))" and "windows_separated (peak_windows (npci cfg))"
  shows "\<not> in_blackout cfg (avoid_peak_windows cfg t)
       \<and> t \<le> avoid_peak_windows cfg t \<and> avoid_peak_windows cfg t < t + usec_per_day
       \<and> (\<not> in_blackout cfg t \<longrightarrow> avoid_peak_windows cfg t = t)
       \<and> avoid_peak_windows cfg (avoid_peak_windows cfg t) = avoid_peak_windows cfg t"
proof -
  have id: "\<not> in_blackout cfg u \<Longrightarrow> avoid_peak_windows cfg u = u" for u
    using avoid_peak_cases [of cfg u] by (auto simp: in_blackout_def)
  show ?thesis
    using avoid_peak_not_blackout [OF assms, of t] avoid_peak_ge [OF assms(1), of t]
      avoid_peak_lt_day [OF assms(1), of t] id by simp
qed

theorem avoid_peak_windows_correct_witness:
  "\<not> in_blackout (shipped_config Prod) (avoid_peak_windows (shipped_config Prod) (hours 6))
   \<and> in_blackout (shipped_config Prod) (hours 6)
   \<and> avoid_peak_windows (shipped_config Prod) (hours 6) = hours 6 + mk_time 1 30"
proof -
  have "in_blackout (shipped_config Prod) (hours 6)" by code_simp
  moreover have "avoid_peak_windows (shipped_config Prod) (hours 6) = hours 6 + mk_time 1 30" by code_simp
  ultimately show ?thesis using avoid_peak_windows_correct [OF shipped_windows, of Prod "hours 6"] by blast
qed

section \<open>The candidates are legal\<close>

definition schedule_ready :: "app_config \<Rightarrow> bool" where
  "schedule_ready cfg \<longleftrightarrow>
     windows_whole (peak_windows (npci cfg)) \<and> windows_separated (peak_windows (npci cfg))
     \<and> 0 \<le> notice_lead_time (npci cfg) \<and> retry_spacing (self_imposed cfg) \<noteq> []
     \<and> (\<forall>d \<in> set (retry_spacing (self_imposed cfg)). 0 \<le> d)
     \<and> 0 \<le> max_schedule_window (self_imposed cfg)"

lemma schedule_ready_windows:
  "schedule_ready cfg \<Longrightarrow> windows_whole (peak_windows (npci cfg))"
  "schedule_ready cfg \<Longrightarrow> windows_separated (peak_windows (npci cfg))"
  by (simp_all add: schedule_ready_def)

lemma shipped_schedule_ready: "schedule_ready (shipped_config p)"
  by (simp add: schedule_ready_def shipped_windows) (simp add: shipped_config_def)

definition slot_ok :: "app_config \<Rightarrow> datetime \<Rightarrow> datetime \<Rightarrow> bool" where
  "slot_ok cfg fl t \<longleftrightarrow> fl \<le> t \<and> \<not> in_blackout cfg t"

lemma shifted_slot_ok: "schedule_ready cfg \<Longrightarrow> fl \<le> t \<Longrightarrow> slot_ok cfg fl (avoid_peak_windows cfg t)"
  using avoid_peak_ge [of cfg t] avoid_peak_not_blackout [of cfg t]
  by (force simp: slot_ok_def schedule_ready_windows)

lemma candidates_loop_legal:
  assumes "schedule_ready cfg" and "valid_clock clk" and "\<forall>h \<in> set hs. 0 \<le> h"
    and "\<forall>t \<in> set acc. slot_ok cfg fl t \<and> t \<le> latest"
  shows "\<exists>cs. candidates_loop cfg clk fl latest hs acc = Inr cs
           \<and> set acc \<subseteq> set cs \<and> (\<forall>t \<in> set cs. slot_ok cfg fl t \<and> t \<le> latest)"
  using assms(3,4)
proof (induction hs arbitrary: acc)
  case Nil
  then show ?case by simp
next
  case (Cons h hs)
  from Cons.prems have "0 \<le> hours h" by simp
  with clk.resolved [OF assms(2)] obtain d where d: "resolve_delay clk (hours h) = Inr d" "0 \<le> d"
    by blast
  let ?c = "avoid_peak_windows cfg (fl + d)"
  show ?case
  proof (cases "fl + d \<le> latest \<and> ?c \<le> latest")
    case True
    then have step: "candidates_loop cfg clk fl latest (h # hs) acc = candidates_loop cfg clk fl latest hs (acc @ [?c])"
      using d by (simp add: Let_def)
    have "\<forall>t \<in> set (acc @ [?c]). slot_ok cfg fl t \<and> t \<le> latest"
      using Cons.prems(2) True shifted_slot_ok [OF assms(1), of fl "fl + d"] d(2) by simp
    with Cons.IH [of "acc @ [?c]"] Cons.prems(1) obtain cs where
      "candidates_loop cfg clk fl latest hs (acc @ [?c]) = Inr cs" "set (acc @ [?c]) \<subseteq> set cs"
      "\<forall>t \<in> set cs. slot_ok cfg fl t \<and> t \<le> latest" by auto
    with step show ?thesis by simp
  next
    case False
    then have "candidates_loop cfg clk fl latest (h # hs) acc = candidates_loop cfg clk fl latest hs acc"
      using d by (auto simp: Let_def)
    with Cons show ?thesis by simp
  qed
qed

lemma candidates_loop_first:
  assumes "schedule_ready cfg" and "valid_clock clk" and "\<forall>h \<in> set hs. 0 \<le> h"
    and "avoid_peak_windows cfg fl \<le> latest"
  shows "\<exists>cs. candidates_loop cfg clk fl latest (0 # hs) [] = Inr cs \<and> avoid_peak_windows cfg fl \<in> set cs"
proof -
  have "fl \<le> avoid_peak_windows cfg fl" using assms(1) by (simp add: avoid_peak_ge schedule_ready_windows)
  then have "candidates_loop cfg clk fl latest (0 # hs) [] = candidates_loop cfg clk fl latest hs [avoid_peak_windows cfg fl]"
    using assms(4) by (simp add: hours_def clk.resolve_zero [OF assms(2)])
  moreover have "\<forall>t \<in> set [avoid_peak_windows cfg fl]. slot_ok cfg fl t \<and> t \<le> latest"
    using assms(1,4) by (simp add: shifted_slot_ok)
  ultimately show ?thesis
    using candidates_loop_legal [OF assms(1,2,3), of "[avoid_peak_windows cfg fl]" fl latest] by auto
qed

lemma generate_legal:
  assumes "schedule_ready cfg" and "valid_clock clk"
  shows "\<exists>cs. generate_legal_candidates cfg clk fl latest = Inr cs \<and> cs \<noteq> []
           \<and> (\<forall>t \<in> set cs. slot_ok cfg fl t \<and> t \<le> max latest (avoid_peak_windows cfg fl))
           \<and> (avoid_peak_windows cfg fl \<le> latest \<longrightarrow> avoid_peak_windows cfg fl \<in> set cs)"
proof -
  have hs: "\<forall>h \<in> set [0, 12, 24, 48, 72 :: int]. 0 \<le> h" by simp
  from candidates_loop_legal [OF assms hs, of "[]" fl latest] obtain cs where
    cs: "candidates_loop cfg clk fl latest [0, 12, 24, 48, 72] [] = Inr cs"
      "\<forall>t \<in> set cs. slot_ok cfg fl t \<and> t \<le> latest" by auto
  have first: "avoid_peak_windows cfg fl \<le> latest \<Longrightarrow> avoid_peak_windows cfg fl \<in> set cs"
    using candidates_loop_first [OF assms, of "[12, 24, 48, 72]" fl latest] cs(1) by auto
  show ?thesis
    using cs first shifted_slot_ok [OF assms(1), of fl fl]
    by (auto simp: generate_legal_candidates_def le_max_iff_disj)
qed

text \<open>
  The candidate generator always returns at least one slot, whichever valid clock scales its
  offsets, and every slot it returns is at or after the floor, outside every peak window, and no later
  than the latest allowed instant, except when the floor's own peak window ends after that instant:
  then the end of that window is the bound.
\<close>

theorem generate_legal_candidates_correct:
  assumes "schedule_ready cfg" and "valid_clock clk"
  shows "\<exists>cs. generate_legal_candidates cfg clk fl latest = Inr cs \<and> cs \<noteq> []
           \<and> (\<forall>t \<in> set cs. fl \<le> t \<and> \<not> in_blackout cfg t
                 \<and> t \<le> max latest (avoid_peak_windows cfg fl))"
  using generate_legal [OF assms, of fl latest] by (auto simp: slot_ok_def)

theorem generate_legal_candidates_correct_witness:
  "\<exists>cs. generate_legal_candidates (shipped_config Prod) RealClock 0 (hours 48) = Inr cs \<and> cs \<noteq> []
     \<and> (\<forall>t \<in> set cs. 0 \<le> t \<and> \<not> in_blackout (shipped_config Prod) t
          \<and> t \<le> max (hours 48) (avoid_peak_windows (shipped_config Prod) 0))"
  using generate_legal_candidates_correct [OF shipped_schedule_ready, of RealClock Prod 0 "hours 48"]
  by simp

section \<open>The salary window\<close>

definition salary_day :: "datetime \<Rightarrow> bool" where
  "salary_day t \<longleftrightarrow> 1 \<le> dt_day t \<and> dt_day t \<le> 7"

lemma salary_loop_spec:
  "case salary_loop cursor last_at of
     Some d \<Rightarrow> (\<exists>k. d = cursor + int k * usec_per_day \<and> d \<le> last_at \<and> salary_day d
                  \<and> (\<forall>j < k. \<not> salary_day (cursor + int j * usec_per_day)))
   | None \<Rightarrow> (\<forall>k. cursor + int k * usec_per_day \<le> last_at \<longrightarrow> \<not> salary_day (cursor + int k * usec_per_day))"
proof (induction cursor last_at rule: salary_loop.induct)
  case (1 cursor last_at)
  have day: "salary_start_day \<le> dt_day t \<and> dt_day t \<le> salary_end_day \<longleftrightarrow> salary_day t" for t
    by (simp add: salary_day_def salary_start_day_def salary_end_day_def)
  have step: "cursor + usec_per_day + int k * usec_per_day = cursor + int (Suc k) * usec_per_day" for k
    by (simp add: algebra_simps)
  consider "last_at < cursor" | "cursor \<le> last_at" "salary_day cursor" | "cursor \<le> last_at" "\<not> salary_day cursor"
    by linarith
  then show ?case
  proof cases
    case 1
    have "\<not> cursor + int k * usec_per_day \<le> last_at" for k
    proof -
      have "0 \<le> int k * usec_per_day" by (simp add: usec_per_day_def)
      with \<open>last_at < cursor\<close> show ?thesis by linarith
    qed
    with 1 show ?thesis by (simp add: salary_loop.simps [of cursor last_at])
  next
    case 2
    then have "salary_loop cursor last_at = Some cursor"
      by (simp add: salary_loop.simps [of cursor last_at] day)
    with 2 show ?thesis by (auto intro!: exI [of _ 0])
  next
    case 3
    then have rec: "salary_loop cursor last_at = salary_loop (cursor + usec_per_day) last_at"
      by (simp add: salary_loop.simps [of cursor last_at] day)
    from 3 have IH: "case salary_loop (cursor + usec_per_day) last_at of
       Some d \<Rightarrow> (\<exists>k. d = cursor + int (Suc k) * usec_per_day \<and> d \<le> last_at \<and> salary_day d
                    \<and> (\<forall>j < k. \<not> salary_day (cursor + int (Suc j) * usec_per_day)))
     | None \<Rightarrow> (\<forall>k. cursor + int (Suc k) * usec_per_day \<le> last_at \<longrightarrow> \<not> salary_day (cursor + int (Suc k) * usec_per_day))"
      using "1.IH" by (simp only: day step simp_thms)
    show ?thesis
    proof (cases "salary_loop (cursor + usec_per_day) last_at")
      case None
      have "\<not> salary_day (cursor + int k * usec_per_day)" if "cursor + int k * usec_per_day \<le> last_at" for k
        using IH None that 3(2) by (cases k) auto
      with None rec show ?thesis by simp
    next
      case (Some d)
      with IH obtain k where k: "d = cursor + int (Suc k) * usec_per_day" "d \<le> last_at" "salary_day d"
        "\<forall>j < k. \<not> salary_day (cursor + int (Suc j) * usec_per_day)" by auto
      have "\<forall>j < Suc k. \<not> salary_day (cursor + int j * usec_per_day)"
        using k(4) 3(2) by (auto simp: less_Suc_eq_0_disj)
      with k(1-3) have "d = cursor + int (Suc k) * usec_per_day \<and> d \<le> last_at \<and> salary_day d
          \<and> (\<forall>j < Suc k. \<not> salary_day (cursor + int j * usec_per_day))" by blast
      then have "\<exists>k. d = cursor + int k * usec_per_day \<and> d \<le> last_at \<and> salary_day d
          \<and> (\<forall>j < k. \<not> salary_day (cursor + int j * usec_per_day))" by blast
      then show ?thesis by (simp only: rec Some option.case)
    qed
  qed
qed

text \<open>
  The salary-window scan always ends, and it returns the first instant among the window start, one
  day later, two days later and so on, up to the window end, that falls on the 1st to the 7th of a
  month; it returns nothing exactly when there is no such instant.
\<close>

theorem first_salary_window_day_correct:
  "first_salary_window_day a b = Some d \<longleftrightarrow>
     (\<exists>k. d = a + int k * usec_per_day \<and> d \<le> b \<and> 1 \<le> dt_day d \<and> dt_day d \<le> 7
        \<and> (\<forall>j < k. \<not> (1 \<le> dt_day (a + int j * usec_per_day) \<and> dt_day (a + int j * usec_per_day) \<le> 7)))"
proof -
  have later: "a \<le> a + int k * usec_per_day" for k by (simp add: usec_per_day_def)
  have first: "first_salary_window_day a b = salary_loop a b"
    by (simp add: first_salary_window_day_def salary_loop.simps [of a b])
  note spec = salary_loop_spec [of a b, folded first]
  show ?thesis (is "_ \<longleftrightarrow> (\<exists>k. ?P k d)")
  proof
    assume "first_salary_window_day a b = Some d"
    with spec show "\<exists>k. ?P k d" by (simp add: salary_day_def)
  next
    assume "\<exists>k. ?P k d"
    then obtain k where k: "?P k d" by blast
    then obtain d' where d': "first_salary_window_day a b = Some d'"
      using spec by (cases "first_salary_window_day a b") (auto simp: salary_day_def)
    with spec obtain k' where k': "?P k' d'" by (auto simp: salary_day_def)
    have "k' = k"
      using k k' by (metis linorder_neqE_nat)
    with k k' d' show "first_salary_window_day a b = Some d" by simp
  qed
qed

theorem first_salary_window_day_correct_witness:
  "first_salary_window_day (- hours 24) (hours 24) = Some 0"
proof -
  have days: "dt_day (- hours 24) = 31" "dt_day 0 = 1" by code_simp+
  have "0 = - hours 24 + int 1 * usec_per_day \<and> 0 \<le> hours 24 \<and> 1 \<le> dt_day 0 \<and> dt_day 0 \<le> 7
      \<and> (\<forall>j < 1. \<not> (1 \<le> dt_day (- hours 24 + int j * usec_per_day) \<and> dt_day (- hours 24 + int j * usec_per_day) \<le> 7))"
    by (simp add: hours_24 days [unfolded hours_24]) (simp add: usec_per_day_def)
  then show ?thesis
    using first_salary_window_day_correct [of "- hours 24" "hours 24" 0] by blast
qed

section \<open>The chosen instant\<close>

definition spacing_for :: "app_config \<Rightarrow> int \<Rightarrow> timedelta" where
  "spacing_for cfg used =
     (let sp = retry_spacing (self_imposed cfg) in sp ! nat (min used (int (length sp) - 1)))"

definition schedule_floor :: "app_config \<Rightarrow> int \<Rightarrow> datetime \<Rightarrow> datetime option \<Rightarrow> datetime" where
  "schedule_floor cfg used now prev_executed =
     max (now + notice_lead_time (npci cfg))
       ((case prev_executed of Some p \<Rightarrow> p | None \<Rightarrow> now) + spacing_for cfg used)"

definition chooser_ok :: "chooser option \<Rightarrow> bool" where
  "chooser_ok bandit \<longleftrightarrow>
     (\<forall>pick cs. bandit = Some pick \<and> cs \<noteq> [] \<longrightarrow> (\<exists>c. pick cs = Inr c \<and> c \<in> set cs))"

lemma floor_parts_eq:
  assumes "schedule_ready cfg" and "0 \<le> used"
  shows "\<exists>note. floor_parts cfg used now prev = Inr (schedule_floor cfg used now prev, note)"
proof -
  have ne: "retry_spacing (self_imposed cfg) \<noteq> []" using assms(1) by (simp add: schedule_ready_def)
  show ?thesis
    using py_nth_clamped [OF ne assms(2)]
    by (cases prev) (simp_all add: floor_parts_def schedule_floor_def spacing_for_def Let_def)
qed

lemma schedule_floor_ge:
  "schedule_ready cfg \<Longrightarrow> now + notice_lead_time (npci cfg) \<le> schedule_floor cfg used now prev"
  "schedule_ready cfg \<Longrightarrow> now \<le> schedule_floor cfg used now prev"
  by (simp_all add: schedule_floor_def schedule_ready_def le_max_iff_disj)

lemma salary_day_bounds:
  "first_salary_window_day a b = Some d \<Longrightarrow> a \<le> d \<and> d \<le> b"
  using salary_loop_spec [of a b] 
  by (auto simp: first_salary_window_day_def usec_per_day_def split: if_splits option.splits)

lemma attempt_text_nonempty [simp]: "attempt_text used \<noteq> []"
  by (simp add: attempt_text_def)

lemma receipt_texts_nonempty [simp]:
  "bandit_text used t fl latest note \<noteq> []" "salary_text used t note \<noteq> []" "floor_text used note \<noteq> []"
  by (simp_all add: bandit_text_def salary_text_def floor_text_def)

lemma fallback_cases:
  assumes "schedule_ready cfg" and "valid_clock clk" and "now \<le> fl" and "fl \<le> latest"
  shows "\<exists>t d why. fallback_schedule cfg clk used rcode now fl latest note =
           Inr (avoid_peak_windows cfg (now + d), why) \<and> why \<noteq> [] \<and> resolve_delay clk (t - now) = Inr d
           \<and> fl \<le> t \<and> t \<le> latest"
proof (cases "if rcode = Some ''insufficient_funds'' then first_salary_window_day fl latest else None")
  case None
  from assms(3) clk.resolved [OF assms(2), of "fl - now"] obtain d where d: "resolve_delay clk (fl - now) = Inr d"
    by auto
  have "\<exists>why. fallback_schedule cfg clk used rcode now fl latest note =
           Inr (avoid_peak_windows cfg (now + d), why) \<and> why \<noteq> []"
    by (simp only: fallback_schedule_def None option.case d bindR.simps Let_def) simp
  with d assms(4) show ?thesis by blast
next
  case (Some t)
  then have "first_salary_window_day fl latest = Some t" by (simp split: if_splits)
  then have t: "fl \<le> t" "t \<le> latest" by (simp_all add: salary_day_bounds)
  with assms(3) clk.resolved [OF assms(2), of "t - now"] obtain d where d: "resolve_delay clk (t - now) = Inr d"
    by auto
  have "\<exists>why. fallback_schedule cfg clk used rcode now fl latest note =
           Inr (avoid_peak_windows cfg (now + d), why) \<and> why \<noteq> []"
    by (simp only: fallback_schedule_def Some option.case d bindR.simps Let_def) simp
  with d t show ?thesis by blast
qed

lemma compute_scheduled_at_legal:
  assumes ready: "schedule_ready cfg" and v: "valid_clock clk" and used: "0 \<le> used" and ok: "chooser_ok bandit"
  shows "\<exists>sched why. compute_scheduled_at cfg clk used rcode now prev bandit = Inr (sched, why) \<and> why \<noteq> []
     \<and> \<not> in_blackout cfg sched \<and> now \<le> sched
     \<and> sched < schedule_floor cfg used now prev + max_schedule_window (self_imposed cfg) + usec_per_day
     \<and> (bandit \<noteq> None \<or> clk = RealClock \<longrightarrow> schedule_floor cfg used now prev \<le> sched)"
proof -
  let ?fl = "schedule_floor cfg used now prev"
  let ?latest = "?fl + max_schedule_window (self_imposed cfg)"
  have win: "0 \<le> max_schedule_window (self_imposed cfg)" using ready by (simp add: schedule_ready_def)
  note floor_now = schedule_floor_ge(2) [OF ready, of now used prev]
  obtain note0 where fp: "floor_parts cfg used now prev = Inr (?fl, note0)"
    using floor_parts_eq [OF ready used] by blast
  obtain cs where cs: "generate_legal_candidates cfg clk ?fl ?latest = Inr cs" "cs \<noteq> []"
    "\<forall>t \<in> set cs. slot_ok cfg ?fl t \<and> t \<le> max ?latest (avoid_peak_windows cfg ?fl)"
    using generate_legal [OF ready v, of ?fl ?latest] by blast
  show ?thesis
  proof (cases bandit)
    case None
    then have eq: "compute_scheduled_at cfg clk used rcode now prev bandit =
        fallback_schedule cfg clk used rcode now ?fl ?latest note0"
      by (simp add: compute_scheduled_at_def fp cs(1) Let_def)
    obtain t d why where fb: "fallback_schedule cfg clk used rcode now ?fl ?latest note0 =
           Inr (avoid_peak_windows cfg (now + d), why)" "why \<noteq> []" "resolve_delay clk (t - now) = Inr d"
      "?fl \<le> t" "t \<le> ?latest"
      using fallback_cases [OF ready v floor_now, of ?latest] win by fastforce
    have d: "0 \<le> d" "d \<le> t - now" using clk.resolve_Inr_bounds [OF v fb(3)] by simp_all
    have exact: "d = t - now" if "clk = RealClock" using fb(3) that by (simp split: if_splits)
    show ?thesis
      using eq fb d exact None avoid_peak_ge [of cfg "now + d"] avoid_peak_lt_day [of cfg "now + d"]
        avoid_peak_not_blackout [of cfg "now + d"] schedule_ready_windows [OF ready]
      by (intro exI [of _ "avoid_peak_windows cfg (now + d)"] exI [of _ why]) auto
  next
    case (Some pick)
    with ok cs(2) obtain c where c: "pick cs = Inr c" "c \<in> set cs" by (auto simp: chooser_ok_def)
    with Some fp cs have "compute_scheduled_at cfg clk used rcode now prev bandit =
        Inr (c, bandit_text used c ?fl ?latest note0)"
      by (simp add: compute_scheduled_at_def Let_def)
    moreover have "?fl \<le> c" "\<not> in_blackout cfg c" using cs(3) c(2) by (simp_all add: slot_ok_def)
    moreover have "c < ?latest + usec_per_day"
    proof -
      have "c \<le> max ?latest (avoid_peak_windows cfg ?fl)" using cs(3) c(2) by blast
      moreover have "avoid_peak_windows cfg ?fl < ?fl + usec_per_day"
        by (rule avoid_peak_lt_day) (rule schedule_ready_windows(1) [OF ready])
      ultimately show ?thesis using win by (simp add: le_max_iff_disj usec_per_day_def) linarith
    qed
    ultimately show ?thesis using floor_now
      by (intro exI [of _ c] exI [of _ "bandit_text used c ?fl ?latest note0"]) simp
  qed
qed



text \<open>
  Without a bandit the accelerated clock breaks the notice lead time: the demo profile schedules a
  first retry 24 seconds after its notice although the configured lead time is 24 hours, while with a
  bandit the floor is not scaled at all.
\<close>

theorem demo_fallback_breaks_lead_time:
  "compute_scheduled_at (shipped_config Demo) (AcceleratedClock 3600 0) 0 None 0 None None
     = Inr (24 * usec_per_second, floor_text 0 ''notice lead'')
   \<and> 24 * usec_per_second < 0 + notice_lead_time (npci (shipped_config Demo))"
proof
  show "compute_scheduled_at (shipped_config Demo) (AcceleratedClock 3600 0) 0 None 0 None None
     = Inr (24 * usec_per_second, floor_text 0 ''notice lead'')"
    by code_simp
  show "24 * usec_per_second < 0 + notice_lead_time (npci (shipped_config Demo))"
    by (simp add: shipped_config_def hours_def usec_defs)
qed

end
