(* ===== verification/Decline_Router.thy ===== *)
theory Decline_Router
  imports Config
begin

text \<open>\<^verbatim>\<open>app/core/decline_router.py\<close>: the configured classification of a decline.\<close>

definition norm_code :: "string option \<Rightarrow> string" where
  "norm_code c = (case c of None \<Rightarrow> [] | Some s \<Rightarrow> if s = [] then [] else py_lower (py_strip s))"

fun classify_candidates ::
  "string list \<Rightarrow> string list \<Rightarrow> string list \<Rightarrow> (decline_class \<times> bool) option" where
  "classify_candidates tech biz [] = None"
| "classify_candidates tech biz (candidate # rest) =
     (if candidate \<in> set tech then Some (Technical, True)
      else if candidate \<in> set biz then Some (Business, False)
      else classify_candidates tech biz rest)"

definition classify_failure ::
  "app_config \<Rightarrow> string option \<Rightarrow> string option \<Rightarrow> decline_class \<times> bool" where
  "classify_failure cfg rcode ereason =
     (let code = norm_code rcode; reason = norm_code ereason;
          rules = decline cfg;
          technical_codes = map py_lower (technical rules);
          business_codes = map py_lower (business rules)
      in case classify_candidates technical_codes business_codes [code, reason] of
           Some r \<Rightarrow> r
         | None \<Rightarrow> if default_class rules = ''technical'' then (Technical, True) else (Business, False))"

text \<open>The declarative reading: the first of the two texts that is listed decides, technical first.\<close>

definition listed :: "string list \<Rightarrow> string \<Rightarrow> bool" where
  "listed codes s \<longleftrightarrow> (\<exists>c \<in> set codes. py_lower c = s)"

definition retryable_decline :: "decline_rules \<Rightarrow> string \<Rightarrow> string \<Rightarrow> bool" where
  "retryable_decline rules code reason \<longleftrightarrow>
     (if listed (technical rules) code \<or> listed (business rules) code then listed (technical rules) code
      else if listed (technical rules) reason \<or> listed (business rules) reason
      then listed (technical rules) reason
      else default_class rules = ''technical'')"

lemma listed_iff: "s \<in> py_lower ` set codes \<longleftrightarrow> listed codes s"
  by (auto simp: listed_def)

lemma classify_failure_eq:
  "classify_failure cfg rcode ereason =
     (if retryable_decline (decline cfg) (norm_code rcode) (norm_code ereason)
      then (Technical, True) else (Business, False))"
  by (auto simp: classify_failure_def retryable_decline_def Let_def listed_iff)

lemma classify_failure_cases:
  "classify_failure cfg rc er = (Technical, True) \<or> classify_failure cfg rc er = (Business, False)"
  by (simp add: classify_failure_eq)

lemma classify_not_unclassified: "fst (classify_failure cfg rc er) \<noteq> Unclassified"
  by (simp add: classify_failure_eq)

text \<open>
  The decline router is the declarative rule: a decline is retryable (technical) exactly when the
  first of the normalised reason code and error reason that is configured at all is configured as
  technical, a code configured in both lists counting as technical, or when neither is configured
  and the default is 'technical'; every other decline is business and not retryable.
\<close>

theorem classify_failure_spec:
  "classify_failure cfg rcode ereason =
     (if retryable_decline (decline cfg) (norm_code rcode) (norm_code ereason)
      then (Technical, True) else (Business, False))"
  by (rule classify_failure_eq)

text \<open>Upper and lower case and surrounding white space of the codes do not matter.\<close>

lemma norm_code_case: "norm_code (Some (py_lower s)) = py_lower (py_strip (py_lower s))"
  by (cases s) (simp_all add: norm_code_def py_lower_def py_strip_def)

text \<open>
  With the shipped rules an unknown or missing code is never retried: a decline is retryable only
  if its reason code or its error reason is one of the five technical codes, up to case and
  surrounding white space.
\<close>

theorem shipped_unknown_not_retried:
  assumes "classify_failure (shipped_config p) rcode ereason = (cls, True)"
  shows "cls = Technical \<and>
     (norm_code rcode \<in> set (technical (decline (shipped_config p)))
      \<or> norm_code ereason \<in> set (technical (decline (shipped_config p))))"
proof -
  have low: "\<forall>c \<in> set (technical (decline (shipped_config p))). py_lower c = c"
    by (simp add: shipped_config_def) code_simp
  have d: "default_class (decline (shipped_config p)) = ''business''"
    by (simp add: shipped_config_def)
  from assms have "retryable_decline (decline (shipped_config p)) (norm_code rcode) (norm_code ereason)"
    and "cls = Technical"
    by (auto simp: classify_failure_eq split: if_splits)
  with low d show ?thesis
    by (auto simp: retryable_decline_def listed_def split: if_splits)
qed

theorem shipped_unknown_not_retried_witness:
  "classify_failure (shipped_config Prod) (Some '' UPI_TIMEOUT '') None = (Technical, True)
   \<and> norm_code (Some '' UPI_TIMEOUT '') = ''upi_timeout''
   \<and> (norm_code (Some '' UPI_TIMEOUT '') \<in> set (technical (decline (shipped_config Prod)))
      \<or> norm_code None \<in> set (technical (decline (shipped_config Prod))))"
proof -
  have c: "classify_failure (shipped_config Prod) (Some '' UPI_TIMEOUT '') None = (Technical, True)"
    by code_simp
  have "norm_code (Some '' UPI_TIMEOUT '') = ''upi_timeout''" by code_simp
  with c shipped_unknown_not_retried [OF c] show ?thesis by blast
qed

end
