(* ===== verification/State_Machine.thy ===== *)
theory State_Machine
  imports Scheduling Decline_Router Sha256
begin

text \<open>
  The handlers of \<^verbatim>\<open>app/core/state_machine.py\<close>.  A handler mutates the case it is given and returns
  it with the audit entries of the call, so the model returns the new case.  \<open>wall\<close> is the wall-clock
  reading behind each \<^verbatim>\<open>clock.now()\<close>.  Where a handler can raise after it has written to the case,
  the written case is returned next to the error.
\<close>

section \<open>Bucket assignment, audit entries\<close>

definition sha256_int :: "string \<Rightarrow> int" where
  "sha256_int s = int_of_bytes_be (sha256 (utf8 s))"

definition is_control_case :: "string \<Rightarrow> int \<Rightarrow> bool" where
  "is_control_case cid control_percent \<longleftrightarrow> sha256_int cid mod 100 < control_percent"

definition sm_audit ::
  "string \<Rightarrow> case_state \<Rightarrow> case_state \<Rightarrow> string \<Rightarrow> int \<Rightarrow> datetime \<Rightarrow> actor \<Rightarrow> audit_entry" where
  "sm_audit cid from to rule version ts who =
     \<lparr>ae_case_id = cid, from_state = from, to_state = to, rule_fired = rule, rule_version = version,
      timestamp = ts, entry_actor = who, sequence_id = None, prev_hash = None, entry_hash = None,
      ae_scheduled_at = None\<rparr>"

lemma sm_audit_constructs:
  "rule \<noteq> [] \<Longrightarrow> 1 \<le> version \<Longrightarrow>
   AuditEntry cid from to rule version ts who = Inr (sm_audit cid from to rule version ts who)"
  by (simp add: AuditEntry_def sm_audit_def)

lemma sm_audit_sel [simp]:
  "ae_case_id (sm_audit cid from to rule version ts who) = cid"
  "from_state (sm_audit cid from to rule version ts who) = from"
  "to_state (sm_audit cid from to rule version ts who) = to"
  "rule_fired (sm_audit cid from to rule version ts who) = rule"
  "rule_version (sm_audit cid from to rule version ts who) = version"
  "timestamp (sm_audit cid from to rule version ts who) = ts"
  "entry_actor (sm_audit cid from to rule version ts who) = who"
  "sequence_id (sm_audit cid from to rule version ts who) = None"
  "prev_hash (sm_audit cid from to rule version ts who) = None"
  "entry_hash (sm_audit cid from to rule version ts who) = None"
  "ae_scheduled_at (sm_audit cid from to rule version ts who) = None"
  by (simp_all add: sm_audit_def)

abbreviation agent_entry :: "recovery_case \<Rightarrow> case_state \<Rightarrow> case_state \<Rightarrow> string \<Rightarrow> datetime \<Rightarrow> audit_entry" where
  "agent_entry c from to rule ts \<equiv> sm_audit (case_id c) from to rule rule_version_const ts Agent"

section \<open>Success events\<close>

definition handle_payment_success ::
  "recovery_case \<Rightarrow> success_event \<Rightarrow> clock \<Rightarrow> datetime
   \<Rightarrow> recovery_case \<times> audit_entry list \<times> retry_decision option" where
  [fsm_defs]: "handle_payment_success c event clk wall =
     (let now = clock_now clk wall in
      if se_amount event \<noteq> original_amount c
      then (c, [agent_entry c (state c) (state c) ''amount_mismatch_on_success'' now], None)
      else if bucket c = Some Control
      then (if state c \<noteq> CONTROL_HELD
            then (c, [agent_entry c (state c) (state c) ''unexpected_success_event'' now], None)
            else (c\<lparr>state := CONTROL_RECOVERED, control_outcome := Some Recovered_naturally\<rparr>,
                  [agent_entry c CONTROL_HELD CONTROL_RECOVERED ''natural_recovery'' now], None))
      else if state c = RETRY_EXECUTED
      then (c\<lparr>state := RECOVERED\<rparr>, [agent_entry c RETRY_EXECUTED RECOVERED ''agent_recovered'' now], None)
      else if state c \<in> {NOTICE_PENDING, NOTICE_SENT, RETRY_SCHEDULED, THROTTLED}
      then (c\<lparr>state := RECOVERED_NATURALLY\<rparr>,
            [agent_entry c (state c) RECOVERED_NATURALLY ''natural_recovery_treatment_bucket'' now], None)
      else if state c \<in> {ESCALATED, AFA_REQUIRED}
      then (c\<lparr>state := RECOVERED\<rparr>, [agent_entry c (state c) RECOVERED ''late_success_reconciled'' now], None)
      else (c, [agent_entry c (state c) (state c) ''unexpected_success_event'' now], None))"

section \<open>Failure events\<close>

text \<open>The AFA ceiling of an event: its notes' category, looked up like a dictionary key.\<close>

definition afa_ceiling :: "app_config \<Rightarrow> failure_event \<Rightarrow> int result" where
  "afa_ceiling cfg event =
     (let ns = (case fe_notes event of None \<Rightarrow> [] | Some d \<Rightarrow> d);
          category = (case dict_get ns ''category'' of None \<Rightarrow> PStr ''default'' | Some v \<Rightarrow> v);
          ceilings = afa_free_ceiling (npci cfg)
      in bindR (of_option KeyError (dict_get ceilings ''default'')) (\<lambda>dflt.
           case category of
             PStr s \<Rightarrow> Inr (case dict_get ceilings s of None \<Rightarrow> dflt | Some v \<Rightarrow> v)
           | PList _ \<Rightarrow> Inl TypeError
           | PDict _ \<Rightarrow> Inl TypeError
           | _ \<Rightarrow> Inr dflt))"

definition handle_new_failure ::
  "failure_event \<Rightarrow> app_config \<Rightarrow> clock \<Rightarrow> datetime
   \<Rightarrow> (recovery_case \<times> failure_event \<times> audit_entry list \<times> retry_decision option) result" where
  [fsm_defs]: "handle_new_failure event cfg clk wall =
     (let now = clock_now clk wall;
          mid = (case fe_mandate_id event of Some m \<Rightarrow> if m = [] then fe_case_id event else m
                                           | None \<Rightarrow> fe_case_id event)
      in bindR (RecoveryCase (fe_case_id event) mid (fe_instrument_id event) (fe_amount event) now 0 RECEIVED) (\<lambda>c.
         let created = agent_entry c RECEIVED CLASSIFIED ''create_case'' now;
             cls = fst (classify_failure cfg (reason_code event) (error_reason event));
             event = event\<lparr>decline_class := cls\<rparr>
         in if is_control_case (case_id c) 20
            then bindR (assign_bucket c Control) (\<lambda>c.
                 bindR (resolve_delay clk (control_observation_window (self_imposed cfg))) (\<lambda>d.
                   Inr (c\<lparr>state := CONTROL_HELD, control_outcome := Some Unknown,
                          control_observation_deadline := Some (now + d)\<rparr>, event,
                        [created, agent_entry c CLASSIFIED CONTROL_HELD ''assign_bucket_control'' now], None)))
            else bindR (assign_bucket c Treatment) (\<lambda>c.
                 let treated = agent_entry c CLASSIFIED TREATMENT ''assign_bucket_treatment'' now
                 in if cls = Business
                    then Inr (c\<lparr>state := ESCALATED\<rparr>, event,
                              [created, treated, agent_entry c TREATMENT ESCALATED ''hard_decline'' now], None)
                    else bindR (afa_ceiling cfg event) (\<lambda>ceiling.
                         if original_amount c > ceiling
                         then Inr (c\<lparr>state := AFA_REQUIRED\<rparr>, event,
                                   [created, treated,
                                    agent_entry c TREATMENT AFA_REQUIRED ''afa_threshold_exceeded'' now], None)
                         else Inr (c\<lparr>state := NOTICE_PENDING\<rparr>, event,
                                   [created, treated,
                                    agent_entry c TREATMENT NOTICE_PENDING ''technical_decline'' now], None)))))"

definition handle_existing_failure ::
  "recovery_case \<Rightarrow> failure_event \<Rightarrow> app_config \<Rightarrow> clock \<Rightarrow> datetime
   \<Rightarrow> recovery_case \<times> failure_event \<times> audit_entry list \<times> retry_decision option" where
  [fsm_defs]: "handle_existing_failure c event cfg clk wall =
     (let now = clock_now clk wall in
      if state c = CONTROL_HELD
      then (c\<lparr>state := CONTROL_STILL_FAILED, control_outcome := Some Still_failed\<rparr>, event,
            [agent_entry c CONTROL_HELD CONTROL_STILL_FAILED ''control_failure_signal'' now], None)
      else if state c \<noteq> RETRY_EXECUTED
      then (c, event, [agent_entry c (state c) (state c) ''unexpected_failure_event'' now], None)
      else let c = c\<lparr>retries_used := retries_used c + 1\<rparr>;
               event = event\<lparr>decline_class := fst (classify_failure cfg (reason_code event) (error_reason event))\<rparr>;
               evaluated = agent_entry c RETRY_EXECUTED RETRY_EVAL ''execution_outcome'' now
           in if retries_used c \<ge> max_retries (npci cfg) \<or> decline_class event = Business
              then (c\<lparr>state := ESCALATED\<rparr>, event,
                    [evaluated, agent_entry c RETRY_EVAL ESCALATED ''retry_cap_or_business'' now], None)
              else (c\<lparr>state := NOTICE_PENDING\<rparr>, event,
                    [evaluated, agent_entry c RETRY_EVAL NOTICE_PENDING ''technical_decline_retry_eligible'' now],
                    None))"

definition handle_payment_failed ::
  "recovery_case option \<Rightarrow> failure_event \<Rightarrow> app_config \<Rightarrow> clock \<Rightarrow> datetime
   \<Rightarrow> (recovery_case \<times> failure_event \<times> audit_entry list \<times> retry_decision option) result" where
  "handle_payment_failed co event cfg clk wall =
     (case co of None \<Rightarrow> handle_new_failure event cfg clk wall
               | Some c \<Rightarrow> Inr (handle_existing_failure c event cfg clk wall))"

section \<open>Explicit transitions\<close>

text \<open>
  \<^verbatim>\<open>mark_notice_sent\<close> reads the clock twice: \<open>wall\<close> for the audit entries, \<open>wall'\<close> in
  \<^verbatim>\<open>_compute_scheduled_at\<close>.  When scheduling raises, the case stays in NOTICE_SENT.
\<close>

definition mark_notice_sent ::
  "recovery_case \<Rightarrow> app_config \<Rightarrow> clock \<Rightarrow> datetime \<Rightarrow> datetime \<Rightarrow> string option \<Rightarrow> datetime option
   \<Rightarrow> chooser option \<Rightarrow> recovery_case \<times> (audit_entry list \<times> retry_decision) result" where
  [fsm_defs]: "mark_notice_sent c cfg clk wall wall' rcode prev_executed bandit =
     (let now = clock_now clk wall in
      if state c \<noteq> NOTICE_PENDING then (c, Inl ValueError)
      else let c = c\<lparr>state := NOTICE_SENT\<rparr>;
               sent = agent_entry c NOTICE_PENDING NOTICE_SENT ''notice_sent'' now
           in case compute_scheduled_at cfg clk (retries_used c) rcode (clock_now clk wall') prev_executed bandit of
                Inl e \<Rightarrow> (c, Inl e)
              | Inr (sched, why) \<Rightarrow>
                  (case RetryDecision
                          \<lparr>rd_case_id = case_id c, rd_attempt_number = retries_used c + 1,
                           rd_scheduled_at = sched, reasoning = why, rd_commit_backend = Postgres_outbox,
                           commit_ref = ''retry-'' @ case_id c @ ''-'' @ py_str_int (retries_used c + 1),
                           executed_at = None, outcome = Pending\<rparr> of
                     Inl e \<Rightarrow> (c, Inl e)
                   | Inr decision \<Rightarrow>
                       (c\<lparr>state := RETRY_SCHEDULED\<rparr>,
                        Inr ([sent,
                              (agent_entry c NOTICE_SENT RETRY_SCHEDULED ''schedule_retry'' now)
                                \<lparr>ae_scheduled_at := Some (rd_scheduled_at decision)\<rparr>],
                             decision))))"

definition mark_retry_executed ::
  "recovery_case \<Rightarrow> retry_decision \<Rightarrow> clock \<Rightarrow> datetime
   \<Rightarrow> (recovery_case \<times> retry_decision \<times> audit_entry list) result" where
  [fsm_defs]: "mark_retry_executed c decision clk wall =
     (let now = clock_now clk wall in
      if state c \<noteq> RETRY_SCHEDULED then Inl ValueError
      else Inr (c\<lparr>state := RETRY_EXECUTED\<rparr>, decision\<lparr>executed_at := Some now\<rparr>,
                [agent_entry c RETRY_SCHEDULED RETRY_EXECUTED ''commit_approved'' now]))"

text \<open>\<^verbatim>\<open>attempt_execution\<close> over any commit backend: a state and its \<^verbatim>\<open>commit\<close> method.\<close>

definition attempt_execution ::
  "('k \<Rightarrow> retry_decision \<Rightarrow> 'k \<times> bool result) \<Rightarrow> 'k \<Rightarrow> recovery_case \<Rightarrow> retry_decision \<Rightarrow> clock \<Rightarrow> datetime
   \<Rightarrow> 'k \<times> (recovery_case \<times> retry_decision \<times> audit_entry list \<times> bool) result" where
  [fsm_defs]: "attempt_execution commit k c decision clk wall =
     (if state c \<noteq> RETRY_SCHEDULED then (k, Inl ValueError)
      else case commit k decision of
             (k', Inl e) \<Rightarrow> (k', Inl e)
           | (k', Inr False) \<Rightarrow> (k', Inr (c, decision, [], False))
           | (k', Inr True) \<Rightarrow>
               (let now = clock_now clk wall
                in (k', Inr (c\<lparr>state := RETRY_EXECUTED\<rparr>, decision\<lparr>executed_at := Some now\<rparr>,
                             [agent_entry c RETRY_SCHEDULED RETRY_EXECUTED ''commit_approved'' now], True))))"

definition apply_throttle ::
  "recovery_case \<Rightarrow> clock \<Rightarrow> datetime \<Rightarrow> (recovery_case \<times> audit_entry list) result" where
  [fsm_defs]: "apply_throttle c clk wall =
     (if state c \<noteq> RETRY_SCHEDULED then Inl ValueError
      else Inr (c\<lparr>state := THROTTLED\<rparr>,
                [agent_entry c RETRY_SCHEDULED THROTTLED ''throttle_applied'' (clock_now clk wall)]))"

definition release_throttle ::
  "recovery_case \<Rightarrow> clock \<Rightarrow> datetime \<Rightarrow> (recovery_case \<times> audit_entry list) result" where
  [fsm_defs]: "release_throttle c clk wall =
     (if state c \<noteq> THROTTLED then Inl ValueError
      else Inr (c\<lparr>state := RETRY_SCHEDULED\<rparr>,
                [agent_entry c THROTTLED RETRY_SCHEDULED ''throttle_released'' (clock_now clk wall)]))"

section \<open>Sending a notice\<close>

lemma retry_ref_nonempty [simp]: "''retry-'' @ x \<noteq> []"
  by simp

lemma mark_notice_sent_ok:
  assumes "state c = NOTICE_PENDING" and "0 \<le> retries_used c" and "schedule_ready cfg"
    and "valid_clock clk" and "chooser_ok bandit"
  shows "\<exists>sched why. compute_scheduled_at cfg clk (retries_used c) rcode (clock_now clk wall') prev bandit = Inr (sched, why)
     \<and> mark_notice_sent c cfg clk wall wall' rcode prev bandit =
        (c\<lparr>state := RETRY_SCHEDULED\<rparr>,
         Inr ([agent_entry c NOTICE_PENDING NOTICE_SENT ''notice_sent'' (clock_now clk wall),
               (agent_entry c NOTICE_SENT RETRY_SCHEDULED ''schedule_retry'' (clock_now clk wall))
                  \<lparr>ae_scheduled_at := Some sched\<rparr>],
              \<lparr>rd_case_id = case_id c, rd_attempt_number = retries_used c + 1, rd_scheduled_at = sched,
               reasoning = why, rd_commit_backend = Postgres_outbox,
               commit_ref = ''retry-'' @ case_id c @ ''-'' @ py_str_int (retries_used c + 1),
               executed_at = None, outcome = Pending\<rparr>))"
proof -
  obtain sched why where
    "compute_scheduled_at cfg clk (retries_used c) rcode (clock_now clk wall') prev bandit = Inr (sched, why)"
    "why \<noteq> []"
    using compute_scheduled_at_legal [OF assms(3,4,2,5)] by blast
  with assms(1,2) show ?thesis by (simp add: mark_notice_sent_def RetryDecision_def Let_def)
qed

lemma mark_notice_sent_Inr:
  "mark_notice_sent c cfg clk wall wall' rcode prev bandit = (c', Inr (es, d)) \<Longrightarrow>
   state c = NOTICE_PENDING \<and> c' = c\<lparr>state := RETRY_SCHEDULED\<rparr>
   \<and> es = [agent_entry c NOTICE_PENDING NOTICE_SENT ''notice_sent'' (clock_now clk wall),
           (agent_entry c NOTICE_SENT RETRY_SCHEDULED ''schedule_retry'' (clock_now clk wall))
              \<lparr>ae_scheduled_at := Some (rd_scheduled_at d)\<rparr>]
   \<and> rd_case_id d = case_id c \<and> rd_attempt_number d = retries_used c + 1 \<and> outcome d = Pending"
  by (auto simp: mark_notice_sent_def RetryDecision_def Let_def split: if_splits sum.splits prod.splits)

lemma mark_notice_sent_Inl:
  "mark_notice_sent c cfg clk wall wall' rcode prev bandit = (c', Inl e) \<Longrightarrow>
   c' = c \<and> state c \<noteq> NOTICE_PENDING \<and> e = ValueError
   \<or> state c = NOTICE_PENDING \<and> c' = c\<lparr>state := NOTICE_SENT\<rparr>"
  by (auto simp: mark_notice_sent_def Let_def split: if_splits sum.splits prod.splits)

text \<open>
  C31. Sending a notice from NOTICE_PENDING under a well-formed configuration and a bandit that answers
  with one of its candidates always succeeds: the case moves through NOTICE_SENT to RETRY_SCHEDULED
  with both steps audited, the scheduling entry carries the decision's instant, the decision is for
  the next attempt, pending and never executed, and its instant is outside the blackout and not before
  the lead time after the second clock reading (with the real clock or a bandit).
\<close>

theorem mark_notice_sent_correct:
  assumes "state c = NOTICE_PENDING" and "0 \<le> retries_used c" and "schedule_ready cfg"
    and "valid_clock clk" and "chooser_ok bandit" and "bandit \<noteq> None \<or> clk = RealClock"
  shows "\<exists>es d. mark_notice_sent c cfg clk wall wall' rcode prev bandit = (c\<lparr>state := RETRY_SCHEDULED\<rparr>, Inr (es, d))
     \<and> map (\<lambda>e. (from_state e, to_state e, timestamp e, ae_scheduled_at e)) es =
         [(NOTICE_PENDING, NOTICE_SENT, clock_now clk wall, None),
          (NOTICE_SENT, RETRY_SCHEDULED, clock_now clk wall, Some (rd_scheduled_at d))]
     \<and> rd_attempt_number d = retries_used c + 1 \<and> outcome d = Pending \<and> executed_at d = None
     \<and> RetryDecision d = Inr d
     \<and> \<not> in_blackout cfg (rd_scheduled_at d)
     \<and> clock_now clk wall' + notice_lead_time (npci cfg) \<le> rd_scheduled_at d"
proof -
  obtain sched why where
    ms: "compute_scheduled_at cfg clk (retries_used c) rcode (clock_now clk wall') prev bandit = Inr (sched, why)"
      "mark_notice_sent c cfg clk wall wall' rcode prev bandit =
        (c\<lparr>state := RETRY_SCHEDULED\<rparr>,
         Inr ([agent_entry c NOTICE_PENDING NOTICE_SENT ''notice_sent'' (clock_now clk wall),
               (agent_entry c NOTICE_SENT RETRY_SCHEDULED ''schedule_retry'' (clock_now clk wall))
                  \<lparr>ae_scheduled_at := Some sched\<rparr>],
              \<lparr>rd_case_id = case_id c, rd_attempt_number = retries_used c + 1, rd_scheduled_at = sched,
               reasoning = why, rd_commit_backend = Postgres_outbox,
               commit_ref = ''retry-'' @ case_id c @ ''-'' @ py_str_int (retries_used c + 1),
               executed_at = None, outcome = Pending\<rparr>))"
    using mark_notice_sent_ok [OF assms(1-5)] by blast
  obtain sched' why' where
    legal: "compute_scheduled_at cfg clk (retries_used c) rcode (clock_now clk wall') prev bandit = Inr (sched', why')"
      "why' \<noteq> []" "\<not> in_blackout cfg sched'"
      "schedule_floor cfg (retries_used c) (clock_now clk wall') prev \<le> sched'"
    using compute_scheduled_at_legal [OF assms(3,4,2,5)] assms(6) by blast
  with ms(1) have "why \<noteq> []" "\<not> in_blackout cfg sched"
    "clock_now clk wall' + notice_lead_time (npci cfg) \<le> sched"
    by (auto simp: schedule_floor_def)
  with ms(2) assms(2) show ?thesis by (simp add: RetryDecision_def)
qed

end
