(* ===== verification/FSM_Runs.thy ===== *)
theory FSM_Runs
  imports State_Machine
begin

text \<open>
  Whole runs of the state machine: a step is one call of a handler on a case, a run starts when a
  failure opens a case, and the trail is the audit entries of all calls in order.  The step relation
  includes the calls that fail.  The theorems are the invariants of every reachable case.
\<close>

section \<open>Steps and runs\<close>

text \<open>
  The verdict of a commit backend is arbitrary; the bandit, when there is one, answers with one of its
  candidates (\<^verbatim>\<open>suggest_from\<close> does).
\<close>

inductive fsm_step :: "app_config \<Rightarrow> clock \<Rightarrow> recovery_case \<Rightarrow> audit_entry list \<Rightarrow> recovery_case \<Rightarrow> bool"
  for cfg :: app_config and clk :: clock where
  failure: "handle_existing_failure c ev cfg clk wall = (c', ev', es, d) \<Longrightarrow> fsm_step cfg clk c es c'"
| success: "handle_payment_success c sev clk wall = (c', es, d) \<Longrightarrow> fsm_step cfg clk c es c'"
| notice: "chooser_ok bandit \<Longrightarrow>
     mark_notice_sent c cfg clk wall wall' rcode prev bandit = (c', Inr (es, d)) \<Longrightarrow> fsm_step cfg clk c es c'"
| notice_failed: "chooser_ok bandit \<Longrightarrow>
     mark_notice_sent c cfg clk wall wall' rcode prev bandit = (c', Inl e) \<Longrightarrow> fsm_step cfg clk c [] c'"
| executed: "mark_retry_executed c d clk wall = Inr (c', d', es) \<Longrightarrow> fsm_step cfg clk c es c'"
| attempted: "attempt_execution (\<lambda>_ _. ((), verdict)) () c d clk wall = (k, Inr (c', d', es, granted)) \<Longrightarrow>
     fsm_step cfg clk c es c'"
| throttled: "apply_throttle c clk wall = Inr (c', es) \<Longrightarrow> fsm_step cfg clk c es c'"
| released: "release_throttle c clk wall = Inr (c', es) \<Longrightarrow> fsm_step cfg clk c es c'"

inductive fsm_run :: "app_config \<Rightarrow> clock \<Rightarrow> recovery_case \<Rightarrow> audit_entry list \<Rightarrow> bool"
  for cfg :: app_config and clk :: clock where
  opened: "handle_new_failure ev cfg clk wall = Inr (c, ev', es, d) \<Longrightarrow> fsm_run cfg clk c es"
| stepped: "fsm_run cfg clk c trail \<Longrightarrow> fsm_step cfg clk c es c' \<Longrightarrow> fsm_run cfg clk c' (trail @ es)"

inductive_cases fsm_stepE: "fsm_step cfg clk c es c'"

section \<open>The documented transitions\<close>

text \<open>
  The edges of the diagrams in \<^verbatim>\<open>README.md\<close> and \<^verbatim>\<open>docs/BUILDER_DOC.md\<close>, with the late successes the
  handler's comment lists.
\<close>

fun edge :: "case_state \<Rightarrow> case_state \<Rightarrow> bool" where
  "edge RECEIVED t = (t = CLASSIFIED)"
| "edge CLASSIFIED t = (t \<in> {CONTROL_HELD, TREATMENT})"
| "edge TREATMENT t = (t \<in> {ESCALATED, AFA_REQUIRED, NOTICE_PENDING})"
| "edge CONTROL_HELD t = (t \<in> {CONTROL_RECOVERED, CONTROL_STILL_FAILED})"
| "edge NOTICE_PENDING t = (t \<in> {NOTICE_SENT, RECOVERED_NATURALLY})"
| "edge NOTICE_SENT t = (t \<in> {RETRY_SCHEDULED, RECOVERED_NATURALLY})"
| "edge RETRY_SCHEDULED t = (t \<in> {THROTTLED, RETRY_EXECUTED, RECOVERED_NATURALLY})"
| "edge THROTTLED t = (t \<in> {RETRY_SCHEDULED, RECOVERED_NATURALLY})"
| "edge RETRY_EXECUTED t = (t \<in> {RECOVERED, RETRY_EVAL})"
| "edge RETRY_EVAL t = (t \<in> {ESCALATED, NOTICE_PENDING})"
| "edge ESCALATED t = (t = RECOVERED)"
| "edge AFA_REQUIRED t = (t = RECOVERED)"
| "edge _ t = False"

definition flag_rules :: "string list" where
  "flag_rules = [''amount_mismatch_on_success'', ''unexpected_success_event'', ''unexpected_failure_event'']"

text \<open>A path: entries chained from one state to another, each an edge or a flag that stays put.\<close>

definition entry_ok :: "audit_entry \<Rightarrow> bool" where
  "entry_ok e \<longleftrightarrow>
     edge (from_state e) (to_state e) \<or> to_state e = from_state e \<and> rule_fired e \<in> set flag_rules"

fun path :: "case_state \<Rightarrow> audit_entry list \<Rightarrow> case_state \<Rightarrow> bool" where
  "path s [] t = (s = t)"
| "path s (e # es) t = (from_state e = s \<and> entry_ok e \<and> path (to_state e) es t)"

lemma path_append: "path s (es @ fs) t \<longleftrightarrow> (\<exists>u. path s es u \<and> path u fs t)"
  by (induction es arbitrary: s) auto

definition exec_count :: "audit_entry list \<Rightarrow> nat" where
  "exec_count es = length (filter (\<lambda>e. from_state e \<noteq> RETRY_EXECUTED \<and> to_state e = RETRY_EXECUTED) es)"

definition eval_count :: "audit_entry list \<Rightarrow> nat" where
  "eval_count es = length (filter (\<lambda>e. from_state e \<noteq> RETRY_EVAL \<and> to_state e = RETRY_EVAL) es)"

lemma count_append [simp]:
  "exec_count (es @ fs) = exec_count es + exec_count fs"
  "eval_count (es @ fs) = eval_count es + eval_count fs"
  by (simp_all add: exec_count_def eval_count_def)

section \<open>One step\<close>

definition same_identity :: "recovery_case \<Rightarrow> recovery_case \<Rightarrow> bool" where
  "same_identity c c' \<longleftrightarrow>
     case_id c' = case_id c \<and> mandate_id c' = mandate_id c \<and> instrument_id c' = instrument_id c
     \<and> original_amount c' = original_amount c \<and> opened_at c' = opened_at c \<and> bucket c' = bucket c
     \<and> control_observation_deadline c' = control_observation_deadline c
     \<and> resolution_note c' = resolution_note c"

definition active :: "case_state \<Rightarrow> bool" where
  "active s \<longleftrightarrow> s \<in> {NOTICE_PENDING, NOTICE_SENT, RETRY_SCHEDULED, THROTTLED, RETRY_EXECUTED}"

definition final_states :: "case_state list" where
  "final_states = [RECOVERED, RECOVERED_NATURALLY, CONTROL_RECOVERED, CONTROL_STILL_FAILED, RESOLVED_BY_HUMAN]"

lemmas step_eval_simps =
  fsm_defs Let_def same_identity_def entry_ok_def flag_rules_def exec_count_def eval_count_def

lemma step_identity: "fsm_step cfg clk c es c' \<Longrightarrow> same_identity c c'"
  by (elim fsm_stepE)
     (auto simp: fsm_defs Let_def same_identity_def dest!: mark_notice_sent_Inr mark_notice_sent_Inl
        split: if_splits sum.splits bool.splits prod.splits)

lemma step_entries_case: "fsm_step cfg clk c es c' \<Longrightarrow> e \<in> set es \<Longrightarrow> ae_case_id e = case_id c"
  by (elim fsm_stepE)
     (auto simp: fsm_defs Let_def dest!: mark_notice_sent_Inr
        split: if_splits sum.splits bool.splits prod.splits)

lemma notice_failed_refused:
  assumes "chooser_ok bandit" and "schedule_ready cfg" and "valid_clock clk" and "0 \<le> retries_used c"
    and "mark_notice_sent c cfg clk wall wall' rcode prev bandit = (c', Inl e)"
  shows "c' = c \<and> state c \<noteq> NOTICE_PENDING"
  using mark_notice_sent_Inl [OF assms(5)] mark_notice_sent_ok [OF _ assms(4,2,3,1), of rcode wall' prev wall]
    assms(5) by auto

lemma path_failure:
  "handle_existing_failure c ev cfg clk wall = (c', ev', es, d) \<Longrightarrow> path (state c) es (state c')"
  by (auto simp: handle_existing_failure_def Let_def entry_ok_def flag_rules_def split: if_splits)

lemma path_success:
  "handle_payment_success c sev clk wall = (c', es, d) \<Longrightarrow> path (state c) es (state c')"
  by (auto simp: handle_payment_success_def Let_def entry_ok_def flag_rules_def split: if_splits)

lemma path_notice:
  "mark_notice_sent c cfg clk wall wall' rcode prev bandit = (c', Inr (es, d)) \<Longrightarrow> path (state c) es (state c')"
  by (auto dest!: mark_notice_sent_Inr simp: entry_ok_def)

lemma path_others:
  "mark_retry_executed c d clk wall = Inr (c', d', es) \<Longrightarrow> path (state c) es (state c')"
  "attempt_execution (\<lambda>_ _. ((), verdict)) () c d clk wall = (k, Inr (c', d', es, granted)) \<Longrightarrow> path (state c) es (state c')"
  "apply_throttle c clk wall = Inr (c', es) \<Longrightarrow> path (state c) es (state c')"
  "release_throttle c clk wall = Inr (c', es) \<Longrightarrow> path (state c) es (state c')"
  by (auto simp: fsm_defs Let_def entry_ok_def split: if_splits sum.splits bool.splits)

lemma step_path:
  assumes "fsm_step cfg clk c es c'" and "schedule_ready cfg" and "valid_clock clk" and "0 \<le> retries_used c"
  shows "path (state c) es (state c')"
  using assms(1)
proof cases
  case (notice_failed bandit wall wall' rcode prev e)
  with notice_failed_refused [OF notice_failed(2) assms(2-4) notice_failed(3)] show ?thesis by simp
qed (auto intro: path_failure path_success path_notice path_others)

text \<open>How the counters of a case move with the entries of a step.\<close>

definition counted :: "recovery_case \<Rightarrow> audit_entry list \<Rightarrow> recovery_case \<Rightarrow> bool" where
  "counted c es c' \<longleftrightarrow>
     retries_used c' = retries_used c + int (eval_count es)
     \<and> (eval_count es \<noteq> 0 \<longrightarrow> state c = RETRY_EXECUTED \<and> state c' \<in> {ESCALATED, NOTICE_PENDING} \<and> eval_count es = 1)
     \<and> exec_count es = (if state c = RETRY_SCHEDULED \<and> state c' = RETRY_EXECUTED then 1 else 0)
     \<and> (state c = RETRY_EXECUTED \<longrightarrow> eval_count es = 1 \<or> state c' \<in> {RETRY_EXECUTED, RECOVERED, CONTROL_RECOVERED})
     \<and> (state c' = RETRY_EXECUTED \<longrightarrow> state c \<in> {RETRY_EXECUTED, RETRY_SCHEDULED})
     \<and> (state c' = RECOVERED \<longrightarrow> state c \<in> {RECOVERED, RETRY_EXECUTED, ESCALATED, AFA_REQUIRED})"

lemma step_counted: "fsm_step cfg clk c es c' \<Longrightarrow> counted c es c'"
proof (erule fsm_stepE)
  fix ev wall ev' d
  assume "handle_existing_failure c ev cfg clk wall = (c', ev', es, d)"
  then show ?thesis
    by (auto simp: handle_existing_failure_def Let_def counted_def exec_count_def eval_count_def split: if_splits)
next
  fix sev wall d
  assume "handle_payment_success c sev clk wall = (c', es, d)"
  then show ?thesis
    by (auto simp: handle_payment_success_def Let_def counted_def exec_count_def eval_count_def split: if_splits)
next
  fix bandit wall wall' rcode prev d
  assume "mark_notice_sent c cfg clk wall wall' rcode prev bandit = (c', Inr (es, d))"
  then show ?thesis by (auto dest!: mark_notice_sent_Inr simp: counted_def exec_count_def eval_count_def)
next
  fix bandit wall wall' rcode prev e
  assume "es = []" "mark_notice_sent c cfg clk wall wall' rcode prev bandit = (c', Inl e)"
  then show ?thesis by (auto dest!: mark_notice_sent_Inl simp: counted_def exec_count_def eval_count_def)
qed (auto simp: fsm_defs Let_def counted_def exec_count_def eval_count_def split: if_splits sum.splits bool.splits)

lemma step_active:
  "fsm_step cfg clk c es c' \<Longrightarrow> active (state c') \<Longrightarrow>
   active (state c) \<and> (retries_used c' = retries_used c \<or> retries_used c' < max_retries (npci cfg))"
proof (erule fsm_stepE)
  fix ev wall ev' d
  assume "handle_existing_failure c ev cfg clk wall = (c', ev', es, d)" "active (state c')"
  then show ?thesis by (auto simp: handle_existing_failure_def Let_def active_def split: if_splits)
next
  fix sev wall d
  assume "handle_payment_success c sev clk wall = (c', es, d)" "active (state c')"
  then show ?thesis by (auto simp: handle_payment_success_def Let_def active_def split: if_splits)
next
  fix bandit wall wall' rcode prev d
  assume "mark_notice_sent c cfg clk wall wall' rcode prev bandit = (c', Inr (es, d))"
  then show ?thesis by (auto dest!: mark_notice_sent_Inr simp: active_def)
next
  fix bandit wall wall' rcode prev e
  assume "mark_notice_sent c cfg clk wall wall' rcode prev bandit = (c', Inl e)" "active (state c')"
  then show ?thesis by (auto dest!: mark_notice_sent_Inl simp: active_def)
qed (auto simp: fsm_defs Let_def active_def split: if_splits sum.splits bool.splits)

text \<open>Which states and outcomes a bucket allows.\<close>

definition bucket_inv :: "recovery_case \<Rightarrow> bool" where
  "bucket_inv c \<longleftrightarrow>
     bucket c = Some Control \<and> (state c, control_outcome c) \<in>
        {(CONTROL_HELD, Some Unknown), (CONTROL_RECOVERED, Some Recovered_naturally),
         (CONTROL_STILL_FAILED, Some Still_failed)}
     \<or> bucket c = Some Treatment \<and> control_outcome c = None
       \<and> (active (state c) \<or> state c \<in> {ESCALATED, AFA_REQUIRED, RECOVERED, RECOVERED_NATURALLY})"

lemma success_treatment:
  "handle_payment_success c sev clk wall = (c', es, d) \<Longrightarrow> bucket c \<noteq> Some Control \<Longrightarrow>
   bucket c' = bucket c \<and> control_outcome c' = control_outcome c
   \<and> (state c' = state c \<or> state c' = RECOVERED \<or> state c' = RECOVERED_NATURALLY)"
  by (auto simp: handle_payment_success_def Let_def split: if_splits)

lemma success_control:
  "handle_payment_success c sev clk wall = (c', es, d) \<Longrightarrow> bucket c = Some Control \<Longrightarrow>
   c' = c \<or> c' = c\<lparr>state := CONTROL_RECOVERED, control_outcome := Some Recovered_naturally\<rparr>"
  by (auto simp: handle_payment_success_def Let_def split: if_splits)

lemma success_bucket_inv:
  assumes "handle_payment_success c sev clk wall = (c', es, d)" and "bucket_inv c"
  shows "bucket_inv c'"
proof (cases "bucket c = Some Control")
  case True
  from success_control [OF assms(1) True] show ?thesis
    using assms(2) True by (elim disjE) (simp_all add: bucket_inv_def)
next
  case False
  from success_treatment [OF assms(1) False] False assms(2) show ?thesis
    unfolding bucket_inv_def by (elim conjE disjE) simp_all
qed

lemma failure_bucket_inv:
  assumes "handle_existing_failure c ev cfg clk wall = (c', ev', es, d)" and "bucket_inv c"
  shows "bucket_inv c'"
proof -
  consider "state c = CONTROL_HELD" | "state c = RETRY_EXECUTED" | "c' = c"
    using assms(1) by (auto simp: handle_existing_failure_def Let_def split: if_splits)
  then show ?thesis
  proof cases
    case 1
    with assms show ?thesis by (auto simp: handle_existing_failure_def Let_def bucket_inv_def active_def)
  next
    case 2
    with assms(2) have "bucket c = Some Treatment" "control_outcome c = None"
      by (auto simp: bucket_inv_def)
    moreover from 2 assms(1) have "bucket c' = bucket c" "control_outcome c' = control_outcome c"
      "state c' = ESCALATED \<or> state c' = NOTICE_PENDING"
      by (auto simp: handle_existing_failure_def Let_def split: if_splits)
    ultimately show ?thesis by (auto simp: bucket_inv_def active_def)
  next
    case 3
    with assms(2) show ?thesis by simp
  qed
qed

lemma bucket_inv_active:
  assumes "bucket_inv c" and "active (state c)" and "active s"
  shows "bucket_inv (c\<lparr>state := s\<rparr>)"
proof -
  from assms(1,2) have "bucket c = Some Treatment" "control_outcome c = None"
    by (auto simp: bucket_inv_def active_def)
  with assms(3) show ?thesis by (simp add: bucket_inv_def)
qed

lemma active_simps [simp]:
  "active NOTICE_PENDING" "active NOTICE_SENT" "active RETRY_SCHEDULED" "active THROTTLED" "active RETRY_EXECUTED"
  by (simp_all add: active_def)

lemma trigger_updates:
  "mark_notice_sent c cfg clk wall wall' rcode prev bandit = (c', r) \<Longrightarrow>
     c' = c \<or> active (state c) \<and> (\<exists>s. active s \<and> c' = c\<lparr>state := s\<rparr>)"
  "mark_retry_executed c d clk wall = Inr (c', d', es) \<Longrightarrow>
     c' = c \<or> active (state c) \<and> (\<exists>s. active s \<and> c' = c\<lparr>state := s\<rparr>)"
  "attempt_execution (\<lambda>_ _. ((), verdict)) () c d clk wall = (k, Inr (c', d', es, granted)) \<Longrightarrow>
     c' = c \<or> active (state c) \<and> (\<exists>s. active s \<and> c' = c\<lparr>state := s\<rparr>)"
  "apply_throttle c clk wall = Inr (c', es) \<Longrightarrow>
     c' = c \<or> active (state c) \<and> (\<exists>s. active s \<and> c' = c\<lparr>state := s\<rparr>)"
  "release_throttle c clk wall = Inr (c', es) \<Longrightarrow>
     c' = c \<or> active (state c) \<and> (\<exists>s. active s \<and> c' = c\<lparr>state := s\<rparr>)"
proof -
  assume "mark_notice_sent c cfg clk wall wall' rcode prev bandit = (c', r)"
  then show "c' = c \<or> active (state c) \<and> (\<exists>s. active s \<and> c' = c\<lparr>state := s\<rparr>)"
  proof (cases r)
    case (Inl e)
    with \<open>mark_notice_sent c cfg clk wall wall' rcode prev bandit = (c', r)\<close> show ?thesis
      by (auto dest!: mark_notice_sent_Inl intro: active_simps)
  next
    case (Inr p)
    with \<open>mark_notice_sent c cfg clk wall wall' rcode prev bandit = (c', r)\<close> show ?thesis
      by (cases p) (auto dest!: mark_notice_sent_Inr intro: active_simps)
  qed
next
  assume "mark_retry_executed c d clk wall = Inr (c', d', es)"
  then show "c' = c \<or> active (state c) \<and> (\<exists>s. active s \<and> c' = c\<lparr>state := s\<rparr>)"
    by (auto simp: mark_retry_executed_def Let_def intro: active_simps split: if_splits)
next
  assume "attempt_execution (\<lambda>_ _. ((), verdict)) () c d clk wall = (k, Inr (c', d', es, granted))"
  then show "c' = c \<or> active (state c) \<and> (\<exists>s. active s \<and> c' = c\<lparr>state := s\<rparr>)"
    by (auto simp: attempt_execution_def Let_def intro: active_simps split: if_splits sum.splits bool.splits)
next
  assume "apply_throttle c clk wall = Inr (c', es)"
  then show "c' = c \<or> active (state c) \<and> (\<exists>s. active s \<and> c' = c\<lparr>state := s\<rparr>)"
    by (auto simp: apply_throttle_def intro: active_simps split: if_splits)
next
  assume "release_throttle c clk wall = Inr (c', es)"
  then show "c' = c \<or> active (state c) \<and> (\<exists>s. active s \<and> c' = c\<lparr>state := s\<rparr>)"
    by (auto simp: release_throttle_def intro: active_simps split: if_splits)
qed

lemma step_bucket_inv: "fsm_step cfg clk c es c' \<Longrightarrow> bucket_inv c \<Longrightarrow> bucket_inv c'"
  by (erule fsm_stepE)
     (blast intro: failure_bucket_inv success_bucket_inv dest: trigger_updates intro: bucket_inv_active)+

section \<open>The opening of a case\<close>

definition under_some_ceiling :: "app_config \<Rightarrow> int \<Rightarrow> bool" where
  "under_some_ceiling cfg amount \<longleftrightarrow> (\<exists>(k, v) \<in> set (afa_free_ceiling (npci cfg)). amount \<le> v)"

lemma afa_ceiling_listed:
  "afa_ceiling cfg ev = Inr v \<Longrightarrow> amount \<le> v \<Longrightarrow> under_some_ceiling cfg amount"
  by (auto simp: afa_ceiling_def Let_def bindR_eq_Inr under_some_ceiling_def
      split: option.splits pyval.splits dest!: map_of_SomeD)

lemma afa_ceiling_cong: "fe_notes ev' = fe_notes ev \<Longrightarrow> afa_ceiling cfg ev' = afa_ceiling cfg ev"
  by (simp add: afa_ceiling_def)

definition opened_ok :: "app_config \<Rightarrow> recovery_case \<Rightarrow> audit_entry list \<Rightarrow> bool" where
  "opened_ok cfg c es \<longleftrightarrow>
     recovery_case_ok c \<and> retries_used c = 0 \<and> path RECEIVED es (state c)
     \<and> exec_count es = 0 \<and> eval_count es = 0 \<and> bucket_inv c
     \<and> state c \<in> {CONTROL_HELD, ESCALATED, AFA_REQUIRED, NOTICE_PENDING}
     \<and> (state c = NOTICE_PENDING \<longrightarrow> under_some_ceiling cfg (original_amount c))
     \<and> (\<forall>e \<in> set es. ae_case_id e = case_id c)"

text \<open>The two ways a failure opens a case.\<close>

definition opened_control :: "recovery_case \<Rightarrow> datetime \<Rightarrow> recovery_case \<Rightarrow> audit_entry list \<Rightarrow> bool" where
  "opened_control c0 now c es \<longleftrightarrow>
     is_control_case (case_id c0) 20
     \<and> (\<exists>dl. c = c0\<lparr>bucket := Some Control, state := CONTROL_HELD, control_outcome := Some Unknown,
                   control_observation_deadline := Some dl\<rparr>)
     \<and> es = [agent_entry c0 RECEIVED CLASSIFIED ''create_case'' now,
             agent_entry c0 CLASSIFIED CONTROL_HELD ''assign_bucket_control'' now]"

definition opened_treatment ::
  "recovery_case \<Rightarrow> datetime \<Rightarrow> case_state \<Rightarrow> string \<Rightarrow> recovery_case \<Rightarrow> audit_entry list \<Rightarrow> bool" where
  "opened_treatment c0 now st rule c es \<longleftrightarrow>
     \<not> is_control_case (case_id c0) 20
     \<and> c = c0\<lparr>bucket := Some Treatment, state := st\<rparr>
     \<and> es = [agent_entry c0 RECEIVED CLASSIFIED ''create_case'' now,
             agent_entry c0 CLASSIFIED TREATMENT ''assign_bucket_treatment'' now,
             agent_entry c0 TREATMENT st rule now]"

definition opening_choice :: "app_config \<Rightarrow> failure_event \<Rightarrow> recovery_case \<Rightarrow> case_state \<Rightarrow> string \<Rightarrow> bool" where
  "opening_choice cfg ev c0 st rule \<longleftrightarrow>
     st = ESCALATED \<and> rule = ''hard_decline''
       \<and> classify_failure cfg (reason_code ev) (error_reason ev) = (Business, False)
     \<or> classify_failure cfg (reason_code ev) (error_reason ev) = (Technical, True)
       \<and> (\<exists>v. afa_ceiling cfg ev = Inr v
            \<and> (st = AFA_REQUIRED \<and> rule = ''afa_threshold_exceeded'' \<and> v < original_amount c0
               \<or> st = NOTICE_PENDING \<and> rule = ''technical_decline'' \<and> original_amount c0 \<le> v))"

lemma handle_new_failure_cases:
  assumes "handle_new_failure ev cfg clk wall = Inr (c, ev', es, d)"
  shows "\<exists>mid c0. RecoveryCase (fe_case_id ev) mid (fe_instrument_id ev) (fe_amount ev) (clock_now clk wall) 0 RECEIVED = Inr c0
     \<and> (opened_control c0 (clock_now clk wall) c es
        \<or> (\<exists>st rule. opened_treatment c0 (clock_now clk wall) st rule c es \<and> opening_choice cfg ev c0 st rule))"
proof -
  let ?mid = "case fe_mandate_id ev of Some m \<Rightarrow> if m = [] then fe_case_id ev else m | None \<Rightarrow> fe_case_id ev"
  from assms obtain c0 where c0: "RecoveryCase (fe_case_id ev) ?mid (fe_instrument_id ev) (fe_amount ev)
      (clock_now clk wall) 0 RECEIVED = Inr c0"
    by (auto simp: handle_new_failure_def Let_def bindR_eq_Inr)
  have b: "bucket c0 = None" using c0 by (auto simp: RecoveryCase_def split: if_splits)
  have "opened_control c0 (clock_now clk wall) c es
        \<or> (\<exists>st rule. opened_treatment c0 (clock_now clk wall) st rule c es \<and> opening_choice cfg ev c0 st rule)"
  proof (cases "is_control_case (case_id c0) 20")
    case True
    with assms c0 b show ?thesis
      by (auto simp: handle_new_failure_def Let_def bindR_eq_Inr assign_bucket_def opened_control_def)
  next
    case False
    show ?thesis
    proof (cases "fst (classify_failure cfg (reason_code ev) (error_reason ev)) = Business")
      case True
      then have cls: "classify_failure cfg (reason_code ev) (error_reason ev) = (Business, False)"
        using classify_failure_cases [of cfg "reason_code ev" "error_reason ev"] by auto
      with assms c0 b False show ?thesis
        by (auto simp: handle_new_failure_def Let_def bindR_eq_Inr assign_bucket_def opened_treatment_def
            opening_choice_def)
    next
      case tech: False
      then have cls: "classify_failure cfg (reason_code ev) (error_reason ev) = (Technical, True)"
        using classify_failure_cases [of cfg "reason_code ev" "error_reason ev"] by auto
      with assms c0 b False obtain v where v: "afa_ceiling cfg ev = Inr v"
        by (auto simp: handle_new_failure_def Let_def bindR_eq_Inr assign_bucket_def
            afa_ceiling_cong [of "ev\<lparr>decline_class := Technical\<rparr>" ev])
      with assms c0 b False cls show ?thesis
        by (cases "original_amount c0 > v")
          (auto simp: handle_new_failure_def Let_def assign_bucket_def opened_treatment_def
            opening_choice_def afa_ceiling_cong [of "ev\<lparr>decline_class := Technical\<rparr>" ev])
    qed
  qed
  with c0 show ?thesis by blast
qed

lemma new_failure_opened:
  assumes "handle_new_failure ev cfg clk wall = Inr (c, ev', es, d)"
  shows "opened_ok cfg c es"
proof -
  obtain mid c0 where c0: "RecoveryCase (fe_case_id ev) mid (fe_instrument_id ev) (fe_amount ev)
      (clock_now clk wall) 0 RECEIVED = Inr c0"
    and rest: "opened_control c0 (clock_now clk wall) c es
        \<or> (\<exists>st rule. opened_treatment c0 (clock_now clk wall) st rule c es \<and> opening_choice cfg ev c0 st rule)"
    using handle_new_failure_cases [OF assms] by blast
  from c0 have ok: "recovery_case_ok c0" "retries_used c0 = 0" "control_outcome c0 = None"
    by (auto simp: RecoveryCase_def recovery_case_ok_def split: if_splits)
  from rest show ?thesis
  proof (elim disjE exE conjE)
    assume "opened_control c0 (clock_now clk wall) c es"
    with ok show ?thesis
      by (auto simp: opened_control_def opened_ok_def recovery_case_ok_def entry_ok_def exec_count_def
          eval_count_def bucket_inv_def)
  next
    fix st rule
    assume o: "opened_treatment c0 (clock_now clk wall) st rule c es" and ch: "opening_choice cfg ev c0 st rule"
    from ch have "st = ESCALATED \<or> st = AFA_REQUIRED \<or> st = NOTICE_PENDING \<and> under_some_ceiling cfg (original_amount c0)"
      by (auto simp: opening_choice_def dest: afa_ceiling_listed)
    with o ok show ?thesis
      by (elim disjE conjE)
        (simp_all add: opened_treatment_def opened_ok_def recovery_case_ok_def entry_ok_def exec_count_def
          eval_count_def bucket_inv_def active_def)
  qed
qed

end
