(* ===== verification/Samples.thy ===== *)
theory Samples
  imports State_Machine
begin

text \<open>
  A concrete failure and the case it opens, for the witnesses of the theorems about whole runs.  The
  bucket of a case is a SHA-256 digest, so this theory evaluates one digest in the kernel (about two
  minutes); nothing else in the development does.
\<close>

lemma sample_digest: "is_control_case ''p2'' 20 = False"
  by code_simp

definition sample_failure :: "string \<Rightarrow> failure_event" where
  "sample_failure cid =
     \<lparr>fe_case_id = cid, fe_payment_id = cid, attempt_number = 1, reason_code = Some ''network_timeout'',
      decline_class = Unclassified, fe_amount = 50000, received_at = 0, fe_mandate_id = Some ''m1'',
      fe_instrument_id = ''card_1'', error_reason = None, error_source = None, error_step = None,
      fe_notes = None\<rparr>"

definition sample_case :: "string \<Rightarrow> case_state \<Rightarrow> recovery_case" where
  "sample_case cid st =
     \<lparr>case_id = cid, mandate_id = ''m1'', instrument_id = ''card_1'', original_amount = 50000, opened_at = 0,
      retries_used = 0, state = st, bucket = Some Treatment, control_outcome = None,
      control_observation_deadline = None, resolution_note = None\<rparr>"

lemma sample_class:
  "classify_failure (shipped_config Prod) (Some ''network_timeout'') None = (Technical, True)"
  by code_simp

lemma sample_ceiling:
  "fe_notes ev = None \<Longrightarrow> afa_ceiling (shipped_config Prod) ev = Inr 1500000"
  by (simp add: afa_ceiling_def shipped_config_def)

lemma sample_opens:
  "\<exists>ev' es d. handle_new_failure (sample_failure ''p2'') (shipped_config Prod) RealClock 0
     = Inr (sample_case ''p2'' NOTICE_PENDING, ev', es, d)"
  by (simp add: handle_new_failure_def sample_failure_def sample_case_def sample_digest sample_class
      sample_ceiling RecoveryCase_def assign_bucket_def Let_def)

text \<open>Sending the notice of the sample case succeeds.\<close>

lemma sample_noticed:
  "\<exists>es d. mark_notice_sent (sample_case ''p2'' NOTICE_PENDING) (shipped_config Prod) RealClock 0 0 None None None
     = (sample_case ''p2'' RETRY_SCHEDULED, Inr (es, d)) \<and> rd_case_id d = ''p2'' \<and> rd_attempt_number d = 1"
  using mark_notice_sent_ok [of "sample_case ''p2'' NOTICE_PENDING" "shipped_config Prod" RealClock None None 0 None 0]
  by (auto simp: sample_case_def shipped_schedule_ready chooser_ok_def)

end
