(* ===== verification/Run_Properties.thy ===== *)
theory Run_Properties
  imports FSM_Runs Samples
begin

text \<open>
  The invariants of every case the state machine can reach, by rule induction over runs: the trail is
  a path of documented transitions, the retry cap, the control bucket, the ceiling, final states.
\<close>

section \<open>The invariant\<close>

definition exec_balanced :: "recovery_case \<Rightarrow> audit_entry list \<Rightarrow> bool" where
  "exec_balanced c trail \<longleftrightarrow>
     eval_count trail \<le> exec_count trail \<and> exec_count trail \<le> Suc (eval_count trail)
     \<and> (state c = RETRY_EXECUTED \<longrightarrow> exec_count trail = Suc (eval_count trail))
     \<and> (state c \<notin> {RETRY_EXECUTED, RECOVERED, CONTROL_RECOVERED} \<longrightarrow> exec_count trail = eval_count trail)"

definition retry_cap :: "app_config \<Rightarrow> int" where
  "retry_cap cfg = max 1 (max_retries (npci cfg))"

definition run_inv :: "app_config \<Rightarrow> recovery_case \<Rightarrow> audit_entry list \<Rightarrow> bool" where
  "run_inv cfg c trail \<longleftrightarrow>
     recovery_case_ok c \<and> retries_used c = int (eval_count trail) \<and> exec_balanced c trail
     \<and> retries_used c \<le> retry_cap cfg \<and> (active (state c) \<longrightarrow> retries_used c < retry_cap cfg)
     \<and> int (exec_count trail) \<le> retry_cap cfg
     \<and> bucket_inv c \<and> (active (state c) \<longrightarrow> under_some_ceiling cfg (original_amount c))
     \<and> (\<forall>e \<in> set trail. ae_case_id e = case_id c)"

lemma opened_run_inv: "opened_ok cfg c es \<Longrightarrow> run_inv cfg c es"
  by (auto simp: opened_ok_def run_inv_def exec_balanced_def retry_cap_def active_def)

text \<open>The states a case never leaves.\<close>

lemma final_failure:
  "handle_existing_failure c ev cfg clk wall = (c', ev', es, d) \<Longrightarrow> state c \<in> set final_states \<Longrightarrow>
   c' = c \<and> (\<forall>e \<in> set es. rule_fired e \<in> set flag_rules)"
  by (auto simp: handle_existing_failure_def Let_def final_states_def flag_rules_def split: if_splits)

lemma final_success:
  "handle_payment_success c sev clk wall = (c', es, d) \<Longrightarrow> state c \<in> set final_states \<Longrightarrow>
   c' = c \<and> (\<forall>e \<in> set es. rule_fired e \<in> set flag_rules)"
  by (auto simp: handle_payment_success_def Let_def final_states_def flag_rules_def split: if_splits)

lemma step_final:
  assumes "fsm_step cfg clk c es c'" and "state c \<in> set final_states"
  shows "c' = c \<and> (\<forall>e \<in> set es. rule_fired e \<in> set flag_rules)"
  using assms(1)
proof cases
  case failure
  then show ?thesis using assms(2) by (rule final_failure)
next
  case success
  then show ?thesis using assms(2) by (rule final_success)
next
  case notice
  with assms(2) show ?thesis by (auto dest!: mark_notice_sent_Inr simp: final_states_def)
next
  case notice_failed
  with assms(2) show ?thesis by (auto dest!: mark_notice_sent_Inl simp: final_states_def)
qed (use assms(2) in \<open>auto simp: mark_retry_executed_def attempt_execution_def apply_throttle_def
       release_throttle_def Let_def final_states_def split: if_splits\<close>)

lemma balanced_step:
  assumes "exec_balanced c trail" and "fsm_step cfg clk c es c'"
  shows "exec_balanced c' (trail @ es)"
proof -
  have counted: "counted c es c'" by (rule step_counted [OF assms(2)])
  show ?thesis
  proof (cases "eval_count es = 0")
    case True
    note none = True
    show ?thesis
    proof (cases "state c \<in> {RECOVERED, CONTROL_RECOVERED}")
      case True
      with step_final [OF assms(2)] have "c' = c" by (auto simp: final_states_def)
      moreover from counted True have "exec_count es = 0" by (auto simp: counted_def)
      ultimately show ?thesis using none assms(1) by (simp add: exec_balanced_def)
    next
      case False
      have e: "exec_count es = (if state c = RETRY_SCHEDULED \<and> state c' = RETRY_EXECUTED then 1 else 0)"
        and left: "state c = RETRY_EXECUTED \<Longrightarrow> state c' \<in> {RETRY_EXECUTED, RECOVERED, CONTROL_RECOVERED}"
        and enters: "state c' = RETRY_EXECUTED \<Longrightarrow> state c \<in> {RETRY_EXECUTED, RETRY_SCHEDULED}"
        using counted none by (simp_all add: counted_def)
      consider "state c = RETRY_SCHEDULED" "state c' = RETRY_EXECUTED" "exec_count es = 1"
        | "exec_count es = 0" "state c = RETRY_EXECUTED" "state c' \<in> {RETRY_EXECUTED, RECOVERED, CONTROL_RECOVERED}"
        | "exec_count es = 0" "state c \<noteq> RETRY_EXECUTED" "state c' \<noteq> RETRY_EXECUTED"
        using e left enters by (cases "state c = RETRY_EXECUTED"; cases "state c' = RETRY_EXECUTED") auto
      then show ?thesis using none assms(1) False by cases (auto simp: exec_balanced_def)
    qed
  next
    case False
    with counted assms(1) show ?thesis by (auto simp: exec_balanced_def counted_def)
  qed
qed

lemma step_run_inv:
  assumes "run_inv cfg c trail" and "fsm_step cfg clk c es c'"
  shows "run_inv cfg c' (trail @ es)"
proof -
  have same: "same_identity c c'" by (rule step_identity [OF assms(2)])
  have counted: "counted c es c'" by (rule step_counted [OF assms(2)])
  have used: "retries_used c' = int (eval_count (trail @ es))"
    using assms(1) counted by (simp add: run_inv_def counted_def)
  have cap: "retries_used c' \<le> retry_cap cfg"
  proof (cases "eval_count es = 0")
    case True
    with assms(1) counted show ?thesis by (simp add: run_inv_def counted_def)
  next
    case False
    with counted have "active (state c)" "eval_count es = 1" by (simp_all add: counted_def active_def)
    with assms(1) counted show ?thesis by (simp add: run_inv_def counted_def)
  qed
  have act: "active (state c') \<Longrightarrow> retries_used c' < retry_cap cfg \<and> active (state c)"
    using step_active [OF assms(2)] assms(1) by (auto simp: run_inv_def retry_cap_def)
  have exec: "int (exec_count (trail @ es)) \<le> retry_cap cfg"
  proof (cases "exec_count es = 0")
    case True
    with assms(1) show ?thesis by (simp add: run_inv_def)
  next
    case False
    with counted have one: "state c = RETRY_SCHEDULED" "exec_count es = 1"
      unfolding counted_def by presburger+
    moreover have "exec_balanced c trail" using assms(1) by (simp add: run_inv_def)
    ultimately have "exec_count trail = eval_count trail" "active (state c)"
      by (simp_all add: exec_balanced_def active_def)
    with one assms(1) show ?thesis by (simp add: run_inv_def)
  qed
  show ?thesis
    using assms(1) same used cap act exec balanced_step [OF _ assms(2)] step_bucket_inv [OF assms(2)]
      step_entries_case [OF assms(2)]
    by (auto simp: run_inv_def same_identity_def recovery_case_ok_def)
qed

lemma run_invariant: "fsm_run cfg clk c trail \<Longrightarrow> run_inv cfg c trail"
  by (induction rule: fsm_run.induct)
     (blast intro: opened_run_inv new_failure_opened step_run_inv)+

lemma run_path:
  assumes "fsm_run cfg clk c trail" and "schedule_ready cfg" and "valid_clock clk"
  shows "path RECEIVED trail (state c)"
  using assms(1)
proof (induction rule: fsm_run.induct)
  case (opened ev wall c ev' es d)
  then show ?case using new_failure_opened by (auto simp: opened_ok_def)
next
  case (stepped c trail es c')
  then have "0 \<le> retries_used c" using run_invariant by (force simp: run_inv_def)
  with stepped step_path [OF stepped.hyps(2) assms(2,3)] show ?case by (auto simp: path_append)
qed

section \<open>A sample run\<close>

lemma sample_run_opened:
  "\<exists>es. fsm_run (shipped_config Prod) RealClock (sample_case ''p2'' NOTICE_PENDING) es"
  using sample_opens fsm_run.opened by blast

lemma sample_run_scheduled:
  "\<exists>trail. fsm_run (shipped_config Prod) RealClock (sample_case ''p2'' RETRY_SCHEDULED) trail"
proof -
  obtain es where "fsm_run (shipped_config Prod) RealClock (sample_case ''p2'' NOTICE_PENDING) es"
    using sample_run_opened by blast
  moreover obtain es' d where "mark_notice_sent (sample_case ''p2'' NOTICE_PENDING) (shipped_config Prod)
      RealClock 0 0 None None None = (sample_case ''p2'' RETRY_SCHEDULED, Inr (es', d))"
    using sample_noticed by blast
  ultimately show ?thesis
    using fsm_run.stepped fsm_step.notice [of None] by (fastforce simp: chooser_ok_def)
qed

lemma sample_run_executed:
  "\<exists>trail. fsm_run (shipped_config Prod) RealClock (sample_case ''p2'' RETRY_EXECUTED) trail"
proof -
  obtain trail where run: "fsm_run (shipped_config Prod) RealClock (sample_case ''p2'' RETRY_SCHEDULED) trail"
    using sample_run_scheduled by blast
  have "\<exists>d' es. mark_retry_executed (sample_case ''p2'' RETRY_SCHEDULED) d RealClock 0
      = Inr (sample_case ''p2'' RETRY_EXECUTED, d', es)" for d
    by (simp add: mark_retry_executed_def sample_case_def)
  with run show ?thesis using fsm_run.stepped fsm_step.executed by blast
qed

section \<open>The properties\<close>

text \<open>
  C1. The retry cap: in every run, under every configuration, clock, sequence of webhooks, notices,
  commit verdicts and throttles, the number of retries executed is at most the configured maximum
  (one, when the maximum is below one), the counter \<open>retries_used\<close> is exactly the number of
  evaluated executions, at most one execution is not yet evaluated, and a case that can still act is
  below the cap.
\<close>

theorem retry_cap_respected:
  assumes "fsm_run cfg clk c trail"
  shows "int (exec_count trail) \<le> max 1 (max_retries (npci cfg))
     \<and> retries_used c = int (eval_count trail)
     \<and> eval_count trail \<le> exec_count trail \<and> exec_count trail \<le> eval_count trail + 1
     \<and> (state c = RETRY_EXECUTED \<longrightarrow> exec_count trail = eval_count trail + 1)
     \<and> (active (state c) \<longrightarrow> retries_used c < max 1 (max_retries (npci cfg)))"
  using run_invariant [OF assms] by (auto simp: run_inv_def exec_balanced_def retry_cap_def)

theorem retry_cap_respected_witness:
  "\<exists>trail. fsm_run (shipped_config Prod) RealClock (sample_case ''p2'' RETRY_EXECUTED) trail
     \<and> exec_count trail = 1 \<and> eval_count trail = 0"
proof -
  obtain trail where run: "fsm_run (shipped_config Prod) RealClock (sample_case ''p2'' RETRY_EXECUTED) trail"
    using sample_run_executed by blast
  with retry_cap_respected [OF run] show ?thesis by (auto simp: sample_case_def)
qed



definition control_states :: "case_state set" where
  "control_states = {CLASSIFIED, CONTROL_HELD, CONTROL_RECOVERED, CONTROL_STILL_FAILED}"

definition bucket_of :: "string \<Rightarrow> bucket_name" where
  "bucket_of cid = (if is_control_case cid 20 then Control else Treatment)"

lemma opened_bucket:
  assumes "handle_new_failure ev cfg clk wall = Inr (c, ev', es, d)"
  shows "bucket c = Some (bucket_of (case_id c))
    \<and> (bucket c = Some Control \<longrightarrow> (\<forall>e \<in> set es. to_state e \<in> control_states))"
  using handle_new_failure_cases [OF assms]
  by (auto simp: opened_control_def opened_treatment_def bucket_of_def control_states_def)

lemma control_not_active: "bucket_inv c \<Longrightarrow> bucket c = Some Control \<Longrightarrow> \<not> active (state c)"
  by (auto simp: bucket_inv_def active_def)

lemma step_control:
  assumes "fsm_step cfg clk c es c'" and "bucket_inv c" and "bucket c = Some Control"
  shows "\<forall>e \<in> set es. to_state e \<in> control_states"
proof -
  from assms(2,3) have st: "state c \<in> {CONTROL_HELD, CONTROL_RECOVERED, CONTROL_STILL_FAILED}"
    by (auto simp: bucket_inv_def)
  from assms(1) show ?thesis
  proof cases
    case failure
    with st show ?thesis
      by (auto simp: handle_existing_failure_def Let_def control_states_def split: if_splits)
  next
    case success
    with st assms(3) show ?thesis
      by (auto simp: handle_payment_success_def Let_def control_states_def split: if_splits)
  next
    case notice
    with st show ?thesis by (auto dest!: mark_notice_sent_Inr)
  qed (use st in \<open>auto simp: mark_retry_executed_def attempt_execution_def apply_throttle_def
         release_throttle_def split: if_splits\<close>)
qed

lemma run_bucket:
  "fsm_run cfg clk c trail \<Longrightarrow>
   bucket c = Some (bucket_of (case_id c))
   \<and> (bucket c = Some Control \<longrightarrow> (\<forall>e \<in> set trail. to_state e \<in> control_states))"
proof (induction rule: fsm_run.induct)
  case opened
  then show ?case by (rule opened_bucket)
next
  case (stepped c trail es c')
  moreover have "bucket_inv c" using run_invariant [OF stepped.hyps(1)] by (simp add: run_inv_def)
  ultimately show ?case
    using step_identity [OF stepped.hyps(2)] step_control [OF stepped.hyps(2)]
    by (auto simp: same_identity_def)
qed

text \<open>
  C2. The control bucket is a real control group: in every run the bucket of a case is the function of
  its id that the SHA-256 draw fixes, it never changes, a control case is only ever held, recovered by
  itself or still failed, with the outcome that says which, and no entry of its trail sends a notice,
  schedules, throttles or executes anything; a treatment case never gets a control outcome.
\<close>

theorem control_cases_untouched:
  assumes "fsm_run cfg clk c trail"
  shows "bucket c = Some (if is_control_case (case_id c) 20 then Control else Treatment)
     \<and> (is_control_case (case_id c) 20 \<longrightarrow>
          (\<forall>e \<in> set trail. to_state e \<in> {CLASSIFIED, CONTROL_HELD, CONTROL_RECOVERED, CONTROL_STILL_FAILED})
          \<and> (state c, control_outcome c) \<in>
              {(CONTROL_HELD, Some Unknown), (CONTROL_RECOVERED, Some Recovered_naturally),
               (CONTROL_STILL_FAILED, Some Still_failed)})
     \<and> (\<not> is_control_case (case_id c) 20 \<longrightarrow> control_outcome c = None)"
  using run_bucket [OF assms] run_invariant [OF assms]
  by (auto simp: bucket_of_def control_states_def run_inv_def bucket_inv_def split: if_splits)

theorem control_cases_untouched_witness:
  "\<exists>trail. fsm_run (shipped_config Prod) RealClock (sample_case ''p2'' RETRY_EXECUTED) trail
     \<and> \<not> is_control_case ''p2'' 20"
proof -
  obtain trail where run: "fsm_run (shipped_config Prod) RealClock (sample_case ''p2'' RETRY_EXECUTED) trail"
    using sample_run_executed by blast
  with control_cases_untouched [OF run] show ?thesis by (auto simp: sample_case_def split: if_splits)
qed

text \<open>
  C16. A closed case stays closed: once a run has recovered a case, naturally or by the agent, or
  ended its control observation, no later call changes any field of it; later webhooks leave one flag
  entry each.
\<close>

theorem closed_case_absorbing:
  assumes "fsm_run cfg clk c trail" and "fsm_step cfg clk c es c'"
    and "state c \<in> {RECOVERED, RECOVERED_NATURALLY, CONTROL_RECOVERED, CONTROL_STILL_FAILED}"
  shows "c' = c \<and> (\<forall>e \<in> set es. from_state e = state c \<and> to_state e = state c
            \<and> rule_fired e \<in> {''amount_mismatch_on_success'', ''unexpected_success_event'', ''unexpected_failure_event''})"
proof -
  from assms(3) have fin: "state c \<in> set final_states" by (auto simp: final_states_def)
  have stays: "\<forall>e \<in> set es. from_state e = state c \<and> to_state e = state c"
    using assms(2)
  proof cases
    case failure
    with assms(3) show ?thesis by (auto simp: handle_existing_failure_def Let_def split: if_splits)
  next
    case success
    with assms(3) show ?thesis by (auto simp: handle_payment_success_def Let_def split: if_splits)
  next
    case notice
    with assms(3) show ?thesis by (auto dest!: mark_notice_sent_Inr)
  qed (use assms(3) in \<open>auto simp: mark_retry_executed_def attempt_execution_def apply_throttle_def
         release_throttle_def split: if_splits\<close>)
  with step_final [OF assms(2) fin] show ?thesis by (simp add: flag_rules_def)
qed

definition sample_success :: "int \<Rightarrow> success_event" where
  "sample_success amount =
     \<lparr>se_case_id = ''p2'', se_payment_id = ''p3'', se_amount = amount, captured_at = 0, matched_attempt_number = None\<rparr>"

lemma sample_run_recovered:
  "\<exists>trail. fsm_run (shipped_config Prod) RealClock (sample_case ''p2'' RECOVERED) trail"
proof -
  obtain trail where run: "fsm_run (shipped_config Prod) RealClock (sample_case ''p2'' RETRY_EXECUTED) trail"
    using sample_run_executed by blast
  have "\<exists>es d. handle_payment_success (sample_case ''p2'' RETRY_EXECUTED) (sample_success 50000) RealClock 0
      = (sample_case ''p2'' RECOVERED, es, d)"
    by (simp add: handle_payment_success_def sample_case_def sample_success_def)
  with run show ?thesis using fsm_run.stepped fsm_step.success by blast
qed

theorem closed_case_absorbing_witness:
  "\<exists>es. fsm_step (shipped_config Prod) RealClock (sample_case ''p2'' RECOVERED) es (sample_case ''p2'' RECOVERED)
     \<and> length es = 1 \<and> (\<forall>e \<in> set es. to_state e = RECOVERED)"
proof -
  obtain trail where run: "fsm_run (shipped_config Prod) RealClock (sample_case ''p2'' RECOVERED) trail"
    using sample_run_recovered by blast
  obtain es d where es: "handle_payment_success (sample_case ''p2'' RECOVERED) (sample_success 50000) RealClock 0
      = (sample_case ''p2'' RECOVERED, es, d)" "length es = 1"
    by (simp add: handle_payment_success_def sample_case_def sample_success_def)
  then have step: "fsm_step (shipped_config Prod) RealClock (sample_case ''p2'' RECOVERED) es (sample_case ''p2'' RECOVERED)"
    using fsm_step.success by blast
  with closed_case_absorbing [OF run step] es(2) show ?thesis by (auto simp: sample_case_def)
qed

text \<open>
  C17. What a success event does, in every state: exactly one entry is written, for this case, starting
  in its state; the case changes only when the amount is the case's original amount; a control case
  then closes only from CONTROL_HELD; a treatment case closes as RECOVERED only from an executed retry,
  an escalation or an AFA wait, and as RECOVERED_NATURALLY from every state before the execution; no
  other field of the case changes.
\<close>

theorem success_closes_only_matching:
  "\<exists>c' e. handle_payment_success c ev clk wall = (c', [e], None)
     \<and> ae_case_id e = case_id c \<and> from_state e = state c \<and> to_state e = state c' \<and> timestamp e = clock_now clk wall
     \<and> (se_amount ev \<noteq> original_amount c \<longrightarrow> c' = c \<and> rule_fired e = ''amount_mismatch_on_success'')
     \<and> (state c' \<noteq> state c \<longrightarrow> se_amount ev = original_amount c)
     \<and> (se_amount ev = original_amount c \<longrightarrow>
          (bucket c = Some Control \<longrightarrow>
             c' = (if state c = CONTROL_HELD
                   then c\<lparr>state := CONTROL_RECOVERED, control_outcome := Some Recovered_naturally\<rparr> else c))
          \<and> (bucket c \<noteq> Some Control \<longrightarrow>
             c' = (if state c \<in> {RETRY_EXECUTED, ESCALATED, AFA_REQUIRED} then c\<lparr>state := RECOVERED\<rparr>
                   else if state c \<in> {NOTICE_PENDING, NOTICE_SENT, RETRY_SCHEDULED, THROTTLED}
                   then c\<lparr>state := RECOVERED_NATURALLY\<rparr> else c)))"
  by (simp add: handle_payment_success_def Let_def)

theorem success_closes_only_matching_witness:
  "\<exists>e. handle_payment_success (sample_case ''p2'' RETRY_EXECUTED) (sample_success 50000) RealClock 0
       = (sample_case ''p2'' RECOVERED, [e], None) \<and> to_state e = RECOVERED"
  using success_closes_only_matching
    [of "sample_case ''p2'' RETRY_EXECUTED" "sample_success 50000" RealClock 0]
  by (auto simp: sample_case_def sample_success_def)

theorem mark_notice_sent_correct_witness:
  "\<exists>es d. mark_notice_sent (sample_case ''p2'' NOTICE_PENDING) (shipped_config Prod) RealClock 0 0 None None None
       = (sample_case ''p2'' RETRY_SCHEDULED, Inr (es, d))
     \<and> hours 24 \<le> rd_scheduled_at d \<and> \<not> in_blackout (shipped_config Prod) (rd_scheduled_at d)"
proof -
  have "state (sample_case ''p2'' NOTICE_PENDING) = NOTICE_PENDING" "0 \<le> retries_used (sample_case ''p2'' NOTICE_PENDING)"
    "(sample_case ''p2'' NOTICE_PENDING)\<lparr>state := RETRY_SCHEDULED\<rparr> = sample_case ''p2'' RETRY_SCHEDULED"
    "notice_lead_time (npci (shipped_config Prod)) = hours 24"
    by (simp_all add: sample_case_def shipped_config_def)
  moreover have "chooser_ok None" by (simp add: chooser_ok_def)
  ultimately show ?thesis
    using mark_notice_sent_correct
      [of "sample_case ''p2'' NOTICE_PENDING" "shipped_config Prod" RealClock None 0 0 None None]
    by (fastforce simp: shipped_schedule_ready)
qed

text \<open>
  C18. What the first failure of a case does.  For a well-formed event with a readable category, the
  call always returns: a case of the event's id and amount, opened now, with no retry used.  The draw
  on its id alone decides the bucket.  A treatment case is escalated if the decline is not
  retryable, waits for additional authentication if its amount exceeds the ceiling of its category,
  and otherwise has its notice pending; a control case is held until the observation window ends.
\<close>

theorem first_failure_opens_case:
  assumes "failure_event_ok ev" and "fe_instrument_id ev \<noteq> []" and "valid_clock clk"
    and "0 \<le> control_observation_window (self_imposed cfg)" and "afa_ceiling cfg ev = Inr limit"
  shows "\<exists>c ev' es. handle_new_failure ev cfg clk wall = Inr (c, ev', es, None)
     \<and> recovery_case_ok c \<and> case_id c = fe_case_id ev \<and> original_amount c = fe_amount ev
     \<and> opened_at c = clock_now clk wall \<and> retries_used c = 0
     \<and> ev' = ev\<lparr>decline_class := fst (classify_failure cfg (reason_code ev) (error_reason ev))\<rparr>
     \<and> state c = (if is_control_case (fe_case_id ev) 20 then CONTROL_HELD
                  else if \<not> snd (classify_failure cfg (reason_code ev) (error_reason ev)) then ESCALATED
                  else if limit < fe_amount ev then AFA_REQUIRED else NOTICE_PENDING)
     \<and> (is_control_case (fe_case_id ev) 20 \<longrightarrow>
          (\<exists>dl. control_observation_deadline c = Some dl \<and> clock_now clk wall \<le> dl))
     \<and> map to_state es = (if is_control_case (fe_case_id ev) 20 then [CLASSIFIED, CONTROL_HELD]
                         else [CLASSIFIED, TREATMENT, state c])"
proof -
  let ?mid = "case fe_mandate_id ev of Some m \<Rightarrow> if m = [] then fe_case_id ev else m | None \<Rightarrow> fe_case_id ev"
  have mid: "?mid \<noteq> []" using assms(1) by (auto simp: failure_event_ok_def split: option.splits)
  obtain d where d: "resolve_delay clk (control_observation_window (self_imposed cfg)) = Inr d" "0 \<le> d"
    using clk.resolved [OF assms(3,4)] by blast
  have ceil: "afa_ceiling cfg (ev\<lparr>decline_class := x\<rparr>) = Inr limit" for x
    using assms(5) by (simp add: afa_ceiling_cong [of "ev\<lparr>decline_class := x\<rparr>" ev])
  have cls: "fst (classify_failure cfg (reason_code ev) (error_reason ev)) = Business
      \<longleftrightarrow> \<not> snd (classify_failure cfg (reason_code ev) (error_reason ev))"
    using classify_failure_cases [of cfg "reason_code ev" "error_reason ev"] by auto
  show ?thesis
    using assms(1,2) mid d ceil cls
    by (simp add: handle_new_failure_def Let_def RecoveryCase_def failure_event_ok_def assign_bucket_def
        recovery_case_ok_def)
qed

theorem first_failure_opens_case_witness:
  "\<exists>c ev' es. handle_new_failure (sample_failure ''p2'') (shipped_config Prod) RealClock 7 = Inr (c, ev', es, None)
     \<and> state c = NOTICE_PENDING \<and> opened_at c = 7"
proof -
  have "failure_event_ok (sample_failure ''p2'')" "fe_instrument_id (sample_failure ''p2'') \<noteq> []"
    "0 \<le> control_observation_window (self_imposed (shipped_config Prod))"
    "afa_ceiling (shipped_config Prod) (sample_failure ''p2'') = Inr 1500000"
    by (simp_all add: failure_event_ok_def sample_failure_def sample_ceiling) (simp add: shipped_config_def)
  from first_failure_opens_case [OF this(1,2) _ this(3,4), of RealClock 7] show ?thesis
    by (fastforce simp: sample_failure_def sample_digest sample_class)
qed

text \<open>
  A throttle cycle is neutral: from a scheduled retry, throttling and releasing succeed whatever
  the times, give back the very same case, counter included, and leave the two entries of the cycle;
  in every other state throttling raises ValueError, and releasing does so outside THROTTLED.
\<close>

theorem throttle_cycle_neutral:
  "(if state c = RETRY_SCHEDULED
    then \<exists>e e'. apply_throttle c clk wall = Inr (c\<lparr>state := THROTTLED\<rparr>, [e])
           \<and> release_throttle (c\<lparr>state := THROTTLED\<rparr>) clk wall' = Inr (c, [e'])
           \<and> (from_state e, to_state e) = (RETRY_SCHEDULED, THROTTLED)
           \<and> (from_state e', to_state e') = (THROTTLED, RETRY_SCHEDULED)
           \<and> release_throttle c clk wall' = Inl ValueError
    else apply_throttle c clk wall = Inl ValueError
         \<and> (state c = THROTTLED \<or> release_throttle c clk wall' = Inl ValueError))"
  by (auto simp: apply_throttle_def release_throttle_def Let_def)

end
