(* ===== verification/Guards.thy ===== *)
theory Guards
  imports PyTime Prelude
begin

text \<open>
  The three time-based guards: \<^verbatim>\<open>app/core/dnd.py\<close> (no notices at night), \<^verbatim>\<open>app/core/throttle.py\<close> (a
  minimum gap per instrument) and \<^verbatim>\<open>app/core/distress.py\<close> (a sliding-window count of failures per
  instrument).
\<close>

section \<open>Do-not-disturb hours\<close>

definition dnd_start :: clock_time where "dnd_start = mk_time 21 0"
definition dnd_end :: clock_time where "dnd_end = mk_time 9 0"

definition is_dnd_hour :: "datetime \<Rightarrow> bool" where
  "is_dnd_hour now =
     (let local_time = time_of (astimezone_ist now) in local_time \<ge> dnd_start \<or> local_time < dnd_end)"

text \<open>
  Do-not-disturb hours are exactly the twelve hours from 21:00 to 09:00 Indian time: an instant is
  in them if and only if its Indian wall-clock hour is 21 or later or before 9, shifting by twelve
  hours always flips the answer, and the pattern repeats every day.
\<close>

theorem is_dnd_hour_spec:
  "(is_dnd_hour now \<longleftrightarrow> time_hour (time_of (astimezone_ist now)) \<notin> {9..20})
   \<and> (is_dnd_hour (now + hours 12) \<longleftrightarrow> \<not> is_dnd_hour now)
   \<and> (is_dnd_hour (now + hours 24) \<longleftrightarrow> is_dnd_hour now)"
proof -
  define l where "l = time_of (astimezone_ist now)"
  have l: "0 \<le> l" "l < 86400000000"
    using time_of_bounds [of "astimezone_ist now"] by (simp_all add: l_def usec_per_day_def)
  have twelve: "time_of (astimezone_ist (now + hours 12)) = (l + 43200000000) mod 86400000000"
    by (simp add: l_def time_of_def astimezone_ist_def hours_def usec_defs algebra_simps mod_add_right_eq)
  have shift: "(l + 43200000000) mod 86400000000 = (if l < 43200000000 then l + 43200000000 else l - 43200000000)"
  proof (cases "l < 43200000000")
    case True
    then show ?thesis using l by simp
  next
    case False
    have "(l + 43200000000) mod 86400000000 = (l - 43200000000 + 86400000000) mod 86400000000"
      by (rule arg_cong [where f = "\<lambda>x. x mod 86400000000"]) simp
    also have "\<dots> = (l - 43200000000) mod 86400000000" by (rule mod_add_self2)
    also have "\<dots> = l - 43200000000" using False l by (intro mod_pos_pos_trivial) linarith+
    finally show ?thesis using False by simp
  qed
  have day: "time_of (astimezone_ist (now + hours 24)) = l"
    using time_of_add_day [of "astimezone_ist now"] by (simp add: l_def astimezone_ist_def algebra_simps)
  have dnd: "is_dnd_hour t \<longleftrightarrow>
      time_of (astimezone_ist t) \<ge> 75600000000 \<or> time_of (astimezone_ist t) < 32400000000" for t
    by (simp add: is_dnd_hour_def Let_def dnd_start_def dnd_end_def mk_time_def usec_defs)
  have "is_dnd_hour now \<longleftrightarrow> l \<ge> 75600000000 \<or> l < 32400000000"
    by (simp add: dnd l_def)
  moreover have "time_hour l \<in> {9..20} \<longleftrightarrow> \<not> (l \<ge> 75600000000 \<or> l < 32400000000)"
    using l by (auto simp: time_hour_def usec_per_hour_def)
  moreover have "is_dnd_hour (now + hours 12) \<longleftrightarrow> \<not> (l \<ge> 75600000000 \<or> l < 32400000000)"
    using l by (auto simp: dnd twelve shift)
  moreover have "is_dnd_hour (now + hours 24) \<longleftrightarrow> l \<ge> 75600000000 \<or> l < 32400000000"
    by (simp add: dnd day)
  ultimately show ?thesis by (simp add: l_def)
qed

section \<open>Instrument throttle\<close>

record instrument_throttle =
  min_gap :: timedelta
  last_action :: "(string, datetime) dict"

definition InstrumentThrottle :: "timedelta \<Rightarrow> instrument_throttle" where
  "InstrumentThrottle gap = \<lparr>min_gap = gap, last_action = []\<rparr>"

definition is_allowed :: "instrument_throttle \<Rightarrow> string \<Rightarrow> datetime \<Rightarrow> bool" where
  "is_allowed t instr now =
     (case dict_get (last_action t) instr of None \<Rightarrow> True | Some prev \<Rightarrow> now - prev \<ge> min_gap t)"

definition record_action :: "instrument_throttle \<Rightarrow> string \<Rightarrow> datetime \<Rightarrow> instrument_throttle" where
  "record_action t instr now = t\<lparr>last_action := dict_set instr now (last_action t)\<rparr>"

text \<open>
  A caller that asks before it acts: it records exactly the requests that are allowed, and the
  result lists them in order.
\<close>

fun throttled_run ::
  "instrument_throttle \<Rightarrow> (string \<times> datetime) list \<Rightarrow> instrument_throttle \<times> (string \<times> datetime) list" where
  "throttled_run t [] = (t, [])"
| "throttled_run t ((i, now) # rs) =
     (if is_allowed t i now
      then let (t', acts) = throttled_run (record_action t i now) rs in (t', (i, now) # acts)
      else throttled_run t rs)"

definition actions_of :: "string \<Rightarrow> (string \<times> datetime) list \<Rightarrow> datetime list" where
  "actions_of i acts = map snd (filter (\<lambda>a. fst a = i) acts)"

fun spaced :: "timedelta \<Rightarrow> datetime list \<Rightarrow> bool" where
  "spaced gap (a # b # ts) = (a + gap \<le> b \<and> spaced gap (b # ts))"
| "spaced gap _ = True"

lemma spaced_Cons: "spaced gap (a # ts) \<longleftrightarrow> (ts = [] \<or> a + gap \<le> hd ts) \<and> spaced gap ts"
  by (cases ts) auto

lemma throttled_run_spaced:
  "spaced (min_gap t) (case dict_get (last_action t) i of
       None \<Rightarrow> actions_of i (snd (throttled_run t rs))
     | Some l \<Rightarrow> l # actions_of i (snd (throttled_run t rs)))"
proof (induction rs arbitrary: t)
  case Nil
  then show ?case by (simp add: actions_of_def split: option.split)
next
  case (Cons r rs)
  obtain j now where r: "r = (j, now)" by (cases r)
  show ?case
  proof (cases "is_allowed t j now")
    case False
    then have "throttled_run t (r # rs) = throttled_run t rs" by (simp add: r)
    with Cons.IH [of t] show ?thesis by (simp only:)
  next
    case True
    let ?t = "record_action t j now"
    have gap: "min_gap ?t = min_gap t" by (simp add: record_action_def)
    have last: "dict_get (last_action ?t) i = (if i = j then Some now else dict_get (last_action t) i)"
      by (simp add: record_action_def)
    show ?thesis
    proof (cases "i = j")
      case False
      then have "actions_of i (snd (throttled_run t (r # rs))) = actions_of i (snd (throttled_run ?t rs))"
        using True by (simp add: r actions_of_def split: prod.split)
      with Cons.IH [of ?t] False gap last show ?thesis by (simp split: option.splits)
    next
      case eq: True
      then have acts: "actions_of i (snd (throttled_run t (r # rs))) = now # actions_of i (snd (throttled_run ?t rs))"
        using True by (simp add: r actions_of_def split: prod.split)
      from Cons.IH [of ?t] eq gap last
      have tail: "spaced (min_gap t) (now # actions_of i (snd (throttled_run ?t rs)))" by simp
      show ?thesis
      proof (cases "dict_get (last_action t) i")
        case None
        with acts tail show ?thesis by simp
      next
        case (Some l)
        with True eq have "l + min_gap t \<le> now" by (simp add: is_allowed_def)
        with Some acts tail show ?thesis by simp
      qed
    qed
  qed
qed

text \<open>
  A caller that consults the instrument throttle before each action and records the actions it
  takes never acts twice on the same instrument within the minimum gap, whatever the order and the
  instruments of its requests, and a first action on an instrument is always allowed.
\<close>

theorem throttle_enforces_gap:
  "spaced gap (actions_of i (snd (throttled_run (InstrumentThrottle gap) rs)))
   \<and> is_allowed (InstrumentThrottle gap) i now"
  using throttled_run_spaced [of "InstrumentThrottle gap" i rs]
  by (simp add: InstrumentThrottle_def is_allowed_def)

section \<open>Distress detector\<close>

record distress_detector =
  dd_window :: timedelta
  dd_threshold :: int
  dd_failures :: "(string, datetime list) dict"

definition DistressDetector :: "timedelta \<Rightarrow> int \<Rightarrow> distress_detector" where
  "DistressDetector w n = \<lparr>dd_window = w, dd_threshold = n, dd_failures = []\<rparr>"

definition record_failure_at :: "distress_detector \<Rightarrow> string \<Rightarrow> datetime \<Rightarrow> distress_detector" where
  "record_failure_at d instr now =
     (let old = (case dict_get (dd_failures d) instr of None \<Rightarrow> [] | Some ts \<Rightarrow> ts);
          cutoff = now - dd_window d
      in d\<lparr>dd_failures := dict_set instr (filter (\<lambda>t. t \<ge> cutoff) (old @ [now])) (dd_failures d)\<rparr>)"

definition recent_failures :: "distress_detector \<Rightarrow> string \<Rightarrow> datetime \<Rightarrow> datetime list" where
  "recent_failures d instr now =
     filter (\<lambda>t. t \<ge> now - dd_window d) (case dict_get (dd_failures d) instr of None \<Rightarrow> [] | Some ts \<Rightarrow> ts)"

definition is_distressed :: "distress_detector \<Rightarrow> string \<Rightarrow> datetime \<Rightarrow> bool" where
  "is_distressed d instr now \<longleftrightarrow> int (length (recent_failures d instr now)) \<ge> dd_threshold d"

definition failure_count :: "distress_detector \<Rightarrow> string \<Rightarrow> datetime \<Rightarrow> int" where
  "failure_count d instr now = int (length (recent_failures d instr now))"

definition record_all :: "distress_detector \<Rightarrow> (string \<times> datetime) list \<Rightarrow> distress_detector" where
  "record_all d evs = foldl (\<lambda>d (i, t). record_failure_at d i t) d evs"

lemma record_all_snoc: "record_all d (evs @ [(i, t)]) = record_failure_at (record_all d evs) i t"
  by (simp add: record_all_def)

lemma record_failure_at_params [simp]:
  "dd_window (record_failure_at d i t) = dd_window d"
  "dd_threshold (record_failure_at d i t) = dd_threshold d"
  by (simp_all add: record_failure_at_def Let_def)

lemma record_all_params [simp]:
  "dd_window (record_all d evs) = dd_window d" "dd_threshold (record_all d evs) = dd_threshold d"
  by (induction evs rule: rev_induct) (auto simp: record_all_def split: prod.split)

lemma recent_failures_record:
  "recent_failures (record_failure_at d i t) j now =
     (if j = i
      then filter (\<lambda>u. u \<ge> now - dd_window d \<and> u \<ge> t - dd_window d)
             ((case dict_get (dd_failures d) i of None \<Rightarrow> [] | Some ts \<Rightarrow> ts) @ [t])
      else recent_failures d j now)"
  by (auto simp: recent_failures_def record_failure_at_def Let_def intro!: filter_cong)

lemma recent_failures_record_later:
  assumes "t \<le> now"
  shows "recent_failures (record_failure_at d i t) j now =
     recent_failures d j now @ (if j = i \<and> t \<ge> now - dd_window d then [t] else [])"
proof -
  have "u \<ge> now - dd_window d \<and> u \<ge> t - dd_window d \<longleftrightarrow> u \<ge> now - dd_window d" for u
    using assms by auto
  moreover have "t \<ge> now - dd_window d \<and> 0 \<le> dd_window d \<longleftrightarrow> t \<ge> now - dd_window d"
    using assms by auto
  ultimately show ?thesis by (simp add: recent_failures_record) (simp add: recent_failures_def)
qed

lemma recent_failures_history:
  "sorted (map snd evs) \<Longrightarrow> (\<forall>e \<in> set evs. snd e \<le> now) \<Longrightarrow>
   recent_failures (record_all (DistressDetector w n) evs) i now =
     filter (\<lambda>t. t \<ge> now - w) (map snd (filter (\<lambda>e. fst e = i) evs))"
proof (induction evs rule: rev_induct)
  case Nil
  then show ?case by (simp add: record_all_def recent_failures_def DistressDetector_def)
next
  case (snoc e evs)
  obtain j t where e: "e = (j, t)" by (cases e)
  from snoc.prems have "sorted (map snd evs)" and "\<forall>e \<in> set evs. snd e \<le> now" and "t \<le> now"
    by (auto simp: e sorted_append)
  with snoc.IH show ?case
    by (simp add: e record_all_snoc recent_failures_record_later) (simp add: DistressDetector_def)
qed

text \<open>
  C34. The sliding window loses nothing that matters: after failures recorded in time order, the count
  the detector reports for an instrument at any later instant is the number of all recorded failures
  of that instrument within the window, although every recording drops the expired ones, and the
  instrument is distressed exactly when that number reaches the threshold.
\<close>

theorem distress_counts_history:
  assumes "sorted (map snd evs)" and "\<forall>e \<in> set evs. snd e \<le> now"
  shows "failure_count (record_all (DistressDetector w n) evs) i now =
           int (length (filter (\<lambda>e. fst e = i \<and> now - w \<le> snd e) evs))
       \<and> (is_distressed (record_all (DistressDetector w n) evs) i now \<longleftrightarrow>
           n \<le> int (length (filter (\<lambda>e. fst e = i \<and> now - w \<le> snd e) evs)))"
proof -
  have "length (filter (\<lambda>t. t \<ge> now - w) (map snd (filter (\<lambda>e. fst e = i) evs))) =
        length (filter (\<lambda>e. fst e = i \<and> now - w \<le> snd e) evs)"
    by (induction evs) auto
  then show ?thesis
    using recent_failures_history [OF assms, of w n i]
    by (simp add: failure_count_def is_distressed_def) (simp add: DistressDetector_def)
qed

theorem distress_counts_history_witness:
  "failure_count (record_all (DistressDetector 10 2) [(''a'', 1), (''b'', 5), (''a'', 8), (''a'', 12)]) ''a'' 15 = 2
   \<and> is_distressed (record_all (DistressDetector 10 2) [(''a'', 1), (''b'', 5), (''a'', 8), (''a'', 12)]) ''a'' 15"
  using distress_counts_history [of "[(''a'', 1), (''b'', 5), (''a'', 8), (''a'', 12)]" 15 10 2 "''a''"]
  by simp

end
