(* ===== verification/Bandit.thy ===== *)
theory Bandit
  imports PyTime Prelude Complex_Main
begin

text \<open>
  \<^verbatim>\<open>app/core/bandit.py\<close>: the epsilon-greedy choice among slots.  The two random draws of a call,
  \<^verbatim>\<open>random.random()\<close> and the index \<^verbatim>\<open>random.choice\<close> picks, are inputs.  Rates are exact rationals; as
  floats they compare the same way while the counters stay below \<open>2 ^ 26\<close>.
\<close>

record slot_stats =
  attempts :: int
  successes :: int

record slot_bandit =
  slots :: "string list"
  epsilon :: rat
  stats :: "(string, slot_stats) dict"

definition new_stats :: slot_stats where
  "new_stats = \<lparr>attempts = 0, successes = 0\<rparr>"

definition RetrySlotBandit :: "string list \<Rightarrow> rat \<Rightarrow> slot_bandit" where
  "RetrySlotBandit ss eps =
     \<lparr>slots = ss, epsilon = eps, stats = foldl (\<lambda>d s. dict_set s new_stats d) [] ss\<rparr>"

definition rate_of :: "slot_stats \<Rightarrow> rat" where
  "rate_of s = of_int (successes s) / of_int (attempts s)"

text \<open>\<^verbatim>\<open>random.choice(xs)\<close> with the drawn index; an empty sequence raises IndexError.\<close>

definition random_choice :: "nat \<Rightarrow> 'a list \<Rightarrow> 'a result" where
  "random_choice k xs = (if xs = [] then Inl IndexError else Inr (xs ! (k mod length xs)))"

definition candidate_to_slot :: "datetime \<Rightarrow> string" where
  "candidate_to_slot c =
     (let hour = dt_hour c in if hour < 12 then ''immediate'' else if hour < 24 then ''24h'' else ''72h'')"

text \<open>The greedy loops: keep the first element whose rate is above every earlier one.\<close>

fun best_by :: "('a \<Rightarrow> rat option) \<Rightarrow> 'a \<Rightarrow> rat \<Rightarrow> 'a list \<Rightarrow> 'a" where
  "best_by f best best_rate [] = best"
| "best_by f best best_rate (x # xs) =
     (case f x of
        None \<Rightarrow> best_by f best best_rate xs
      | Some rate \<Rightarrow> if rate > best_rate then best_by f x rate xs else best_by f best best_rate xs)"

definition slot_rate :: "slot_bandit \<Rightarrow> string \<Rightarrow> rat option" where
  "slot_rate b slot =
     (case dict_get (stats b) slot of
        None \<Rightarrow> None
      | Some s \<Rightarrow> if attempts s = 0 then None else Some (rate_of s))"

definition suggest :: "slot_bandit \<Rightarrow> rat \<times> nat \<Rightarrow> string result" where
  "suggest b draw =
     (if fst draw < epsilon b then random_choice (snd draw) (slots b)
      else case slots b of
             [] \<Rightarrow> Inl IndexError
           | s # _ \<Rightarrow> Inr (best_by (slot_rate b) s (- 1) (slots b)))"

definition candidate_rate :: "slot_bandit \<Rightarrow> datetime \<Rightarrow> rat option" where
  "candidate_rate b c =
     (let s = (case dict_get (stats b) (candidate_to_slot c) of None \<Rightarrow> new_stats | Some s \<Rightarrow> s)
      in Some (if attempts s > 0 then rate_of s else 1 / 2))"

definition suggest_from :: "slot_bandit \<Rightarrow> rat \<times> nat \<Rightarrow> datetime list \<Rightarrow> datetime result" where
  "suggest_from b draw candidates =
     (case candidates of
        [] \<Rightarrow> Inl ValueError
      | c # _ \<Rightarrow>
          if fst draw < epsilon b then random_choice (snd draw) candidates
          else Inr (best_by (candidate_rate b) c (- 1) candidates))"

definition record_outcome :: "slot_bandit \<Rightarrow> string \<Rightarrow> bool \<Rightarrow> slot_bandit" where
  "record_outcome b slot success =
     (case dict_get (stats b) slot of
        None \<Rightarrow> b
      | Some s \<Rightarrow>
          b\<lparr>stats := dict_set slot
              \<lparr>attempts = attempts s + 1, successes = (if success then successes s + 1 else successes s)\<rparr>
              (stats b)\<rparr>)"

definition estimated_success_rate :: "slot_bandit \<Rightarrow> string \<Rightarrow> rat" where
  "estimated_success_rate b slot = (case slot_rate b slot of None \<Rightarrow> 1 / 2 | Some r \<Rightarrow> r)"

section \<open>Choices\<close>

lemma best_by_in: "best_by f best r xs \<in> insert best (set xs)"
  by (induction xs arbitrary: best r) (auto split: option.split)

lemma best_by_max:
  assumes "\<And>x. x \<in> set xs \<Longrightarrow> f x \<noteq> None"
  shows "(\<forall>x \<in> set xs. the (f x) \<le> r) \<and> best_by f best r xs = best
       \<or> (\<exists>ys y zs. xs = ys @ y # zs \<and> best_by f best r xs = y \<and> r < the (f y)
            \<and> (\<forall>x \<in> set ys. the (f x) < the (f y)) \<and> (\<forall>x \<in> set zs. the (f x) \<le> the (f y)))"
  using assms
proof (induction xs arbitrary: best r)
  case Nil
  then show ?case by simp
next
  case (Cons x xs)
  from Cons.prems obtain q where q: "f x = Some q" by force
  have IH: "(\<forall>x \<in> set xs. the (f x) \<le> r') \<and> best_by f b' r' xs = b'
       \<or> (\<exists>ys y zs. xs = ys @ y # zs \<and> best_by f b' r' xs = y \<and> r' < the (f y)
            \<and> (\<forall>x \<in> set ys. the (f x) < the (f y)) \<and> (\<forall>x \<in> set zs. the (f x) \<le> the (f y)))" for b' r'
    using Cons by (intro Cons.IH) auto
  show ?case
  proof (cases "q > r")
    case False
    from IH [of r best] show ?thesis
    proof (elim disjE exE conjE)
      assume "\<forall>x \<in> set xs. the (f x) \<le> r" "best_by f best r xs = best"
      with False q show ?thesis by simp
    next
      fix ys y zs
      assume h: "xs = ys @ y # zs" "best_by f best r xs = y" "r < the (f y)"
        "\<forall>x \<in> set ys. the (f x) < the (f y)" "\<forall>x \<in> set zs. the (f x) \<le> the (f y)"
      with False q have "x # xs = (x # ys) @ y # zs \<and> best_by f best r (x # xs) = y \<and> r < the (f y)
            \<and> (\<forall>x \<in> set (x # ys). the (f x) < the (f y)) \<and> (\<forall>x \<in> set zs. the (f x) \<le> the (f y))"
        by simp
      then show ?thesis by blast
    qed
  next
    case True
    from IH [of q x] show ?thesis
    proof (elim disjE exE conjE)
      assume "\<forall>x \<in> set xs. the (f x) \<le> q" "best_by f x q xs = x"
      with True q have "x # xs = [] @ x # xs \<and> best_by f best r (x # xs) = x \<and> r < the (f x)
            \<and> (\<forall>x \<in> set []. the (f x) < the (f x)) \<and> (\<forall>z \<in> set xs. the (f z) \<le> the (f x))"
        by simp
      then show ?thesis by blast
    next
      fix ys y zs
      assume h: "xs = ys @ y # zs" "best_by f x q xs = y" "q < the (f y)"
        "\<forall>x \<in> set ys. the (f x) < the (f y)" "\<forall>x \<in> set zs. the (f x) \<le> the (f y)"
      with True q have "x # xs = (x # ys) @ y # zs \<and> best_by f best r (x # xs) = y \<and> r < the (f y)
            \<and> (\<forall>x \<in> set (x # ys). the (f x) < the (f y)) \<and> (\<forall>x \<in> set zs. the (f x) \<le> the (f y))"
        by simp
      then show ?thesis by blast
    qed
  qed
qed

lemma random_choice_in: "random_choice k xs = Inr x \<Longrightarrow> x \<in> set xs"
  by (auto simp: random_choice_def split: if_splits)

lemma suggest_from_in: "suggest_from b draw cs = Inr c \<Longrightarrow> c \<in> set cs"
proof -
  assume h: "suggest_from b draw cs = Inr c"
  then obtain d ds where cs: "cs = d # ds" by (cases cs) (auto simp: suggest_from_def)
  show ?thesis
  proof (cases "fst draw < epsilon b")
    case True
    with h cs have "random_choice (snd draw) cs = Inr c" by (simp add: suggest_from_def)
    then show ?thesis by (rule random_choice_in)
  next
    case False
    with h cs have "best_by (candidate_rate b) d (- 1) cs = c" by (simp add: suggest_from_def)
    then show ?thesis using best_by_in [of "candidate_rate b" d "- 1" cs] cs by auto
  qed
qed

lemma suggest_from_total: "cs \<noteq> [] \<Longrightarrow> \<exists>c. suggest_from b draw cs = Inr c"
  by (cases cs) (auto simp: suggest_from_def random_choice_def)

section \<open>Counters\<close>

definition stats_ok :: "slot_stats \<Rightarrow> bool" where
  "stats_ok s \<longleftrightarrow> 0 \<le> successes s \<and> successes s \<le> attempts s"

definition bandit_ok :: "slot_bandit \<Rightarrow> bool" where
  "bandit_ok b \<longleftrightarrow> dict_wf (stats b) \<and> (\<forall>k s. dict_get (stats b) k = Some s \<longrightarrow> stats_ok s)
     \<and> (\<forall>k. dict_get (stats b) k \<noteq> None \<longleftrightarrow> k \<in> set (slots b))"

lemma foldl_dict_set_new:
  "dict_get (foldl (\<lambda>d s. dict_set s v d) d ss) k = (if k \<in> set ss then Some v else dict_get d k)"
  by (induction ss arbitrary: d) auto

lemma foldl_dict_wf: "dict_wf d \<Longrightarrow> dict_wf (foldl (\<lambda>d s. dict_set s v d) d ss)"
  by (induction ss arbitrary: d) auto

lemma bandit_ok_init: "bandit_ok (RetrySlotBandit ss eps)"
  by (auto simp: bandit_ok_def RetrySlotBandit_def foldl_dict_set_new foldl_dict_wf new_stats_def stats_ok_def)

lemma stats_ok_count:
  "stats_ok s \<Longrightarrow>
   stats_ok \<lparr>attempts = attempts s + 1, successes = (if won then successes s + 1 else successes s)\<rparr>"
  by (simp add: stats_ok_def)

lemma bandit_ok_record: "bandit_ok b \<Longrightarrow> bandit_ok (record_outcome b slot success)"
  using stats_ok_count [where won = success]
  by (auto simp: bandit_ok_def record_outcome_def simp del: if_split split: option.split)

lemma rate_bounds: "stats_ok s \<Longrightarrow> 0 < attempts s \<Longrightarrow> 0 \<le> rate_of s \<and> rate_of s \<le> 1"
  by (simp add: stats_ok_def rate_of_def divide_le_eq_1)

lemma candidate_rate_bounds:
  assumes "bandit_ok b"
  shows "\<exists>r. candidate_rate b c = Some r \<and> 0 \<le> r \<and> r \<le> 1"
proof -
  have "stats_ok (case dict_get (stats b) (candidate_to_slot c) of None \<Rightarrow> new_stats | Some s \<Rightarrow> s)"
    using assms by (auto simp: bandit_ok_def new_stats_def stats_ok_def split: option.split)
  then show ?thesis by (auto simp: candidate_rate_def Let_def rate_bounds)
qed

text \<open>
  Asked for one of a non-empty list of candidates, the bandit always answers with one of them; and
  when it does not explore, its answer is the first candidate with the highest observed success rate
  (one half for a slot never tried).
\<close>

theorem suggest_from_legal_and_greedy:
  assumes "bandit_ok b" and "cs \<noteq> []"
  shows "\<exists>c. suggest_from b draw cs = Inr c \<and> c \<in> set cs
     \<and> (epsilon b \<le> fst draw \<longrightarrow>
          (\<exists>ys zs. cs = ys @ c # zs
             \<and> (\<forall>x \<in> set ys. the (candidate_rate b x) < the (candidate_rate b c))
             \<and> (\<forall>x \<in> set zs. the (candidate_rate b x) \<le> the (candidate_rate b c))))"
proof -
  from suggest_from_total [OF assms(2)] obtain c where c: "suggest_from b draw cs = Inr c" by blast
  have "\<exists>ys zs. cs = ys @ c # zs
             \<and> (\<forall>x \<in> set ys. the (candidate_rate b x) < the (candidate_rate b c))
             \<and> (\<forall>x \<in> set zs. the (candidate_rate b x) \<le> the (candidate_rate b c))"
    if "epsilon b \<le> fst draw"
  proof -
    obtain c0 cs' where cs: "cs = c0 # cs'" using assms(2) by (cases cs) auto
    with c that have best: "best_by (candidate_rate b) c0 (- 1) cs = c"
      by (simp add: suggest_from_def)
    have rates: "candidate_rate b x \<noteq> None" for x using candidate_rate_bounds [OF assms(1)] by force
    have "- 1 < the (candidate_rate b c0)" using candidate_rate_bounds [OF assms(1), of c0] by force
    with best_by_max [of cs "candidate_rate b" "- 1" c0] rates cs best show ?thesis by force
  qed
  with c suggest_from_in [OF c] show ?thesis by blast
qed

theorem suggest_from_legal_and_greedy_witness:
  "\<exists>c. suggest_from (RetrySlotBandit [''immediate'', ''24h'', ''72h''] (1 / 10)) (1 / 2, 0) [0, hours 12] = Inr c
     \<and> c \<in> {0, hours 12}"
  using suggest_from_legal_and_greedy [OF bandit_ok_init, of "[0, hours 12]"
      "[''immediate'', ''24h'', ''72h'']" "1 / 10" "(1 / 2, 0)"] by auto

text \<open>
  The slot called '72h' is never used: a candidate's slot is chosen by its hour of the day, which is
  below 24, so only 'immediate' and '24h' can be learned from, however far away the candidate is.
\<close>

theorem candidate_slot_never_72h: "candidate_to_slot c \<noteq> ''72h'' \<and> candidate_to_slot (c + hours 24) = candidate_to_slot c"
  using dt_hour_bounds [of c] by (simp add: candidate_to_slot_def Let_def dt_hour_def)

end
