(* ===== verification/Iso_Dates.thy ===== *)
theory Iso_Dates
  imports PyTime
begin

text \<open>
  The calendar arithmetic loses nothing: the date of a day number determines the day number, and so
  the ISO text of an instant determines the instant.
\<close>

section \<open>From dates back to day numbers\<close>

definition ymd2ord :: "int \<times> int \<times> int \<Rightarrow> int" where
  "ymd2ord = (\<lambda>(y, m, d).
     (y - 1) * 365 + (y - 1) div 4 - (y - 1) div 100 + (y - 1) div 400
     + days_before_month m + (if m > 2 \<and> is_leap y then 1 else 0) + d)"

lemma month_day_inverse_check:
  "list_all (\<lambda>leap. list_all (\<lambda>n. let (m, d) = month_day leap n
      in days_before_month m + (if m > 2 \<and> leap then 1 else 0) + d = n + 1
         \<and> 1 \<le> m \<and> m \<le> 12 \<and> 1 \<le> d \<and> d \<le> 31) [0..364 + (if leap then 1 else 0)]) [False, True]"
  by code_simp

lemma month_day_inverse:
  assumes "0 \<le> n" and "n < 365 + (if leap then 1 else 0)" and "month_day leap n = (m, d)"
  shows "days_before_month m + (if m > 2 \<and> leap then 1 else 0) + d = n + 1"
    and "1 \<le> m \<and> m \<le> 12 \<and> 1 \<le> d \<and> d \<le> 31"
proof -
  have "n \<in> set [0..364 + (if leap then 1 else 0)]" using assms(1,2) by simp
  moreover have "leap \<in> set [False, True]" by simp
  ultimately have "let (m, d) = month_day leap n
      in days_before_month m + (if m > 2 \<and> leap then 1 else 0) + d = n + 1
         \<and> 1 \<le> m \<and> m \<le> 12 \<and> 1 \<le> d \<and> d \<le> 31"
    using month_day_inverse_check unfolding list_all_iff by blast
  then have "days_before_month m + (if m > 2 \<and> leap then 1 else 0) + d = n + 1
      \<and> 1 \<le> m \<and> m \<le> 12 \<and> 1 \<le> d \<and> d \<le> 31"
    by (simp only: assms(3) Let_def prod.case)
  then show "days_before_month m + (if m > 2 \<and> leap then 1 else 0) + d = n + 1"
    and "1 \<le> m \<and> m \<le> 12 \<and> 1 \<le> d \<and> d \<le> 31" by simp_all
qed

text \<open>The 400, 100, 4 and 1 year cycles of a year number.\<close>

lemma year_divs:
  fixes a b c d :: int
  assumes "0 \<le> b" "b \<le> 3" "0 \<le> c" "c \<le> 24" "0 \<le> d" "d \<le> 3"
  shows "(400 * a + 100 * b + 4 * c + d) div 4 = 100 * a + 25 * b + c"
    and "(400 * a + 100 * b + 4 * c + d) div 100 = 4 * a + b"
    and "(400 * a + 100 * b + 4 * c + d) div 400 = a"
  using assms
  by (auto intro!: int_div_pos_eq [where r = d] int_div_pos_eq [where r = "4 * c + d"]
      int_div_pos_eq [where r = "100 * b + 4 * c + d"])

lemma year_leap:
  fixes a b c d :: int
  assumes "0 \<le> b" "b \<le> 3" "0 \<le> c" "c \<le> 24" "0 \<le> d" "d \<le> 3"
  shows "is_leap (400 * a + 100 * b + 4 * c + d + 1) \<longleftrightarrow> d = 3 \<and> (c \<noteq> 24 \<or> b = 3)"
proof -
  have whole: "(q * k + r) mod k = 0 \<longleftrightarrow> r = k" if "0 < r" "r \<le> k" for q k r :: int
    using that by (cases "r = k") auto
  have "400 * a + 100 * b + 4 * c + d + 1 = (100 * a + 25 * b + c) * 4 + (d + 1)" by simp
  then have m4: "(400 * a + 100 * b + 4 * c + d + 1) mod 4 = 0 \<longleftrightarrow> d + 1 = 4"
    using whole [of "d + 1" 4 "100 * a + 25 * b + c"] assms(5,6) by (simp only:)
  have "400 * a + 100 * b + 4 * c + d + 1 = (4 * a + b) * 100 + (4 * c + d + 1)" by simp
  then have m100: "(400 * a + 100 * b + 4 * c + d + 1) mod 100 = 0 \<longleftrightarrow> 4 * c + d + 1 = 100"
    using whole [of "4 * c + d + 1" 100 "4 * a + b"] assms(3-6) by (simp only:)
  have "400 * a + 100 * b + 4 * c + d + 1 = a * 400 + (100 * b + 4 * c + d + 1)" by simp
  then have m400: "(400 * a + 100 * b + 4 * c + d + 1) mod 400 = 0 \<longleftrightarrow> 100 * b + 4 * c + d + 1 = 400"
    using whole [of "100 * b + 4 * c + d + 1" 400 a] assms by (simp only:)
  have "d + 1 = 4 \<longleftrightarrow> d = 3" by linarith
  moreover have "d = 3 \<Longrightarrow> 4 * c + d + 1 = 100 \<longleftrightarrow> c = 24" by linarith
  moreover have "d = 3 \<Longrightarrow> c = 24 \<Longrightarrow> 100 * b + 4 * c + d + 1 = 400 \<longleftrightarrow> b = 3" by linarith
  moreover have "d = 3 \<Longrightarrow> 100 * b + 4 * c + d + 1 = 400 \<Longrightarrow> c = 24" using assms by linarith
  ultimately show ?thesis unfolding is_leap_def m4 m100 m400 by blast
qed

lemma days_before_year:
  fixes a b c d :: int
  assumes "0 \<le> b" "b \<le> 3" "0 \<le> c" "c \<le> 24" "0 \<le> d" "d \<le> 3"
  shows "(400 * a + 100 * b + 4 * c + d) * 365 + (400 * a + 100 * b + 4 * c + d) div 4
       - (400 * a + 100 * b + 4 * c + d) div 100 + (400 * a + 100 * b + 4 * c + d) div 400
     = 146097 * a + 36524 * b + 1461 * c + 365 * d"
  by (simp add: year_divs [OF assms])

lemma ymd2ord_split:
  fixes a b c d :: int
  assumes "0 \<le> b" "b \<le> 3" "0 \<le> c" "c \<le> 24" "0 \<le> d" "d \<le> 3"
  shows "ymd2ord (400 * a + 100 * b + 4 * c + d + 1, m, dd)
     = 146097 * a + 36524 * b + 1461 * c + 365 * d
       + days_before_month m + (if m > 2 \<and> (d = 3 \<and> (c \<noteq> 24 \<or> b = 3)) then 1 else 0) + dd"
  using days_before_year [OF assms] year_leap [OF assms] by (simp add: ymd2ord_def)

lemma ymd2ord_ord2ymd: "ymd2ord (ord2ymd ordinal) = ordinal"
proof -
  define n where "n = ordinal - 1"
  define a where "a = n div 146097"
  define r400 where "r400 = n mod 146097"
  define b where "b = r400 div 36524"
  define r100 where "r100 = r400 mod 36524"
  define c where "c = r100 div 1461"
  define r4 where "r4 = r100 mod 1461"
  define d where "d = r4 div 365"
  define r1 where "r1 = r4 mod 365"
  have n: "n = 146097 * a + 36524 * b + 1461 * c + 365 * d + r1"
    by (simp add: a_def r400_def b_def r100_def c_def r4_def d_def r1_def)
  have r400: "0 \<le> r400" "r400 < 146097" by (simp_all add: r400_def)
  have r100: "0 \<le> r100" "r100 < 36524" by (simp_all add: r100_def)
  have r4: "0 \<le> r4" "r4 < 1461" by (simp_all add: r4_def)
  have r1: "0 \<le> r1" "r1 < 365" by (simp_all add: r1_def)
  have "r400 = 36524 * b + r100" by (simp add: b_def r100_def)
  then have b: "0 \<le> b" "b \<le> 4" "b = 4 \<Longrightarrow> r100 = 0" using r400 r100 by linarith+
  have "r100 = 1461 * c + r4" by (simp add: c_def r4_def)
  note r100_split = this
  have c: "0 \<le> c" "c \<le> 24" "r100 = 0 \<Longrightarrow> c = 0" "c = 24 \<Longrightarrow> r4 < 1460"
    using r100_split r100 r4 by linarith+
  have c0: "r100 = 0 \<Longrightarrow> r4 = 0" using c(3) r100_split by simp
  have d4: "r4 = 365 * d + r1" by (simp add: d_def r1_def)
  have dlo: "0 \<le> d" using r4 by (simp add: d_def pos_imp_zdiv_nonneg_iff)
  have dhi: "d \<le> 4" using r4 d4 r1 by linarith
  have dr: "d = 4 \<Longrightarrow> r1 = 0" using r4 d4 r1 by linarith
  have dz: "r4 = 0 \<Longrightarrow> d = 0" by (simp add: d_def)
  note d = dlo dhi dr dz
  have r1z: "r4 = 0 \<Longrightarrow> r1 = 0" by (simp add: r1_def)
  have r4d: "d = 4 \<Longrightarrow> r4 = 1460" using dr d4 by linarith
  note d0 = r1z r4d
  have ord: "ord2ymd ordinal =
     (if d = 4 \<or> b = 4 then (a * 400 + 1 + b * 100 + c * 4 + d - 1, 12, 31)
      else (a * 400 + 1 + b * 100 + c * 4 + d,
            fst (month_day (d = 3 \<and> (c \<noteq> 24 \<or> b = 3)) r1), snd (month_day (d = 3 \<and> (c \<noteq> 24 \<or> b = 3)) r1)))"
    by (simp add: ord2ymd_def Let_def n_def a_def r400_def b_def r100_def c_def r4_def d_def r1_def)
  have dec31: "days_before_month 12 = 334" by (simp add: days_before_month_def)
  consider "b = 4" | "b \<noteq> 4" "d = 4" | "b \<noteq> 4" "d \<noteq> 4" by blast
  then show ?thesis
  proof cases
    case 1
    then have "r4 = 0" using b(3) c0 by blast
    then have z: "c = 0" "d = 0" "r1 = 0" using 1 b(3) c(3) dz r1z by blast+
    have y: "a * 400 + 1 + b * 100 + c * 4 + d - 1 = 400 * a + 100 * 3 + 4 * 24 + 3 + 1"
      using 1 z by simp
    have "ymd2ord (400 * a + 100 * 3 + 4 * 24 + 3 + 1, 12, 31) = n + 1"
      using ymd2ord_split [of 3 24 3 a 12 31] 1 z n by (simp add: dec31)
    with 1 y show ?thesis by (simp add: ord n_def mult.commute)
  next
    case 2
    then have z: "r1 = 0" "c \<noteq> 24" using dr r4d c(4) by (blast, fastforce)
    have bc: "b \<le> 3" using 2(1) b(2) by linarith
    have y: "a * 400 + 1 + b * 100 + c * 4 + d - 1 = 400 * a + 100 * b + 4 * c + 3 + 1"
      using 2 by simp
    have "ymd2ord (400 * a + 100 * b + 4 * c + 3 + 1, 12, 31) = n + 1"
      using ymd2ord_split [OF b(1) bc c(1) c(2), of 3 a 12 31] z 2 n by (simp add: dec31)
    with 2 y show ?thesis by (simp add: ord n_def mult.commute)
  next
    case 3
    then have bd: "b \<le> 3" "d \<le> 3" using b(2) dhi by linarith+
    obtain m dd where md: "month_day (d = 3 \<and> (c \<noteq> 24 \<or> b = 3)) r1 = (m, dd)" by (cases "month_day (d = 3 \<and> (c \<noteq> 24 \<or> b = 3)) r1")
    have y: "a * 400 + 1 + b * 100 + c * 4 + d = 400 * a + 100 * b + 4 * c + d + 1" by simp
    have r1': "r1 < 365 + (if d = 3 \<and> (c \<noteq> 24 \<or> b = 3) then 1 else 0)" using r1(2) by simp
    have "ymd2ord (400 * a + 100 * b + 4 * c + d + 1, m, dd) = n + 1"
      unfolding ymd2ord_split [OF b(1) bd(1) c(1) c(2) d(1) bd(2), of a m dd]
      using month_day_inverse(1) [OF r1(1) r1' md] n by linarith
    then have inv: "ymd2ord (400 * a + 100 * b + 4 * c + d + 1, m, dd) = ordinal" by (simp add: n_def)
    have "\<not> (d = 4 \<or> b = 4)" using 3 by simp
    then show ?thesis unfolding ord y md using inv by (simp only: if_not_P fst_conv snd_conv simp_thms)
  qed
qed

lemma ymd_of_inj: "ymd_of t = ymd_of u \<Longrightarrow> t div usec_per_day = u div usec_per_day"
  unfolding ymd_of_def using ymd2ord_ord2ymd by (metis add_left_cancel)

section \<open>The range of datetime\<close>

text \<open>
  A datetime object has a year from 1 to 9999.  Within that range months and days have two digits
  and the year is not negative, so the text shows all of them.
\<close>

definition dt_in_range :: "datetime \<Rightarrow> bool" where
  "dt_in_range t \<longleftrightarrow> 1 \<le> epoch_ordinal + t div usec_per_day \<and> epoch_ordinal + t div usec_per_day \<le> 3652059"

lemma dt_in_range_epoch: "0 \<le> t \<Longrightarrow> t < hours 24 * 2932897 \<Longrightarrow> dt_in_range t"
  by (auto simp: dt_in_range_def epoch_ordinal_def hours_24 usec_per_day_def)

lemma ord2ymd_nonneg:
  assumes "1 \<le> ordinal" and "ord2ymd ordinal = (y, m, d)"
  shows "0 \<le> y" and "0 \<le> m" and "0 \<le> d"
proof -
  define n where "n = ordinal - 1"
  define b where "b = n mod 146097 div 36524"
  define c where "c = n mod 146097 mod 36524 div 1461"
  define r4 where "r4 = n mod 146097 mod 36524 mod 1461"
  define y0 where "y0 = n div 146097 * 400 + 1 + b * 100 + c * 4 + r4 div 365"
  define leap where "leap \<longleftrightarrow> r4 div 365 = 3 \<and> (c \<noteq> 24 \<or> b = 3)"
  obtain m0 d0 where md: "month_day leap (r4 mod 365) = (m0, d0)" by (cases "month_day leap (r4 mod 365)")
  have pos: "0 \<le> n" using assms(1) by (simp add: n_def)
  have "0 \<le> n div 146097" "0 \<le> b" "0 \<le> c" "0 \<le> r4 div 365"
    using pos by (simp_all add: pos_imp_zdiv_nonneg_iff b_def c_def r4_def)
  then have y0: "1 \<le> y0" unfolding y0_def by linarith
  have r1: "0 \<le> r4 mod 365" "r4 mod 365 < 365 + (if leap then 1 else 0)"
    using pos_mod_bound [of 365 r4] by (simp, cases leap, simp_all)
  have "ord2ymd ordinal = (if r4 div 365 = 4 \<or> b = 4 then (y0 - 1, 12, 31)
      else (y0, fst (month_day leap (r4 mod 365)), snd (month_day leap (r4 mod 365))))"
    by (simp only: ord2ymd_def Let_def n_def b_def c_def r4_def y0_def leap_def)
  then have "(y, m, d) = (if r4 div 365 = 4 \<or> b = 4 then (y0 - 1, 12, 31) else (y0, m0, d0))"
    by (simp only: md assms(2) fst_conv snd_conv)
  with y0 month_day_inverse(2) [OF r1 md] have "0 \<le> y \<and> 0 \<le> m \<and> 0 \<le> d"
    by (cases "r4 div 365 = 4 \<or> b = 4") simp_all
  then show "0 \<le> y" and "0 \<le> m" and "0 \<le> d" by simp_all
qed

lemma iso_date_inj:
  assumes "dt_in_range t" and "dt_in_range u" and "iso_date t @ CHR ''T'' # r = iso_date u @ CHR ''T'' # s"
  shows "t div usec_per_day = u div usec_per_day \<and> r = s"
proof -
  obtain y m d where t: "ymd_of t = (y, m, d)" by (cases "ymd_of t")
  obtain y' m' d' where u: "ymd_of u = (y', m', d')" by (cases "ymd_of u")
  have nn: "0 \<le> y" "0 \<le> m" "0 \<le> d" "0 \<le> y'" "0 \<le> m'" "0 \<le> d'"
    using assms(1,2) t u ord2ymd_nonneg [of "epoch_ordinal + t div usec_per_day" y m d]
      ord2ymd_nonneg [of "epoch_ordinal + u div usec_per_day" y' m' d']
    by (simp_all add: ymd_of_def dt_in_range_def)
  let ?r = "CHR ''T'' # r" and ?s = "CHR ''T'' # s"
  have all: "zfill 4 (nat y) @ CHR ''-'' # zfill 2 (nat m) @ CHR ''-'' # zfill 2 (nat d) @ ?r
      = zfill 4 (nat y') @ CHR ''-'' # zfill 2 (nat m') @ CHR ''-'' # zfill 2 (nat d') @ ?s"
    using assms(3) by (simp add: iso_date_def t u)
  have dash: "\<not> is_digit (CHR ''-'')" and tee: "\<not> is_digit (CHR ''T'')" by simp_all
  have 1: "nat y = nat y'" and
    2: "zfill 2 (nat m) @ CHR ''-'' # zfill 2 (nat d) @ ?r = zfill 2 (nat m') @ CHR ''-'' # zfill 2 (nat d') @ ?s"
    using zfill_run_unique [OF dash dash all] by simp_all
  have 3: "nat m = nat m'" and 4: "zfill 2 (nat d) @ ?r = zfill 2 (nat d') @ ?s"
    using zfill_run_unique [OF dash dash 2] by simp_all
  have 5: "nat d = nat d'" and 6: "r = s"
    using zfill_run_unique [OF tee tee 4] by simp_all
  have "y = y'" "m = m'" "d = d'"
    using eq_nat_nat_iff [OF nn(1) nn(4)] eq_nat_nat_iff [OF nn(2) nn(5)] eq_nat_nat_iff [OF nn(3) nn(6)] 1 3 5
    by blast+
  then have "ymd_of t = ymd_of u" using t u by simp
  from ymd_of_inj [OF this] 6 show ?thesis by blast
qed

section \<open>isoformat is injective\<close>

definition us_text :: "nat \<Rightarrow> string" where
  "us_text us = (if us = 0 then [] else CHR ''.'' # zfill 6 us) @ ''+00:00''"

lemma us_text_head: "\<exists>c r. us_text us = c # r \<and> \<not> is_digit c"
  by (simp add: us_text_def)

lemma us_text_inj: "us_text us = us_text vs \<Longrightarrow> us = vs"
proof -
  assume e: "us_text us = us_text vs"
  show ?thesis
  proof (cases "us = 0 \<or> vs = 0")
    case True
    with e show ?thesis by (auto simp: us_text_def split: if_splits)
  next
    case False
    with e have "zfill 6 us @ CHR ''+'' # ''00:00'' = zfill 6 vs @ CHR ''+'' # ''00:00''"
      by (simp add: us_text_def)
    then show ?thesis by (simp add: zfill_inj)
  qed
qed

lemma clock_parts:
  fixes s v :: int
  assumes "0 \<le> s" and "0 \<le> v"
    and "nat (s div 3600) = nat (v div 3600)" and "nat (s div 60 mod 60) = nat (v div 60 mod 60)"
    and "nat (s mod 60) = nat (v mod 60)"
  shows "s = v"
proof -
  have parts: "x = 3600 * (x div 3600) + 60 * (x div 60 mod 60) + x mod 60" for x :: int
  proof -
    have hour: "x div 60 div 60 = x div 3600" using zdiv_zmult2_eq [of 60 x 60] by simp
    have dist: "60 * (60 * h + m) + r = 3600 * h + 60 * m + r" for h m r :: int by simp
    have "60 * (60 * (x div 60 div 60) + x div 60 mod 60) + x mod 60 = x" by (simp only: mult_div_mod_eq)
    then show ?thesis unfolding dist hour by (rule sym)
  qed
  have nn: "0 \<le> x div 3600" "0 \<le> x div 60 mod 60" "0 \<le> x mod 60" if "0 \<le> x" for x :: int
    using that by (simp_all add: pos_imp_zdiv_nonneg_iff)
  have "s div 3600 = v div 3600"
    using assms(3) eq_nat_nat_iff [OF nn(1) [OF assms(1)] nn(1) [OF assms(2)]] by blast
  moreover have "s div 60 mod 60 = v div 60 mod 60"
    using assms(4) eq_nat_nat_iff [OF nn(2) [OF assms(1)] nn(2) [OF assms(2)]] by blast
  moreover have "s mod 60 = v mod 60"
    using assms(5) eq_nat_nat_iff [OF nn(3) [OF assms(1)] nn(3) [OF assms(2)]] by blast
  ultimately show ?thesis using parts [of s] parts [of v] by metis
qed

lemma isoformat_inj:
  assumes "dt_in_range t" and "dt_in_range u" and "isoformat t = isoformat u"
  shows "t = u"
proof -
  define us where "us x = time_of x mod usec_per_second" for x
  define s where "s x = time_of x div usec_per_second" for x
  have nn: "0 \<le> us x" "0 \<le> s x" for x
    using time_of_bounds(1) [of x] by (simp_all add: us_def s_def usec_defs pos_imp_zdiv_nonneg_iff)
  have iso: "isoformat x = iso_date x @ CHR ''T'' # zfill 2 (nat (s x div 3600)) @ CHR '':''
      # zfill 2 (nat (s x div 60 mod 60)) @ CHR '':'' # zfill 2 (nat (s x mod 60)) @ us_text (nat (us x))" for x
    using nn(1) [of x] by (simp add: isoformat_def Let_def us_text_def s_def us_def)
  have colon: "\<not> is_digit (CHR '':'')" by simp
  from iso_date_inj [OF assms(1,2) assms(3) [unfolded iso]]
  have day: "t div usec_per_day = u div usec_per_day" and
    1: "zfill 2 (nat (s t div 3600)) @ CHR '':'' # zfill 2 (nat (s t div 60 mod 60)) @ CHR '':''
        # zfill 2 (nat (s t mod 60)) @ us_text (nat (us t))
      = zfill 2 (nat (s u div 3600)) @ CHR '':'' # zfill 2 (nat (s u div 60 mod 60)) @ CHR '':''
        # zfill 2 (nat (s u mod 60)) @ us_text (nat (us u))"
    by blast+
  have h: "nat (s t div 3600) = nat (s u div 3600)" and
    2: "zfill 2 (nat (s t div 60 mod 60)) @ CHR '':'' # zfill 2 (nat (s t mod 60)) @ us_text (nat (us t))
      = zfill 2 (nat (s u div 60 mod 60)) @ CHR '':'' # zfill 2 (nat (s u mod 60)) @ us_text (nat (us u))"
    using zfill_run_unique [OF colon colon 1] by simp_all
  have m: "nat (s t div 60 mod 60) = nat (s u div 60 mod 60)" and
    3: "zfill 2 (nat (s t mod 60)) @ us_text (nat (us t)) = zfill 2 (nat (s u mod 60)) @ us_text (nat (us u))"
    using zfill_run_unique [OF colon colon 2] by simp_all
  obtain c r where c: "us_text (nat (us t)) = c # r" "\<not> is_digit c" using us_text_head by blast
  obtain d r' where d: "us_text (nat (us u)) = d # r'" "\<not> is_digit d" using us_text_head by blast
  have sec: "nat (s t mod 60) = nat (s u mod 60)" and "c # r = d # r'"
    using zfill_run_unique [OF c(2) d(2) 3 [unfolded c(1) d(1)]] by blast+
  then have "nat (us t) = nat (us u)" using us_text_inj c(1) d(1) by metis
  then have "us t = us u" using eq_nat_nat_iff [OF nn(1) nn(1)] by blast
  moreover have "s t = s u" by (rule clock_parts [OF nn(2) nn(2) h m sec])
  ultimately have "time_of t = time_of u"
    unfolding us_def s_def by (metis div_mult_mod_eq)
  then show ?thesis using day unfolding time_of_def by (metis div_mult_mod_eq)
qed

end
