(* ===== verification/Case_Store.thy ===== *)
theory Case_Store
  imports Models Sha256 Iso_Dates
begin

text \<open>
  The in-memory repository of \<^verbatim>\<open>app/core/case_store.py\<close>.  The store is a record of the object's
  dictionaries; an operation that writes returns the new store, or the exception it raises before it
  has written anything.
\<close>

section \<open>State\<close>

record case_store =
  cases :: "(string, recovery_case) dict"
  failures :: "(string \<times> int, failure_event) dict"
  decisions :: "(string \<times> int, retry_decision) dict"
  audit_logs :: "(string, audit_entry list) dict"
  next_sequence :: int
  mandate_index :: "(string, string) dict"
  payment_index :: "(string, string) dict"
  payment_attempt_index :: "(string, string \<times> int) dict"

definition InMemoryCaseStore :: case_store where
  "InMemoryCaseStore =
     \<lparr>cases = [], failures = [], decisions = [], audit_logs = [], next_sequence = 1, mandate_index = [],
      payment_index = [], payment_attempt_index = []\<rparr>"

section \<open>Cases\<close>

definition index_mandate :: "recovery_case \<Rightarrow> case_store \<Rightarrow> case_store" where
  "index_mandate c s =
     (if mandate_id c \<noteq> [] then s\<lparr>mandate_index := dict_set (mandate_id c) (case_id c) (mandate_index s)\<rparr> else s)"

definition create_case :: "recovery_case \<Rightarrow> case_store \<Rightarrow> case_store result" where
  [store_defs]: "create_case c s =
     (if dict_get (cases s) (case_id c) \<noteq> None then Inl CaseAlreadyExistsError
      else if mandate_id c \<noteq> [] \<and>
              (case dict_get (mandate_index s) (mandate_id c) of
                 None \<Rightarrow> False | Some other \<Rightarrow> other \<noteq> [] \<and> other \<noteq> case_id c)
      then Inl CaseAlreadyExistsError
      else let s = index_mandate c (s\<lparr>cases := dict_set (case_id c) c (cases s)\<rparr>)
           in Inr (s\<lparr>payment_index := dict_set (case_id c) (case_id c) (payment_index s)\<rparr>))"

definition get_case :: "string \<Rightarrow> case_store \<Rightarrow> recovery_case result" where
  [store_defs]: "get_case cid s = of_option CaseNotFoundError (dict_get (cases s) cid)"

definition update_case :: "recovery_case \<Rightarrow> case_store \<Rightarrow> case_store result" where
  [store_defs]: "update_case c s =
     (if dict_get (cases s) (case_id c) = None then Inl CaseNotFoundError
      else Inr (index_mandate c (s\<lparr>cases := dict_set (case_id c) c (cases s)\<rparr>)))"

definition list_cases :: "case_store \<Rightarrow> recovery_case list" where
  "list_cases s = dict_values (cases s)"

text \<open>A lookup through an index: an empty id counts as no id.\<close>

definition find_indexed :: "(string, string) dict \<Rightarrow> string \<Rightarrow> case_store \<Rightarrow> recovery_case option" where
  "find_indexed ix key s =
     (case dict_get ix key of
        None \<Rightarrow> None
      | Some cid \<Rightarrow> if cid = [] then None else dict_get (cases s) cid)"

definition find_case_by_mandate :: "string \<Rightarrow> case_store \<Rightarrow> recovery_case option" where
  "find_case_by_mandate mid s = find_indexed (mandate_index s) mid s"

definition find_case_by_payment_id :: "string \<Rightarrow> case_store \<Rightarrow> recovery_case option" where
  "find_case_by_payment_id pid s = find_indexed (payment_index s) pid s"

definition get_max_attempt_number :: "string \<Rightarrow> case_store \<Rightarrow> int" where
  "get_max_attempt_number cid s =
     foldl (\<lambda>m (k, a). if k = cid then max m a else m) 0 (map fst (failures s))"

definition find_attempt_by_payment_id :: "string \<Rightarrow> case_store \<Rightarrow> (string \<times> int) option" where
  "find_attempt_by_payment_id pid s = dict_get (payment_attempt_index s) pid"

section \<open>Failures and decisions\<close>

definition record_failure :: "failure_event \<Rightarrow> case_store \<Rightarrow> case_store result" where
  [store_defs]: "record_failure e s =
     (let key = (fe_case_id e, attempt_number e)
      in if dict_get (failures s) key \<noteq> None then Inl FailureAlreadyRecordedError
         else if dict_get (payment_attempt_index s) (fe_payment_id e) \<noteq> None then Inl FailureAlreadyRecordedError
         else Inr (s\<lparr>failures := dict_set key e (failures s),
                     payment_attempt_index := dict_set (fe_payment_id e) key (payment_attempt_index s)\<rparr>))"

definition get_failure :: "string \<Rightarrow> int \<Rightarrow> case_store \<Rightarrow> failure_event result" where
  "get_failure cid n s = of_option CaseNotFoundError (dict_get (failures s) (cid, n))"

definition decision_key :: "retry_decision \<Rightarrow> string \<times> int" where
  "decision_key d = (rd_case_id d, rd_attempt_number d)"

definition record_retry_decision :: "retry_decision \<Rightarrow> case_store \<Rightarrow> case_store result" where
  [store_defs]: "record_retry_decision d s =
     (if dict_get (decisions s) (decision_key d) \<noteq> None then Inl DecisionAlreadyRecordedError
      else Inr (s\<lparr>decisions := dict_set (decision_key d) d (decisions s)\<rparr>))"

definition get_retry_decision :: "string \<Rightarrow> int \<Rightarrow> case_store \<Rightarrow> retry_decision result" where
  "get_retry_decision cid n s = of_option CaseNotFoundError (dict_get (decisions s) (cid, n))"

definition update_retry_decision :: "retry_decision \<Rightarrow> case_store \<Rightarrow> case_store result" where
  [store_defs]: "update_retry_decision d s =
     (if dict_get (decisions s) (decision_key d) = None then Inl CaseNotFoundError
      else Inr (s\<lparr>decisions := dict_set (decision_key d) d (decisions s)\<rparr>))"

definition get_pending_retries :: "case_store \<Rightarrow> retry_decision list" where
  "get_pending_retries s = filter (\<lambda>d. outcome d = Pending) (dict_values (decisions s))"

section \<open>The audit log\<close>

text \<open>
  \<^verbatim>\<open>json.dumps(..., sort_keys=True)\<close> of an entry: the ten fields in alphabetical order.
\<close>

definition json_opt :: "('a \<Rightarrow> string) \<Rightarrow> 'a option \<Rightarrow> string" where
  "json_opt f x = (case x of None \<Rightarrow> ''null'' | Some y \<Rightarrow> f y)"

definition json_key :: "string \<Rightarrow> string" where
  "json_key k = json_str k @ '': ''"

definition serialize_entry :: "audit_entry \<Rightarrow> string" where
  "serialize_entry e =
     ''{'' @ json_key ''actor'' @ json_str (actor_name (entry_actor e))
     @ '', '' @ json_key ''case_id'' @ json_str (ae_case_id e)
     @ '', '' @ json_key ''from_state'' @ json_str (state_name (from_state e))
     @ '', '' @ json_key ''prev_hash'' @ json_opt json_str (prev_hash e)
     @ '', '' @ json_key ''rule_fired'' @ json_str (rule_fired e)
     @ '', '' @ json_key ''rule_version'' @ py_str_int (rule_version e)
     @ '', '' @ json_key ''scheduled_at'' @ json_opt (\<lambda>t. json_str (isoformat t)) (ae_scheduled_at e)
     @ '', '' @ json_key ''sequence_id'' @ json_opt py_str_int (sequence_id e)
     @ '', '' @ json_key ''timestamp'' @ json_str (isoformat (timestamp e))
     @ '', '' @ json_key ''to_state'' @ json_str (state_name (to_state e)) @ ''}''"

definition hash_entry :: "audit_entry \<Rightarrow> string" where
  "hash_entry e = sha256_hex (serialize_entry e)"

definition get_audit_trail :: "string \<Rightarrow> case_store \<Rightarrow> audit_entry list" where
  "get_audit_trail cid s = (case dict_get (audit_logs s) cid of None \<Rightarrow> [] | Some es \<Rightarrow> es)"

text \<open>The entry \<^verbatim>\<open>append_audit\<close> writes: numbered, linked to the last one and hashed.\<close>

definition last_hash :: "audit_entry list \<Rightarrow> string option" where
  "last_hash es = (if es = [] then None else entry_hash (last es))"

definition seal :: "audit_entry list \<Rightarrow> int \<Rightarrow> audit_entry \<Rightarrow> audit_entry" where
  "seal trail n e =
     (let e = (case sequence_id e of None \<Rightarrow> e\<lparr>sequence_id := Some n\<rparr> | Some _ \<Rightarrow> e);
          e = e\<lparr>prev_hash := last_hash trail\<rparr>
      in e\<lparr>entry_hash := Some (hash_entry e)\<rparr>)"

definition append_audit :: "audit_entry \<Rightarrow> case_store \<Rightarrow> case_store" where
  [store_defs]: "append_audit e s =
     (let trail = get_audit_trail (ae_case_id e) s
      in s\<lparr>audit_logs := dict_set (ae_case_id e) (trail @ [seal trail (next_sequence s) e]) (audit_logs s),
           next_sequence := (if sequence_id e = None then next_sequence s + 1 else next_sequence s)\<rparr>)"

definition append_all :: "audit_entry list \<Rightarrow> case_store \<Rightarrow> case_store" where
  "append_all es s = foldl (\<lambda>s e. append_audit e s) s es"

end
