(* ===== verification/Audit_Chain.thy ===== *)
theory Audit_Chain
  imports Case_Store
begin

text \<open>
  The hash chain of the audit log: the text that is hashed determines every field of an entry; the
  three chain checkers of the program (the endpoint of \<^verbatim>\<open>app/main.py\<close>, the explainer's quick check and
  the export verifier \<^verbatim>\<open>verify_chain.py\<close>); and what a valid chain commits to.
\<close>

section \<open>The hashed text is injective\<close>

lemma json_opt_str_unique:
  assumes "json_opt (\<lambda>x. json_str (f x)) a @ r = json_opt (\<lambda>x. json_str (f x)) b @ s"
  shows "map_option f a = map_option f b \<and> r = s"
proof (cases a)
  case None
  with assms show ?thesis by (cases b) (auto simp: json_opt_def json_str_def)
next
  case (Some x)
  with assms obtain y where b: "b = Some y" by (cases b) (auto simp: json_opt_def json_str_def)
  with assms Some have "json_str (f x) @ r = json_str (f y) @ s" by (simp add: json_opt_def)
  from json_str_unique [OF this] show ?thesis by (simp add: Some b)
qed

lemma py_str_int_head: "hd (py_str_int i) \<noteq> CHR ''n''"
proof -
  have "is_digit (hd (dec n))" for n using dec_digits [of "hd (dec n)" n] dec_nonempty [of n] by simp
  then have "hd (dec n) \<noteq> CHR ''n''" for n using not_digit_literals by metis
  then show ?thesis by (simp add: py_str_int_def)
qed

lemma py_str_int_nonempty [simp]: "py_str_int i \<noteq> []"
  by (simp add: py_str_int_def)

lemma json_opt_int_unique:
  assumes "json_opt py_str_int a @ CHR '','' # r = json_opt py_str_int b @ CHR '','' # s"
  shows "a = b \<and> r = s"
proof -
  have head: "py_str_int i @ t \<noteq> ''null'' @ u" for i t u
    using py_str_int_head [of i] py_str_int_nonempty [of i] by (cases "py_str_int i") auto
  have head': "''null'' @ u \<noteq> py_str_int i @ t" for i t u using head [of i t u] by metis
  show ?thesis
  proof (cases a)
    case None
    with assms show ?thesis by (cases b) (use head' in \<open>auto simp: json_opt_def\<close>)
  next
    case (Some i)
    with assms obtain j where b: "b = Some j" by (cases b) (use head in \<open>auto simp: json_opt_def\<close>)
    have "\<not> is_digit (CHR '','')" by simp
    moreover have "py_str_int i @ CHR '','' # r = py_str_int j @ CHR '','' # s"
      using assms Some b by (simp add: json_opt_def)
    ultimately have "i = j \<and> CHR '','' # r = CHR '','' # s" by (intro py_str_int_run_unique) simp_all
    then show ?thesis by (simp add: Some b)
  qed
qed

text \<open>The fields that are hashed.\<close>

definition same_payload :: "audit_entry \<Rightarrow> audit_entry \<Rightarrow> bool" where
  "same_payload e f \<longleftrightarrow>
     ae_case_id e = ae_case_id f \<and> from_state e = from_state f \<and> to_state e = to_state f
     \<and> rule_fired e = rule_fired f \<and> rule_version e = rule_version f \<and> timestamp e = timestamp f
     \<and> entry_actor e = entry_actor f \<and> sequence_id e = sequence_id f \<and> prev_hash e = prev_hash f
     \<and> ae_scheduled_at e = ae_scheduled_at f"

lemma same_payload_eq: "same_payload e f \<Longrightarrow> entry_hash e = entry_hash f \<Longrightarrow> e = (f :: audit_entry)"
  by (simp add: same_payload_def)

definition times_in_range :: "audit_entry \<Rightarrow> bool" where
  "times_in_range e \<longleftrightarrow> dt_in_range (timestamp e)
     \<and> (case ae_scheduled_at e of None \<Rightarrow> True | Some t \<Rightarrow> dt_in_range t)"

lemma json_opt_plain_unique:
  "json_opt json_str a @ r = json_opt json_str b @ s \<Longrightarrow> a = b \<and> r = s"
  using json_opt_str_unique [of "\<lambda>x. x" a r b s] by (simp add: option.map_ident)

lemma json_opt_iso_unique:
  "json_opt (\<lambda>t. json_str (isoformat t)) a @ r = json_opt (\<lambda>t. json_str (isoformat t)) b @ s \<Longrightarrow>
   map_option isoformat a = map_option isoformat b \<and> r = s"
  by (rule json_opt_str_unique)

lemma py_str_int_comma_unique:
  "py_str_int i @ CHR '','' # r = py_str_int j @ CHR '','' # s \<Longrightarrow> i = j \<and> r = s"
  using py_str_int_run_unique [of "CHR '',''" "CHR '',''" i r j s] by simp

text \<open>With any fixed texts between them, the ten values can be read back one after the other.\<close>

lemma ten_fields_unique:
  "p0 @ json_str a @ p1 @ json_str b @ p2 @ json_str c @ p3 @ json_opt json_str d @ p4 @ json_str f @ p5
     @ py_str_int g @ CHR '','' # p6 @ json_opt (\<lambda>t. json_str (isoformat t)) h @ p7
     @ json_opt py_str_int i @ CHR '','' # p8 @ json_str j @ p9 @ json_str k @ p10
   = p0 @ json_str a' @ p1 @ json_str b' @ p2 @ json_str c' @ p3 @ json_opt json_str d' @ p4 @ json_str f' @ p5
     @ py_str_int g' @ CHR '','' # p6 @ json_opt (\<lambda>t. json_str (isoformat t)) h' @ p7
     @ json_opt py_str_int i' @ CHR '','' # p8 @ json_str j' @ p9 @ json_str k' @ p10 \<Longrightarrow>
   a = a' \<and> b = b' \<and> c = c' \<and> d = d' \<and> f = f' \<and> g = g'
   \<and> map_option isoformat h = map_option isoformat h' \<and> i = i' \<and> j = j' \<and> k = k'"
  by (simp only: same_append_eq)
    (drule json_str_unique json_opt_plain_unique json_opt_iso_unique py_str_int_comma_unique
      json_opt_int_unique, elim conjE, (simp only: same_append_eq)?)+

lemma six_fields_unique:
  "p0 @ json_str a @ p1 @ json_str b @ p2 @ json_str c @ p3 @ json_opt json_str d @ p4 @ json_str f @ p5
     @ py_str_int g @ CHR '','' # r
   = p0 @ json_str a' @ p1 @ json_str b' @ p2 @ json_str c' @ p3 @ json_opt json_str d' @ p4 @ json_str f' @ p5
     @ py_str_int g' @ CHR '','' # r' \<Longrightarrow>
   r = r'"
  by (simp only: same_append_eq)
    (drule json_str_unique json_opt_plain_unique py_str_int_comma_unique, elim conjE, (simp only: same_append_eq)?)+

lemma isoformat_option_inj:
  "(case a of None \<Rightarrow> True | Some t \<Rightarrow> dt_in_range t) \<Longrightarrow> (case b of None \<Rightarrow> True | Some t \<Rightarrow> dt_in_range t) \<Longrightarrow>
   map_option isoformat a = map_option isoformat b \<Longrightarrow> a = b"
  by (cases a; cases b) (auto dest: isoformat_inj)

lemma serialize_inj:
  assumes "times_in_range e" and "times_in_range f" and "serialize_entry e = serialize_entry f"
  shows "same_payload e f"
proof -
  have split: "serialize_entry x =
      (''{'' @ json_key ''actor'') @ json_str (actor_name (entry_actor x))
     @ ('', '' @ json_key ''case_id'') @ json_str (ae_case_id x)
     @ ('', '' @ json_key ''from_state'') @ json_str (state_name (from_state x))
     @ ('', '' @ json_key ''prev_hash'') @ json_opt json_str (prev_hash x)
     @ ('', '' @ json_key ''rule_fired'') @ json_str (rule_fired x)
     @ ('', '' @ json_key ''rule_version'') @ py_str_int (rule_version x)
     @ CHR '','' # ('' '' @ json_key ''scheduled_at'') @ json_opt (\<lambda>t. json_str (isoformat t)) (ae_scheduled_at x)
     @ ('', '' @ json_key ''sequence_id'') @ json_opt py_str_int (sequence_id x)
     @ CHR '','' # ('' '' @ json_key ''timestamp'') @ json_str (isoformat (timestamp x))
     @ ('', '' @ json_key ''to_state'') @ json_str (state_name (to_state x)) @ ''}''" for x
    by (simp add: serialize_entry_def)
  from ten_fields_unique [OF assms(3) [unfolded split]] assms(1,2) show ?thesis
    by (auto simp: same_payload_def actor_name_inj state_name_inj times_in_range_def
        dest: isoformat_inj isoformat_option_inj)
qed

section \<open>The endpoint's check\<close>

text \<open>The loop of \<^verbatim>\<open>verify_chain\<close> in \<^verbatim>\<open>app/main.py\<close>: the first break is reported with its sequence number.\<close>

datatype chain_verdict = No_entries | Chain_break "int option" | Hash_mismatch "int option" | Chain_intact

fun check_chain :: "string option \<Rightarrow> audit_entry list \<Rightarrow> chain_verdict" where
  "check_chain prev [] = Chain_intact"
| "check_chain prev (e # es) =
     (if prev_hash e \<noteq> prev then Chain_break (sequence_id e)
      else if entry_hash e \<noteq> Some (hash_entry e) then Hash_mismatch (sequence_id e)
      else check_chain (entry_hash e) es)"

definition verify_chain_endpoint :: "string \<Rightarrow> case_store \<Rightarrow> chain_verdict" where
  "verify_chain_endpoint cid s =
     (let audit = get_audit_trail cid s in if audit = [] then No_entries else check_chain None audit)"

fun linked :: "string option \<Rightarrow> audit_entry list \<Rightarrow> bool" where
  "linked prev [] = True"
| "linked prev (e # es) = (prev_hash e = prev \<and> entry_hash e = Some (hash_entry e) \<and> linked (entry_hash e) es)"

lemma check_chain_linked: "check_chain prev es = Chain_intact \<longleftrightarrow> linked prev es"
  by (induction prev es rule: check_chain.induct) auto

lemma linked_append:
  "linked prev (es @ fs) \<longleftrightarrow> linked prev es \<and> linked (if es = [] then prev else entry_hash (last es)) fs"
  by (induction es arbitrary: prev) auto

text \<open>Sealing an entry onto a linked trail keeps it linked.\<close>

lemma hash_entry_ignores_hash [simp]: "hash_entry (e\<lparr>entry_hash := h\<rparr>) = hash_entry e"
  by (simp add: hash_entry_def serialize_entry_def)

lemma seal_sel [simp]:
  "ae_case_id (seal trail n e) = ae_case_id e"
  "from_state (seal trail n e) = from_state e"
  "to_state (seal trail n e) = to_state e"
  "rule_fired (seal trail n e) = rule_fired e"
  "rule_version (seal trail n e) = rule_version e"
  "timestamp (seal trail n e) = timestamp e"
  "entry_actor (seal trail n e) = entry_actor e"
  "ae_scheduled_at (seal trail n e) = ae_scheduled_at e"
  "prev_hash (seal trail n e) = last_hash trail"
  "entry_hash (seal trail n e) = Some (hash_entry (seal trail n e))"
  by (simp_all add: seal_def Let_def split: option.split)

lemma seal_sequence: "sequence_id (seal trail n e) = (case sequence_id e of None \<Rightarrow> Some n | Some i \<Rightarrow> Some i)"
  by (simp add: seal_def Let_def split: option.split)

lemma linked_seal: "linked None trail \<Longrightarrow> linked None (trail @ [seal trail n e])"
  by (simp add: linked_append last_hash_def)

section \<open>The explainer's quick check\<close>

fun chain_integrity_from :: "string option \<Rightarrow> audit_entry list \<Rightarrow> bool" where
  "chain_integrity_from prev [] = True"
| "chain_integrity_from prev (e # es) =
     (if entry_hash e = None \<or> entry_hash e = Some [] then False
      else if prev_hash e \<noteq> prev then False
      else chain_integrity_from (entry_hash e) es)"

definition verify_chain_integrity :: "audit_entry list \<Rightarrow> bool" where
  "verify_chain_integrity es = chain_integrity_from None es"

lemma hash_entry_nonempty [simp]: "hash_entry e \<noteq> []"
  by (simp add: hash_entry_def sha256_hex_nonempty)

lemma linked_integrity: "linked prev es \<Longrightarrow> chain_integrity_from prev es"
  by (induction prev es rule: linked.induct) auto

text \<open>The quick check does not look at what an entry says.\<close>

lemma integrity_ignores_payload:
  "map (\<lambda>e. (prev_hash e, entry_hash e)) es = map (\<lambda>e. (prev_hash e, entry_hash e)) fs \<Longrightarrow>
   chain_integrity_from prev es = chain_integrity_from prev fs"
proof (induction es arbitrary: prev fs)
  case Nil
  then show ?case by simp
next
  case (Cons e es)
  then obtain f fs' where "fs = f # fs'" "prev_hash f = prev_hash e" "entry_hash f = entry_hash e"
    "map (\<lambda>e. (prev_hash e, entry_hash e)) es = map (\<lambda>e. (prev_hash e, entry_hash e)) fs'"
    by (cases fs) auto
  with Cons.IH [of fs'] show ?case by simp
qed

text \<open>
  The explainer's check accepts every trail the endpoint finds intact, but it sees only the links:
  rewriting the rule, the states or the time of any entry never changes its answer.
\<close>

theorem explainer_check_sees_links_only:
  "(check_chain None es = Chain_intact \<longrightarrow> verify_chain_integrity es)
   \<and> (i < length es \<longrightarrow>
        verify_chain_integrity (es[i := (es ! i)\<lparr>rule_fired := r, from_state := a, to_state := b, timestamp := t\<rparr>])
          = verify_chain_integrity es)"
proof (intro conjI impI)
  assume "check_chain None es = Chain_intact"
  then show "verify_chain_integrity es"
    by (simp add: check_chain_linked verify_chain_integrity_def linked_integrity)
next
  assume "i < length es"
  then have "map (\<lambda>e. (prev_hash e, entry_hash e))
      (es[i := (es ! i)\<lparr>rule_fired := r, from_state := a, to_state := b, timestamp := t\<rparr>])
      = map (\<lambda>e. (prev_hash e, entry_hash e)) es"
    by (intro nth_equalityI) (auto simp: nth_list_update)
  then show "verify_chain_integrity (es[i := (es ! i)\<lparr>rule_fired := r, from_state := a, to_state := b, timestamp := t\<rparr>])
      = verify_chain_integrity es"
    unfolding verify_chain_integrity_def by (rule integrity_ignores_payload)
qed

definition sample_entry :: "case_state \<Rightarrow> case_state \<Rightarrow> string \<Rightarrow> audit_entry" where
  "sample_entry a b rule =
     \<lparr>ae_case_id = ''p2'', from_state = a, to_state = b, rule_fired = rule, rule_version = 2, timestamp = 0,
      entry_actor = Agent, sequence_id = None, prev_hash = None, entry_hash = None, ae_scheduled_at = None\<rparr>"

definition sample_trail :: "audit_entry list" where
  "sample_trail =
     (let e = seal [] 1 (sample_entry RECEIVED CLASSIFIED ''create_case'')
      in [e, seal [e] 2 (sample_entry CLASSIFIED TREATMENT ''assign_bucket_treatment'')])"

lemma sample_trail_linked: "linked None sample_trail"
proof -
  have "linked None ([seal [] 1 (sample_entry RECEIVED CLASSIFIED ''create_case'')]
      @ [seal [seal [] 1 (sample_entry RECEIVED CLASSIFIED ''create_case'')] 2
           (sample_entry CLASSIFIED TREATMENT ''assign_bucket_treatment'')])"
    by (rule linked_seal) (use linked_seal [of "[]"] in simp)
  then show ?thesis by (simp add: sample_trail_def Let_def)
qed

lemma sample_trail_times: "\<forall>e \<in> set sample_trail. times_in_range e"
  by (simp add: sample_trail_def Let_def times_in_range_def sample_entry_def dt_in_range_def epoch_ordinal_def)

theorem explainer_check_sees_links_only_witness:
  "verify_chain_integrity sample_trail
   \<and> verify_chain_integrity (sample_trail[1 := (sample_trail ! 1)\<lparr>rule_fired := ''forged'', from_state := CLASSIFIED,
        to_state := RECOVERED, timestamp := 5\<rparr>])"
proof -
  have "check_chain None sample_trail = Chain_intact" using sample_trail_linked check_chain_linked by blast
  moreover have "1 < length sample_trail" by (simp add: sample_trail_def Let_def)
  ultimately show ?thesis
    using explainer_check_sees_links_only [where es = sample_trail and i = 1 and r = "''forged''"
        and a = CLASSIFIED and b = RECOVERED and t = 5] by blast
qed

section \<open>What the last hash commits to\<close>

lemma linked_snoc:
  "linked None (es @ [e]) \<longleftrightarrow>
     linked None es \<and> prev_hash e = last_hash es \<and> entry_hash e = Some (hash_entry e)"
  by (auto simp: linked_append last_hash_def)

lemma last_hash_linked: "linked None es \<Longrightarrow> last_hash es = None \<longleftrightarrow> es = []"
  by (cases es rule: rev_cases) (auto simp: linked_snoc last_hash_def)

definition collision :: "audit_entry list \<Rightarrow> audit_entry list \<Rightarrow> bool" where
  "collision es fs \<longleftrightarrow>
     (\<exists>e \<in> set es. \<exists>f \<in> set fs. serialize_entry e \<noteq> serialize_entry f
        \<and> sha256_hex (serialize_entry e) = sha256_hex (serialize_entry f))"

lemma collision_mono: "collision es fs \<Longrightarrow> set es \<subseteq> set es' \<Longrightarrow> set fs \<subseteq> set fs' \<Longrightarrow> collision es' fs'"
  by (auto simp: collision_def)

lemma chain_determined:
  assumes "linked None es" and "linked None fs" and "last_hash es = last_hash fs"
    and "\<forall>e \<in> set (es @ fs). times_in_range e"
  shows "es = fs \<or> collision es fs"
  using assms
proof (induction es arbitrary: fs rule: rev_induct)
  case Nil
  then show ?case using last_hash_linked [of fs] by (simp add: last_hash_def)
next
  case (snoc e es)
  then have "fs \<noteq> []" using last_hash_linked [of "es @ [e]"] last_hash_linked [of fs] by auto
  then obtain gs f where fs: "fs = gs @ [f]" by (metis rev_exhaust)
  from snoc.prems fs have e: "linked None es" "prev_hash e = last_hash es" "entry_hash e = Some (hash_entry e)"
    and f: "linked None gs" "prev_hash f = last_hash gs" "entry_hash f = Some (hash_entry f)"
    by (simp_all add: linked_snoc)
  from snoc.prems(3) fs have same: "entry_hash e = entry_hash f" by (simp add: last_hash_def)
  show ?case
  proof (cases "serialize_entry e = serialize_entry f")
    case True
    with snoc.prems(4) fs have "same_payload e f" by (intro serialize_inj) auto
    then have "e = f" "last_hash es = last_hash gs"
      using same e(2) f(2) same_payload_eq by (auto simp: same_payload_def)
    with snoc.IH [OF e(1) f(1)] snoc.prems(4) fs show ?thesis
      using collision_mono [of es gs "es @ [e]" fs] by auto
  next
    case False
    with same e(3) f(3) have "collision (es @ [e]) fs"
      by (auto simp: collision_def hash_entry_def fs)
    then show ?thesis ..
  qed
qed

text \<open>
  C35. Tamper evidence: the hash of the last entry commits to the whole trail.  If two trails both pass
  the endpoint's check and end in the same hash, then they are the same trail, entry by entry and field
  by field, or they contain two entries whose different texts have the same SHA-256 digest.
\<close>

theorem last_hash_commits_to_trail:
  assumes "check_chain None es = Chain_intact" and "check_chain None fs = Chain_intact"
    and "es \<noteq> []" and "fs \<noteq> []" and "entry_hash (last es) = entry_hash (last fs)"
    and "\<forall>e \<in> set (es @ fs). times_in_range e"
  shows "es = fs \<or> (\<exists>e \<in> set es. \<exists>f \<in> set fs. serialize_entry e \<noteq> serialize_entry f
           \<and> sha256_hex (serialize_entry e) = sha256_hex (serialize_entry f))"
  using chain_determined [of es fs] assms by (simp add: check_chain_linked last_hash_def collision_def)

theorem last_hash_commits_to_trail_witness:
  "check_chain None sample_trail = Chain_intact \<and> length sample_trail = 2
   \<and> (sample_trail = sample_trail @ [] \<or> collision sample_trail (sample_trail @ []))"
proof -
  have "check_chain None sample_trail = Chain_intact" "check_chain None (sample_trail @ []) = Chain_intact"
    using sample_trail_linked check_chain_linked by simp_all
  moreover have "sample_trail \<noteq> []" "length sample_trail = 2" by (simp_all add: sample_trail_def Let_def)
  ultimately show ?thesis
    using last_hash_commits_to_trail [of sample_trail "sample_trail @ []"] sample_trail_times
    by (simp add: collision_def)
qed

end
