(* ===== verification/Export_Verifier.thy ===== *)
theory Export_Verifier
  imports Audit_Chain Config
begin

text \<open>
  The stand-alone verifier \<^verbatim>\<open>verify_chain.py\<close>, which reads an exported trail as JSON values, and the
  exports it is given.
\<close>

section \<open>json.dumps\<close>

text \<open>
  \<^verbatim>\<open>json.dumps(value, sort_keys=True)\<close>.  The text of a float is a parameter of the model; it plays no
  part in the entries the program exports.
\<close>

fun str_less :: "string \<Rightarrow> string \<Rightarrow> bool" where
  "str_less _ [] = False"
| "str_less [] (_ # _) = True"
| "str_less (a # s) (b # t) = (ord_of a < ord_of b \<or> a = b \<and> str_less s t)"

fun insert_item :: "string \<times> string \<Rightarrow> (string \<times> string) list \<Rightarrow> (string \<times> string) list" where
  "insert_item p [] = [p]"
| "insert_item p (q # qs) = (if str_less (fst q) (fst p) then q # insert_item p qs else p # q # qs)"

fun comma_join :: "string list \<Rightarrow> string" where
  "comma_join [] = []"
| "comma_join [s] = s"
| "comma_join (s # ss) = s @ '', '' @ comma_join ss"

fun json_dumps :: "(rat \<Rightarrow> string) \<Rightarrow> pyval \<Rightarrow> string" where
  "json_dumps ft PNone = ''null''"
| "json_dumps ft (PBool b) = (if b then ''true'' else ''false'')"
| "json_dumps ft (PInt i) = py_str_int i"
| "json_dumps ft (PFloat r) = ft r"
| "json_dumps ft (PStr s) = json_str s"
| "json_dumps ft (PList xs) = ''['' @ comma_join (map (json_dumps ft) xs) @ '']''"
| "json_dumps ft (PDict d) =
     ''{'' @ comma_join (map (\<lambda>(k, t). json_str k @ '': '' @ t)
              (foldr insert_item (map (\<lambda>(k, v). (k, json_dumps ft v)) d) [])) @ ''}''"

section \<open>The verifier\<close>

definition hashed_fields :: "string list" where
  "hashed_fields =
     [''case_id'', ''from_state'', ''to_state'', ''rule_fired'', ''rule_version'', ''timestamp'', ''actor'',
      ''sequence_id'', ''prev_hash'']"

definition compute_hash :: "(rat \<Rightarrow> string) \<Rightarrow> pyval \<Rightarrow> string result" where
  "compute_hash ft entry =
     bindR (mapR (\<lambda>k. bindR (py_item entry k) (\<lambda>v. Inr (k, v))) hashed_fields) (\<lambda>d.
       Inr (sha256_hex (json_dumps ft (PDict d))))"

fun verify_from :: "(rat \<Rightarrow> string) \<Rightarrow> pyval \<Rightarrow> pyval list \<Rightarrow> bool result" where
  "verify_from ft prev [] = Inr True"
| "verify_from ft prev (entry # rest) =
     bindR (py_item entry ''prev_hash'') (\<lambda>p.
       if p \<noteq> prev then bindR (py_item entry ''sequence_id'') (\<lambda>_. Inr False)
       else bindR (compute_hash ft entry) (\<lambda>expected.
            bindR (py_get entry ''entry_hash'' PNone) (\<lambda>stored.
              if stored \<noteq> PStr expected then bindR (py_item entry ''sequence_id'') (\<lambda>_. Inr False)
              else verify_from ft stored rest)))"

definition verify_chain :: "(rat \<Rightarrow> string) \<Rightarrow> pyval list \<Rightarrow> bool result" where
  "verify_chain ft audit = verify_from ft PNone audit"

text \<open>What a \<^verbatim>\<open>for\<close> loop runs over.\<close>

fun py_iter :: "pyval \<Rightarrow> pyval list result" where
  "py_iter (PList xs) = Inr xs"
| "py_iter (PDict d) = Inr (map (\<lambda>(k, v). PStr k) d)"
| "py_iter (PStr s) = Inr (map (\<lambda>c. PStr [c]) s)"
| "py_iter _ = Inl TypeError"

text \<open>The exit status of the script on the parsed file.\<close>

definition verify_main :: "(rat \<Rightarrow> string) \<Rightarrow> pyval \<Rightarrow> int result" where
  "verify_main ft data =
     bindR (has_key data ''audit'') (\<lambda>present.
       if \<not> present then Inr 1
       else bindR (bindR (py_item data ''audit'') py_iter) (\<lambda>audit.
            bindR (verify_chain ft audit) (\<lambda>ok. Inr (if ok then 0 else 1))))"

section \<open>Exports\<close>

definition opt_val :: "('a \<Rightarrow> pyval) \<Rightarrow> 'a option \<Rightarrow> pyval" where
  "opt_val f x = (case x of None \<Rightarrow> PNone | Some y \<Rightarrow> f y)"

text \<open>An entry of the receipt endpoint, which has no case id, and the entry the script documents.\<close>

definition receipt_row :: "audit_entry \<Rightarrow> (string \<times> pyval) list" where
  "receipt_row e =
     [(''sequence_id'', opt_val PInt (sequence_id e)), (''from_state'', PStr (state_name (from_state e))),
      (''to_state'', PStr (state_name (to_state e))), (''rule_fired'', PStr (rule_fired e)),
      (''rule_version'', PInt (rule_version e)), (''timestamp'', PStr (isoformat (timestamp e))),
      (''actor'', PStr (actor_name (entry_actor e))),
      (''scheduled_at'', opt_val (\<lambda>t. PStr (isoformat t)) (ae_scheduled_at e)),
      (''entry_hash'', opt_val PStr (entry_hash e)), (''prev_hash'', opt_val PStr (prev_hash e))]"

definition full_row :: "audit_entry \<Rightarrow> (string \<times> pyval) list" where
  "full_row e = (''case_id'', PStr (ae_case_id e)) # receipt_row e"

text \<open>The text the script hashes for a full row: nine fields, without the scheduled instant.\<close>

definition nine_field_text :: "audit_entry \<Rightarrow> string" where
  "nine_field_text e =
     ''{'' @ json_key ''actor'' @ json_str (actor_name (entry_actor e))
     @ '', '' @ json_key ''case_id'' @ json_str (ae_case_id e)
     @ '', '' @ json_key ''from_state'' @ json_str (state_name (from_state e))
     @ '', '' @ json_key ''prev_hash'' @ json_opt json_str (prev_hash e)
     @ '', '' @ json_key ''rule_fired'' @ json_str (rule_fired e)
     @ '', '' @ json_key ''rule_version'' @ py_str_int (rule_version e)
     @ '', '' @ json_key ''sequence_id'' @ json_opt py_str_int (sequence_id e)
     @ '', '' @ json_key ''timestamp'' @ json_str (isoformat (timestamp e))
     @ '', '' @ json_key ''to_state'' @ json_str (state_name (to_state e)) @ ''}''"

lemma dumps_opt:
  "json_dumps ft (opt_val PStr a) = json_opt json_str a"
  "json_dumps ft (opt_val PInt b) = json_opt py_str_int b"
  by (simp_all add: opt_val_def json_opt_def split: option.split)

lemma compute_hash_full:
  "compute_hash ft (PDict (full_row e)) = Inr (sha256_hex (nine_field_text e))"
  by (simp add: compute_hash_def hashed_fields_def full_row_def receipt_row_def nine_field_text_def json_key_def
      dumps_opt ord_of_def)

section \<open>The script and the store disagree\<close>

lemma nine_fields_differ: "nine_field_text e \<noteq> serialize_entry f"
proof
  assume eq: "nine_field_text e = serialize_entry f"
  have nine: "nine_field_text x =
      (''{'' @ json_key ''actor'') @ json_str (actor_name (entry_actor x))
     @ ('', '' @ json_key ''case_id'') @ json_str (ae_case_id x)
     @ ('', '' @ json_key ''from_state'') @ json_str (state_name (from_state x))
     @ ('', '' @ json_key ''prev_hash'') @ json_opt json_str (prev_hash x)
     @ ('', '' @ json_key ''rule_fired'') @ json_str (rule_fired x)
     @ ('', '' @ json_key ''rule_version'') @ py_str_int (rule_version x)
     @ CHR '','' # ('' '' @ json_key ''sequence_id'' @ json_opt py_str_int (sequence_id x)
        @ '', '' @ json_key ''timestamp'' @ json_str (isoformat (timestamp x))
        @ '', '' @ json_key ''to_state'' @ json_str (state_name (to_state x)) @ ''}'')" for x
    by (simp add: nine_field_text_def)
  have ten: "serialize_entry x =
      (''{'' @ json_key ''actor'') @ json_str (actor_name (entry_actor x))
     @ ('', '' @ json_key ''case_id'') @ json_str (ae_case_id x)
     @ ('', '' @ json_key ''from_state'') @ json_str (state_name (from_state x))
     @ ('', '' @ json_key ''prev_hash'') @ json_opt json_str (prev_hash x)
     @ ('', '' @ json_key ''rule_fired'') @ json_str (rule_fired x)
     @ ('', '' @ json_key ''rule_version'') @ py_str_int (rule_version x)
     @ CHR '','' # ('' '' @ json_key ''scheduled_at'' @ json_opt (\<lambda>t. json_str (isoformat t)) (ae_scheduled_at x)
        @ '', '' @ json_key ''sequence_id'' @ json_opt py_str_int (sequence_id x)
        @ '', '' @ json_key ''timestamp'' @ json_str (isoformat (timestamp x))
        @ '', '' @ json_key ''to_state'' @ json_str (state_name (to_state x)) @ ''}'')" for x
    by (simp add: serialize_entry_def)
  from six_fields_unique [OF eq [unfolded nine ten]] show False
    by (simp add: json_key_def json_str_def json_esc_def ord_of_def)
qed

lemma row_items:
  "py_item (PDict (full_row e)) ''prev_hash'' = Inr (opt_val PStr (prev_hash e))"
  "py_item (PDict (full_row e)) ''sequence_id'' = Inr (opt_val PInt (sequence_id e))"
  "py_get (PDict (full_row e)) ''entry_hash'' PNone = Inr (opt_val PStr (entry_hash e))"
  "py_item (PDict (receipt_row e)) ''prev_hash'' = Inr (opt_val PStr (prev_hash e))"
  "py_item (PDict (receipt_row e)) ''case_id'' = Inl KeyError"
  by (simp_all add: full_row_def receipt_row_def)

text \<open>
  C40. The stand-alone script rejects every trail the program writes.  Given a non-empty trail the
  endpoint finds intact, exported with the fields the script documents, the script reports a broken
  chain, unless a text of its own collides with the text of the first entry under SHA-256; given the
  export of the receipt endpoint, which has no case ids, it ends in a KeyError.
\<close>

theorem export_script_rejects_stored_trails:
  assumes "check_chain None (e # es) = Chain_intact"
  shows "(sha256_hex (nine_field_text e) \<noteq> sha256_hex (serialize_entry e) \<longrightarrow>
            verify_chain ft (map (\<lambda>x. PDict (full_row x)) (e # es)) = Inr False)
       \<and> nine_field_text e \<noteq> serialize_entry e
       \<and> verify_chain ft (map (\<lambda>x. PDict (receipt_row x)) (e # es)) = Inl KeyError"
proof -
  have first: "prev_hash e = None" "entry_hash e = Some (sha256_hex (serialize_entry e))"
    using assms unfolding check_chain_linked by (simp_all add: hash_entry_def)
  have none: "opt_val PStr (None :: string option) = PNone" by (simp add: opt_val_def)
  have stored: "opt_val PStr (entry_hash e) = PStr (sha256_hex (serialize_entry e))"
    by (simp add: opt_val_def first)
  have crash: "compute_hash ft (PDict (receipt_row e)) = Inl KeyError"
    by (simp add: compute_hash_def hashed_fields_def row_items del: py_item.simps)
  show ?thesis
    using first none stored crash nine_fields_differ
    by (simp add: verify_chain_def row_items compute_hash_full del: py_item.simps py_get.simps)
qed

theorem export_script_rejects_stored_trails_witness:
  "check_chain None sample_trail = Chain_intact
   \<and> verify_chain (\<lambda>_. ''0.5'') (map (\<lambda>x. PDict (receipt_row x)) sample_trail) = Inl KeyError"
proof -
  have intact: "check_chain None sample_trail = Chain_intact" using sample_trail_linked check_chain_linked by blast
  obtain e es where "sample_trail = e # es" by (simp add: sample_trail_def Let_def)
  with intact export_script_rejects_stored_trails [of e es "\<lambda>_. ''0.5''"] show ?thesis by simp
qed

end
