(* ===== verification/Store_Runs.thy ===== *)
theory Store_Runs
  imports Audit_Chain
begin

text \<open>
  The invariant of the in-memory store, that every operation keeps it, and the repository interface the
  request handlers rely on, as a locale that the store interprets.
\<close>

section \<open>The invariant\<close>

definition cases_ok :: "case_store \<Rightarrow> bool" where
  "cases_ok s \<longleftrightarrow> dict_wf (cases s)
     \<and> (\<forall>k c. dict_get (cases s) k = Some c \<longrightarrow>
          case_id c = k \<and> recovery_case_ok c \<and> dict_get (mandate_index s) (mandate_id c) = Some k)
     \<and> (\<forall>m k. dict_get (mandate_index s) m = Some k \<longrightarrow>
          (\<exists>c. dict_get (cases s) k = Some c \<and> mandate_id c = m))
     \<and> (\<forall>p k. dict_get (payment_index s) p = Some k \<longrightarrow> p = k \<and> dict_get (cases s) k \<noteq> None)
     \<and> (\<forall>k. dict_get (cases s) k \<noteq> None \<longrightarrow> dict_get (payment_index s) k = Some k)"

definition failures_ok :: "case_store \<Rightarrow> bool" where
  "failures_ok s \<longleftrightarrow>
     (\<forall>k e. dict_get (failures s) k = Some e \<longrightarrow>
          k = (fe_case_id e, attempt_number e) \<and> 1 \<le> attempt_number e
          \<and> dict_get (payment_attempt_index s) (fe_payment_id e) = Some k)
     \<and> (\<forall>p k. dict_get (payment_attempt_index s) p = Some k \<longrightarrow>
          (\<exists>e. dict_get (failures s) k = Some e \<and> fe_payment_id e = p))"

definition decisions_ok :: "case_store \<Rightarrow> bool" where
  "decisions_ok s \<longleftrightarrow> dict_wf (decisions s)
     \<and> (\<forall>k d. dict_get (decisions s) k = Some d \<longrightarrow> k = decision_key d)"

definition numbered :: "int \<Rightarrow> audit_entry list \<Rightarrow> bool" where
  "numbered n es \<longleftrightarrow> (\<exists>is. map sequence_id es = map Some is \<and> sorted_wrt (<) is \<and> (\<forall>i \<in> set is. i < n))"

definition log_ok :: "case_store \<Rightarrow> bool" where
  "log_ok s \<longleftrightarrow>
     (\<forall>cid es. dict_get (audit_logs s) cid = Some es \<longrightarrow>
        es \<noteq> [] \<and> linked None es \<and> numbered (next_sequence s) es \<and> (\<forall>e \<in> set es. ae_case_id e = cid))"

definition store_ok :: "case_store \<Rightarrow> bool" where
  "store_ok s \<longleftrightarrow> cases_ok s \<and> failures_ok s \<and> decisions_ok s \<and> log_ok s"

lemma store_ok_init: "store_ok InMemoryCaseStore"
  by (simp add: store_ok_def cases_ok_def failures_ok_def decisions_ok_def log_ok_def InMemoryCaseStore_def)

section \<open>Every operation keeps it\<close>

lemma index_mandate_sel [simp]:
  "cases (index_mandate c s) = cases s" "failures (index_mandate c s) = failures s"
  "decisions (index_mandate c s) = decisions s" "audit_logs (index_mandate c s) = audit_logs s"
  "next_sequence (index_mandate c s) = next_sequence s" "payment_index (index_mandate c s) = payment_index s"
  "payment_attempt_index (index_mandate c s) = payment_attempt_index s"
  "mandate_index (index_mandate c s) =
     (if mandate_id c \<noteq> [] then dict_set (mandate_id c) (case_id c) (mandate_index s) else mandate_index s)"
  by (simp_all add: index_mandate_def)

text \<open>Parts an operation does not touch.\<close>

lemma untouched:
  "failures s' = failures s \<Longrightarrow> payment_attempt_index s' = payment_attempt_index s \<Longrightarrow> failures_ok s' = failures_ok s"
  "decisions s' = decisions s \<Longrightarrow> decisions_ok s' = decisions_ok s"
  "audit_logs s' = audit_logs s \<Longrightarrow> next_sequence s' = next_sequence s \<Longrightarrow> log_ok s' = log_ok s"
  "cases s' = cases s \<Longrightarrow> mandate_index s' = mandate_index s \<Longrightarrow> payment_index s' = payment_index s \<Longrightarrow>
   cases_ok s' = cases_ok s"
  by (simp_all add: failures_ok_def decisions_ok_def log_ok_def cases_ok_def)

lemma create_case_Inr:
  assumes "create_case c s = Inr s'"
  shows "dict_get (cases s) (case_id c) = None"
    and "mandate_id c \<noteq> [] \<Longrightarrow> dict_get (mandate_index s) (mandate_id c) \<in> {None, Some [], Some (case_id c)}"
    and "s' = (index_mandate c (s\<lparr>cases := dict_set (case_id c) c (cases s)\<rparr>))
             \<lparr>payment_index := dict_set (case_id c) (case_id c) (payment_index s)\<rparr>"
  using assms by (auto simp: create_case_def Let_def split: if_splits option.splits)

lemma cases_okD:
  assumes "cases_ok s"
  shows "dict_wf (cases s)"
    and "dict_get (cases s) k = Some c \<Longrightarrow> case_id c = k"
    and "dict_get (cases s) k = Some c \<Longrightarrow> recovery_case_ok c"
    and "dict_get (cases s) k = Some c \<Longrightarrow> dict_get (mandate_index s) (mandate_id c) = Some k"
    and "dict_get (mandate_index s) m = Some k \<Longrightarrow> \<exists>c. dict_get (cases s) k = Some c \<and> mandate_id c = m"
    and "dict_get (payment_index s) p = Some k \<Longrightarrow> p = k \<and> dict_get (cases s) k \<noteq> None"
    and "dict_get (cases s) k \<noteq> None \<Longrightarrow> dict_get (payment_index s) k = Some k"
  using assms unfolding cases_ok_def by blast+

text \<open>Writing a case under its own id, with its mandate pointing to it and to no other case.\<close>

lemma cases_ok_write:
  assumes ok: "cases_ok s" and c: "recovery_case_ok c"
    and cs: "cases s' = dict_set (case_id c) c (cases s)"
    and mi: "mandate_index s' = dict_set (mandate_id c) (case_id c) (mandate_index s)"
    and pi: "\<And>p. dict_get (payment_index s') p = (if p = case_id c then Some p else dict_get (payment_index s) p)"
    and mandate: "dict_get (mandate_index s) (mandate_id c) \<in> {None, Some (case_id c)}"
    and same: "\<And>c0. dict_get (cases s) (case_id c) = Some c0 \<Longrightarrow> mandate_id c0 = mandate_id c"
  shows "cases_ok s'"
  unfolding cases_ok_def
proof (intro conjI allI impI)
  show "dict_wf (cases s')" using cases_okD(1) [OF ok] by (simp add: cs)
next
  fix k x assume x: "dict_get (cases s') k = Some x"
  show "case_id x = k" and "recovery_case_ok x"
    using x c cases_okD(2,3) [OF ok] by (auto simp: cs split: if_splits)
  show "dict_get (mandate_index s') (mandate_id x) = Some k"
  proof (cases "k = case_id c")
    case True
    with x show ?thesis by (simp add: cs mi)
  next
    case False
    with x have "dict_get (mandate_index s) (mandate_id x) = Some k" using cases_okD(4) [OF ok] by (simp add: cs)
    with False mandate show ?thesis by (auto simp: mi)
  qed
next
  fix m k assume m: "dict_get (mandate_index s') m = Some k"
  show "\<exists>x. dict_get (cases s') k = Some x \<and> mandate_id x = m"
  proof (cases "m = mandate_id c")
    case True
    with m show ?thesis by (simp add: cs mi)
  next
    case False
    with m obtain x where x: "dict_get (cases s) k = Some x" "mandate_id x = m"
      using cases_okD(5) [OF ok] by (auto simp: mi)
    with False same have "k \<noteq> case_id c" by auto
    with x show ?thesis by (simp add: cs)
  qed
next
  fix p k assume "dict_get (payment_index s') p = Some k"
  then show "p = k" and "dict_get (cases s') k \<noteq> None"
    using cases_okD(6) [OF ok] by (auto simp: pi cs split: if_splits)
next
  fix k assume "dict_get (cases s') k \<noteq> None"
  then show "dict_get (payment_index s') k = Some k"
    using cases_okD(7) [OF ok] by (auto simp: pi cs split: if_splits)
qed

lemma cases_ok_create:
  assumes "cases_ok s" and "recovery_case_ok c" and "create_case c s = Inr s'"
  shows "cases_ok s'"
proof -
  note c = create_case_Inr [OF assms(3)]
  from assms(2) have mid: "mandate_id c \<noteq> []" by (simp add: recovery_case_ok_def)
  have "dict_get (mandate_index s) (mandate_id c) \<noteq> Some []"
    using cases_okD(2,3,5) [OF assms(1)] by (fastforce simp: recovery_case_ok_def)
  with c(2) [OF mid] have "dict_get (mandate_index s) (mandate_id c) \<in> {None, Some (case_id c)}" by blast
  with c(1) mid show ?thesis by (intro cases_ok_write [OF assms(1,2)]) (auto simp: c(3))
qed

lemma update_case_Inr:
  assumes "update_case c s = Inr s'"
  shows "dict_get (cases s) (case_id c) \<noteq> None"
    and "s' = index_mandate c (s\<lparr>cases := dict_set (case_id c) c (cases s)\<rparr>)"
  using assms by (auto simp: update_case_def split: if_splits)

lemma cases_ok_update:
  assumes "cases_ok s" and "recovery_case_ok c" and "get_case (case_id c) s = Inr c0"
    and "mandate_id c = mandate_id c0" and "update_case c s = Inr s'"
  shows "cases_ok s'"
proof -
  note u = update_case_Inr [OF assms(5)]
  from assms(2) have mid: "mandate_id c \<noteq> []" by (simp add: recovery_case_ok_def)
  from assms(3) have c0: "dict_get (cases s) (case_id c) = Some c0" by (simp add: get_case_def)
  with cases_okD(4) [OF assms(1)] assms(4) have "dict_get (mandate_index s) (mandate_id c) = Some (case_id c)" by simp
  with c0 mid assms(4) cases_okD(7) [OF assms(1), of "case_id c"] show ?thesis
    by (intro cases_ok_write [OF assms(1,2)]) (auto simp: u(2))
qed

text \<open>Failures and decisions.\<close>

lemma failures_ok_record:
  assumes "failures_ok s" and "1 \<le> attempt_number e" and "record_failure e s = Inr s'"
  shows "failures_ok s'"
proof -
  from assms(3) have fresh: "dict_get (failures s) (fe_case_id e, attempt_number e) = None"
    "dict_get (payment_attempt_index s) (fe_payment_id e) = None"
    and s': "s' = s\<lparr>failures := dict_set (fe_case_id e, attempt_number e) e (failures s),
        payment_attempt_index := dict_set (fe_payment_id e) (fe_case_id e, attempt_number e) (payment_attempt_index s)\<rparr>"
    by (auto simp: record_failure_def Let_def split: if_splits del: notI simp del: not_None_eq)
  have old: "dict_get (failures s) k = Some x \<Longrightarrow> k = (fe_case_id x, attempt_number x) \<and> 1 \<le> attempt_number x
      \<and> dict_get (payment_attempt_index s) (fe_payment_id x) = Some k" for k x
    using assms(1) unfolding failures_ok_def by blast
  have old': "dict_get (payment_attempt_index s) p = Some k \<Longrightarrow>
      \<exists>x. dict_get (failures s) k = Some x \<and> fe_payment_id x = p" for p k
    using assms(1) unfolding failures_ok_def by blast
  show ?thesis unfolding failures_ok_def
  proof (intro conjI allI impI)
    fix k x assume x: "dict_get (failures s') k = Some x"
    show "k = (fe_case_id x, attempt_number x)" and "1 \<le> attempt_number x"
      using x old assms(2) by (auto simp: s' split: if_splits)
    show "dict_get (payment_attempt_index s') (fe_payment_id x) = Some k"
      using x old [of k x] fresh by (cases "k = (fe_case_id e, attempt_number e)") (simp_all add: s', force)
  next
    fix p k assume p: "dict_get (payment_attempt_index s') p = Some k"
    show "\<exists>x. dict_get (failures s') k = Some x \<and> fe_payment_id x = p"
      using p old' [of p k] fresh by (cases "p = fe_payment_id e") (simp_all add: s', force)
  qed
qed

lemma decisions_ok_write:
  "decisions_ok s \<Longrightarrow> decisions s' = dict_set (decision_key d) d (decisions s) \<Longrightarrow> decisions_ok s'"
  by (auto simp: decisions_ok_def split: if_splits)

lemma decisions_ok_record: "decisions_ok s \<Longrightarrow> record_retry_decision d s = Inr s' \<Longrightarrow> decisions_ok s'"
  by (erule decisions_ok_write) (auto simp: record_retry_decision_def split: if_splits)

lemma decisions_ok_update: "decisions_ok s \<Longrightarrow> update_retry_decision d s = Inr s' \<Longrightarrow> decisions_ok s'"
  by (erule decisions_ok_write) (auto simp: update_retry_decision_def split: if_splits)

text \<open>The log.\<close>

lemma trail_append_same [simp]:
  "get_audit_trail (ae_case_id e) (append_audit e s)
     = get_audit_trail (ae_case_id e) s @ [seal (get_audit_trail (ae_case_id e) s) (next_sequence s) e]"
  by (simp add: get_audit_trail_def append_audit_def Let_def)

lemma trail_append_other:
  "cid \<noteq> ae_case_id e \<Longrightarrow> get_audit_trail cid (append_audit e s) = get_audit_trail cid s"
  by (simp add: get_audit_trail_def append_audit_def Let_def)

lemma append_audit_sel [simp]:
  "cases (append_audit e s) = cases s" "failures (append_audit e s) = failures s"
  "decisions (append_audit e s) = decisions s" "mandate_index (append_audit e s) = mandate_index s"
  "payment_index (append_audit e s) = payment_index s"
  "payment_attempt_index (append_audit e s) = payment_attempt_index s"
  by (simp_all add: append_audit_def Let_def)

lemma log_ok_trail:
  "log_ok s \<Longrightarrow> linked None (get_audit_trail cid s) \<and> numbered (next_sequence s) (get_audit_trail cid s)
     \<and> (\<forall>e \<in> set (get_audit_trail cid s). ae_case_id e = cid)"
  by (cases "dict_get (audit_logs s) cid") (simp_all add: log_ok_def get_audit_trail_def numbered_def)

lemma log_okD:
  assumes "log_ok s"
  shows "linked None (get_audit_trail cid s)" and "numbered (next_sequence s) (get_audit_trail cid s)"
    and "e \<in> set (get_audit_trail cid s) \<Longrightarrow> ae_case_id e = cid"
  using log_ok_trail [OF assms, of cid] by blast+

lemma numbered_later: "numbered n es \<Longrightarrow> n \<le> m \<Longrightarrow> numbered m es"
  unfolding numbered_def by fastforce

lemma numbered_snoc: "numbered n es \<Longrightarrow> sequence_id e = Some n \<Longrightarrow> numbered (n + 1) (es @ [e])"
proof -
  assume "numbered n es" "sequence_id e = Some n"
  then obtain "is" where "map sequence_id es = map Some is" "sorted_wrt (<) is" "\<forall>i \<in> set is. i < n"
    by (auto simp: numbered_def)
  then have "map sequence_id (es @ [e]) = map Some (is @ [n])" "sorted_wrt (<) (is @ [n])"
    "\<forall>i \<in> set (is @ [n]). i < n + 1"
    using \<open>sequence_id e = Some n\<close> by (auto simp: sorted_wrt_append)
  then show ?thesis unfolding numbered_def by blast
qed

lemma log_ok_append:
  assumes "log_ok s" and "sequence_id e = None"
  shows "log_ok (append_audit e s)"
proof -
  have n: "next_sequence (append_audit e s) = next_sequence s + 1" using assms(2) by (simp add: append_audit_def Let_def)
  let ?trail = "get_audit_trail (ae_case_id e) s"
  let ?e = "seal ?trail (next_sequence s) e"
  have new1: "linked None (?trail @ [?e])" by (rule linked_seal [OF log_okD(1) [OF assms(1)]])
  have new2: "numbered (next_sequence s + 1) (?trail @ [?e])"
    by (rule numbered_snoc [OF log_okD(2) [OF assms(1)]]) (simp add: seal_sequence assms(2))
  have new3: "\<forall>x \<in> set (?trail @ [?e]). ae_case_id x = ae_case_id e"
    using log_ok_trail [OF assms(1), of "ae_case_id e"] by simp
  have log1: "dict_get (audit_logs (append_audit e s)) (ae_case_id e) = Some (?trail @ [?e])"
    and log2: "cid \<noteq> ae_case_id e \<Longrightarrow>
      dict_get (audit_logs (append_audit e s)) cid = dict_get (audit_logs s) cid" for cid
    by (simp_all add: append_audit_def Let_def)
  show ?thesis unfolding log_ok_def n
  proof (intro allI impI)
    fix cid es assume h: "dict_get (audit_logs (append_audit e s)) cid = Some es"
    show "es \<noteq> [] \<and> linked None es \<and> numbered (next_sequence s + 1) es \<and> (\<forall>x \<in> set es. ae_case_id x = cid)"
    proof (cases "cid = ae_case_id e")
      case True
      then have "?trail @ [?e] = es" using h log1 by simp
      with new1 new2 new3 True show ?thesis by blast
    next
      case False
      then have "dict_get (audit_logs s) cid = Some es" using h log2 by simp
      with assms(1) show ?thesis
        using numbered_later [of "next_sequence s" es "next_sequence s + 1"] by (auto simp: log_ok_def)
    qed
  qed
qed

section \<open>Reachable stores\<close>

text \<open>
  A step is one successful call.  Its premises are what the constructors of the arguments have checked,
  and that a case's mandate is never reassigned (no code does).
\<close>

inductive store_step :: "case_store \<Rightarrow> case_store \<Rightarrow> bool" where
  created: "recovery_case_ok c \<Longrightarrow> create_case c s = Inr s' \<Longrightarrow> store_step s s'"
| updated: "recovery_case_ok c \<Longrightarrow> get_case (case_id c) s = Inr c0 \<Longrightarrow> mandate_id c = mandate_id c0 \<Longrightarrow>
     update_case c s = Inr s' \<Longrightarrow> store_step s s'"
| failed: "failure_event_ok e \<Longrightarrow> record_failure e s = Inr s' \<Longrightarrow> store_step s s'"
| decided: "record_retry_decision d s = Inr s' \<Longrightarrow> store_step s s'"
| redecided: "update_retry_decision d s = Inr s' \<Longrightarrow> store_step s s'"
| audited: "sequence_id e = None \<Longrightarrow> store_step s (append_audit e s)"

inductive reachable :: "case_store \<Rightarrow> bool" where
  initial: "reachable InMemoryCaseStore"
| later: "reachable s \<Longrightarrow> store_step s s' \<Longrightarrow> reachable s'"

lemma store_step_ok: "store_step s s' \<Longrightarrow> store_ok s \<Longrightarrow> store_ok s'"
proof (induction rule: store_step.induct)
  case (created c s s')
  then show ?case
    using cases_ok_create [of s c s'] create_case_Inr(3) [of c s s'] untouched [of s' s]
    by (auto simp: store_ok_def)
next
  case (updated c s c0 s')
  then show ?case
    using cases_ok_update [of s c c0 s'] update_case_Inr(2) [of c s s'] untouched [of s' s]
    by (auto simp: store_ok_def)
next
  case (failed e s s')
  then have "cases_ok s' = cases_ok s \<and> decisions_ok s' = decisions_ok s \<and> log_ok s' = log_ok s"
    using untouched(2-4) [of s' s] by (auto simp: record_failure_def Let_def split: if_splits)
  with failed show ?case
    using failures_ok_record [of s e s'] by (auto simp: store_ok_def failure_event_ok_def)
next
  case (decided d s s')
  then have "cases_ok s' = cases_ok s \<and> failures_ok s' = failures_ok s \<and> log_ok s' = log_ok s"
    using untouched(1,3,4) [of s' s] by (auto simp: record_retry_decision_def split: if_splits)
  with decided show ?case using decisions_ok_record by (auto simp: store_ok_def)
next
  case (redecided d s s')
  then have "cases_ok s' = cases_ok s \<and> failures_ok s' = failures_ok s \<and> log_ok s' = log_ok s"
    using untouched(1,3,4) [of s' s] by (auto simp: update_retry_decision_def split: if_splits)
  with redecided show ?case using decisions_ok_update by (auto simp: store_ok_def)
next
  case (audited e s)
  moreover have "cases_ok (append_audit e s) = cases_ok s" "failures_ok (append_audit e s) = failures_ok s"
    "decisions_ok (append_audit e s) = decisions_ok s"
    by (rule untouched; simp)+
  ultimately show ?case using log_ok_append by (auto simp: store_ok_def)
qed

lemma reachable_ok: "reachable s \<Longrightarrow> store_ok s"
  by (induction rule: reachable.induct) (auto intro: store_ok_init store_step_ok)

end
