(* ===== verification/Repository.thy ===== *)
theory Repository
  imports Store_Runs
begin

text \<open>
  The interface between the store and the request handlers, as locales: a repository of cases, an
  append-only log, and the two together, with the one lemma every handler needs (write the case back,
  then append the entries of the call).  The in-memory store interprets them.
\<close>

section \<open>The contracts\<close>

locale case_repository =
  fixes get :: "string \<Rightarrow> 's \<Rightarrow> recovery_case result"
    and create :: "recovery_case \<Rightarrow> 's \<Rightarrow> 's result"
    and update :: "recovery_case \<Rightarrow> 's \<Rightarrow> 's result"
    and inv :: "'s \<Rightarrow> bool"
  assumes created: "inv s \<Longrightarrow> recovery_case_ok c \<Longrightarrow> create c s = Inr s' \<Longrightarrow>
      inv s' \<and> get (case_id c) s' = Inr c \<and> get (case_id c) s = Inl CaseNotFoundError"
    and create_other: "create c s = Inr s' \<Longrightarrow> k \<noteq> case_id c \<Longrightarrow> get k s' = get k s"
    and create_again: "get (case_id c) s = Inr c0 \<Longrightarrow> create c s = Inl CaseAlreadyExistsError"
    and updated: "inv s \<Longrightarrow> recovery_case_ok c \<Longrightarrow> get (case_id c) s = Inr c0 \<Longrightarrow> mandate_id c = mandate_id c0 \<Longrightarrow>
      \<exists>s'. update c s = Inr s' \<and> inv s' \<and> get (case_id c) s' = Inr c"
    and update_other: "update c s = Inr s' \<Longrightarrow> k \<noteq> case_id c \<Longrightarrow> get k s' = get k s"
    and update_missing: "get (case_id c) s = Inl e \<Longrightarrow> update c s = Inl CaseNotFoundError"
begin

lemma last_write_wins:
  assumes "inv s" and "recovery_case_ok c" and "recovery_case_ok d" and "get (case_id c) s = Inr c0"
    and "mandate_id c = mandate_id c0" and "case_id d = case_id c" and "mandate_id d = mandate_id c"
  shows "\<exists>s'. bindR (update c s) (update d) = Inr s' \<and> inv s' \<and> get (case_id c) s' = Inr d"
proof -
  obtain s1 where s1: "update c s = Inr s1" "inv s1" "get (case_id c) s1 = Inr c"
    using updated [OF assms(1,2,4,5)] by blast
  with assms(6) have "get (case_id d) s1 = Inr c" by simp
  from updated [OF s1(2) assms(3) this assms(7)] s1(1) assms(6) show ?thesis by auto
qed

lemma write_is_local:
  assumes "inv s" and "recovery_case_ok c" and "get (case_id c) s = Inr c0" and "mandate_id c = mandate_id c0"
  shows "\<exists>s'. update c s = Inr s' \<and> inv s' \<and> (\<forall>k. get k s' = (if k = case_id c then Inr c else get k s))"
  using updated [OF assms] update_other [of c s] by fastforce

end

text \<open>An entry as the log keeps it: numbered, linked and hashed, otherwise as it was given.\<close>

definition sealed_from :: "audit_entry \<Rightarrow> audit_entry \<Rightarrow> bool" where
  "sealed_from e f \<longleftrightarrow>
     (\<exists>i p h. f = e\<lparr>sequence_id := Some i, prev_hash := p, entry_hash := Some h\<rparr>)"

lemma seal_sealed_from: "sequence_id e = None \<Longrightarrow> sealed_from e (seal trail n e)"
  by (auto simp: sealed_from_def seal_def Let_def)

lemma sealed_from_sel:
  "sealed_from e f \<Longrightarrow> ae_case_id f = ae_case_id e \<and> from_state f = from_state e \<and> to_state f = to_state e
     \<and> rule_fired f = rule_fired e \<and> timestamp f = timestamp e \<and> ae_scheduled_at f = ae_scheduled_at e
     \<and> rule_version f = rule_version e \<and> entry_actor f = entry_actor e"
  by (auto simp: sealed_from_def)

locale audit_log =
  fixes append :: "audit_entry \<Rightarrow> 's \<Rightarrow> 's"
    and trail :: "string \<Rightarrow> 's \<Rightarrow> audit_entry list"
    and inv :: "'s \<Rightarrow> bool"
  assumes appended: "inv s \<Longrightarrow> sequence_id e = None \<Longrightarrow> inv (append e s)"
    and trail_same: "sequence_id e = None \<Longrightarrow>
      \<exists>f. trail (ae_case_id e) (append e s) = trail (ae_case_id e) s @ [f] \<and> sealed_from e f"
    and trail_other: "k \<noteq> ae_case_id e \<Longrightarrow> trail k (append e s) = trail k s"
    and chained: "inv s \<Longrightarrow> linked None (trail k s)"
begin

lemma append_list:
  "inv s \<Longrightarrow> \<forall>e \<in> set es. sequence_id e = None \<and> ae_case_id e = k \<Longrightarrow>
   inv (foldl (\<lambda>s e. append e s) s es)
   \<and> (\<exists>fs. trail k (foldl (\<lambda>s e. append e s) s es) = trail k s @ fs \<and> list_all2 sealed_from es fs)
   \<and> (\<forall>j. j \<noteq> k \<longrightarrow> trail j (foldl (\<lambda>s e. append e s) s es) = trail j s)"
proof (induction es arbitrary: s)
  case Nil
  then show ?case by simp
next
  case (Cons e es)
  then have e: "sequence_id e = None" "ae_case_id e = k" by simp_all
  obtain f where f: "trail k (append e s) = trail k s @ [f]" "sealed_from e f"
    using trail_same [OF e(1), of s] e(2) by auto
  have "inv (append e s)" by (rule appended [OF Cons.prems(1) e(1)])
  from Cons.IH [OF this] Cons.prems(2) obtain fs where
    fs: "trail k (foldl (\<lambda>s e. append e s) (append e s) es) = trail k (append e s) @ fs" "list_all2 sealed_from es fs"
    and rest: "inv (foldl (\<lambda>s e. append e s) (append e s) es)"
      "\<forall>j. j \<noteq> k \<longrightarrow> trail j (foldl (\<lambda>s e. append e s) (append e s) es) = trail j (append e s)" by auto
  have "trail k (foldl (\<lambda>s e. append e s) s (e # es)) = trail k s @ (f # fs) \<and> list_all2 sealed_from (e # es) (f # fs)"
    using f fs by simp
  with rest show ?case using trail_other e(2) by (metis foldl_Cons)
qed

end

locale audited_repository =
  case_repository get create update inv + audit_log append trail inv
  for get :: "string \<Rightarrow> 's \<Rightarrow> recovery_case result"
    and create :: "recovery_case \<Rightarrow> 's \<Rightarrow> 's result"
    and update :: "recovery_case \<Rightarrow> 's \<Rightarrow> 's result"
    and inv :: "'s \<Rightarrow> bool"
    and append :: "audit_entry \<Rightarrow> 's \<Rightarrow> 's"
    and trail :: "string \<Rightarrow> 's \<Rightarrow> audit_entry list" +
  assumes get_append: "get k (append e s) = get k s"
    and trail_update: "update c s = Inr s' \<Longrightarrow> trail k s' = trail k s"
    and trail_create: "create c s = Inr s' \<Longrightarrow> trail k s' = trail k s"
begin

lemma get_append_list: "get k (foldl (\<lambda>s e. append e s) s es) = get k s"
  by (induction es arbitrary: s) (simp_all add: get_append)

lemma persist:
  assumes "inv s" and "recovery_case_ok c" and "get (case_id c) s = Inr c0" and "mandate_id c = mandate_id c0"
    and "\<forall>e \<in> set es. sequence_id e = None \<and> ae_case_id e = case_id c"
  shows "\<exists>s' fs. bindR (update c s) (\<lambda>s. Inr (foldl (\<lambda>s e. append e s) s es)) = Inr s' \<and> inv s'
     \<and> (\<forall>k. get k s' = (if k = case_id c then Inr c else get k s))
     \<and> trail (case_id c) s' = trail (case_id c) s @ fs \<and> list_all2 sealed_from es fs
     \<and> linked None (trail (case_id c) s') \<and> (\<forall>k. k \<noteq> case_id c \<longrightarrow> trail k s' = trail k s)"
proof -
  obtain s1 where s1: "update c s = Inr s1" "inv s1" "\<forall>k. get k s1 = (if k = case_id c then Inr c else get k s)"
    using write_is_local [OF assms(1-4)] by blast
  have t: "trail k s1 = trail k s" for k by (rule trail_update [OF s1(1)])
  let ?s' = "foldl (\<lambda>s e. append e s) s1 es"
  from append_list [OF s1(2) assms(5)] have inv: "inv ?s'"
    and own: "\<exists>fs. trail (case_id c) ?s' = trail (case_id c) s1 @ fs \<and> list_all2 sealed_from es fs"
    and others: "\<forall>k. k \<noteq> case_id c \<longrightarrow> trail k ?s' = trail k s1" by simp_all
  have "linked None (trail (case_id c) ?s')" by (rule chained [OF inv])
  with inv own others s1 t get_append_list show ?thesis by auto
qed

end

section \<open>The in-memory store provides them\<close>

lemma append_audit_other_get [simp]: "get_case k (append_audit e s) = get_case k s"
  by (simp add: get_case_def)

lemma store_ok_create:
  "store_ok s \<Longrightarrow> recovery_case_ok c \<Longrightarrow> create_case c s = Inr s' \<Longrightarrow> store_ok s'"
  using store_step_ok created by blast

lemma store_ok_update:
  "store_ok s \<Longrightarrow> recovery_case_ok c \<Longrightarrow> get_case (case_id c) s = Inr c0 \<Longrightarrow> mandate_id c = mandate_id c0 \<Longrightarrow>
   update_case c s = Inr s' \<Longrightarrow> store_ok s'"
  using store_step_ok updated by blast

lemma store_ok_append: "store_ok s \<Longrightarrow> sequence_id e = None \<Longrightarrow> store_ok (append_audit e s)"
  using store_step_ok audited by blast

interpretation mem: audited_repository get_case create_case update_case store_ok append_audit get_audit_trail
proof unfold_locales
  fix s :: case_store and c :: recovery_case and s' :: case_store assume "store_ok s" "recovery_case_ok c" "create_case c s = Inr s'"
  then show "store_ok s' \<and> get_case (case_id c) s' = Inr c \<and> get_case (case_id c) s = Inl CaseNotFoundError"
    using store_ok_create create_case_Inr [of c s s'] by (auto simp: get_case_def)
next
  fix c :: recovery_case and s :: case_store and s' :: case_store and k :: string assume "create_case c s = Inr s'" "k \<noteq> case_id c"
  then show "get_case k s' = get_case k s"
    using create_case_Inr(3) [of c s s'] by (simp add: get_case_def)
next
  fix c :: recovery_case and s :: case_store and c0 :: recovery_case assume "get_case (case_id c) s = Inr c0"
  then show "create_case c s = Inl CaseAlreadyExistsError" by (simp add: get_case_def create_case_def)
next
  fix s :: case_store and c :: recovery_case and c0 :: recovery_case
  assume h: "store_ok s" "recovery_case_ok c" "get_case (case_id c) s = Inr c0" "mandate_id c = mandate_id c0"
  then obtain s' where s': "update_case c s = Inr s'" by (auto simp: get_case_def update_case_def)
  with h store_ok_update update_case_Inr(2) [OF s']
  show "\<exists>s'. update_case c s = Inr s' \<and> store_ok s' \<and> get_case (case_id c) s' = Inr c"
    by (auto simp: get_case_def)
next
  fix c :: recovery_case and s :: case_store and s' :: case_store and k :: string assume "update_case c s = Inr s'" "k \<noteq> case_id c"
  then show "get_case k s' = get_case k s"
    using update_case_Inr(2) [of c s s'] by (simp add: get_case_def)
next
  fix c :: recovery_case and s :: case_store and e assume "get_case (case_id c) s = Inl e"
  then show "update_case c s = Inl CaseNotFoundError" by (simp add: get_case_def update_case_def)
next
  fix s :: case_store and e :: audit_entry assume "store_ok s" "sequence_id e = None"
  then show "store_ok (append_audit e s)" by (rule store_ok_append)
next
  fix e :: audit_entry and s :: case_store assume "sequence_id e = None"
  then show "\<exists>f. get_audit_trail (ae_case_id e) (append_audit e s) = get_audit_trail (ae_case_id e) s @ [f] \<and> sealed_from e f"
    using seal_sealed_from by auto
next
  fix k :: string and e :: audit_entry and s :: case_store assume "k \<noteq> ae_case_id e"
  then show "get_audit_trail k (append_audit e s) = get_audit_trail k s" by (rule trail_append_other)
next
  fix s :: case_store and k :: string assume "store_ok s"
  then show "linked None (get_audit_trail k s)" by (simp add: store_ok_def log_okD(1))
next
  fix k :: string and e :: audit_entry and s :: case_store show "get_case k (append_audit e s) = get_case k s" by simp
next
  fix c :: recovery_case and s :: case_store and s' :: case_store and k :: string assume "update_case c s = Inr s'"
  then show "get_audit_trail k s' = get_audit_trail k s"
    using update_case_Inr(2) [of c s s'] by (simp add: get_audit_trail_def)
next
  fix c :: recovery_case and s :: case_store and s' :: case_store and k :: string assume "create_case c s = Inr s'"
  then show "get_audit_trail k s' = get_audit_trail k s"
    using create_case_Inr(3) [of c s s'] by (simp add: get_audit_trail_def)
qed

end
