(* ===== verification/Store_Properties.thy ===== *)
theory Store_Properties
  imports Repository
begin

text \<open>
  What the in-memory store promises, over every store that calls can reach from the empty one.
\<close>

section \<open>A reachable sample\<close>

definition stored_case :: "string \<Rightarrow> string \<Rightarrow> recovery_case" where
  "stored_case cid mid =
     \<lparr>case_id = cid, mandate_id = mid, instrument_id = ''card_1'', original_amount = 50000, opened_at = 0,
      retries_used = 0, state = NOTICE_PENDING, bucket = Some Treatment, control_outcome = None,
      control_observation_deadline = None, resolution_note = None\<rparr>"

definition stored_failure :: "string \<Rightarrow> string \<Rightarrow> int \<Rightarrow> failure_event" where
  "stored_failure cid pid n =
     \<lparr>fe_case_id = cid, fe_payment_id = pid, attempt_number = n, reason_code = None, decline_class = Unclassified,
      fe_amount = 50000, received_at = 0, fe_mandate_id = None, fe_instrument_id = ''card_1'',
      error_reason = None, error_source = None, error_step = None, fe_notes = None\<rparr>"

definition sample_store :: case_store where
  "sample_store =
     append_all [sample_entry RECEIVED CLASSIFIED ''create_case'', sample_entry CLASSIFIED TREATMENT ''assign_bucket_treatment'']
       (InMemoryCaseStore
          \<lparr>cases := [(''p2'', stored_case ''p2'' ''m1'')], mandate_index := [(''m1'', ''p2'')],
           payment_index := [(''p2'', ''p2'')], failures := [((''p2'', 1), stored_failure ''p2'' ''p2'' 1)],
           payment_attempt_index := [(''p2'', (''p2'', 1))]\<rparr>)"

lemma sample_store_reachable: "reachable sample_store"
proof -
  let ?c = "stored_case ''p2'' ''m1''" and ?e = "stored_failure ''p2'' ''p2'' 1"
  let ?s1 = "InMemoryCaseStore\<lparr>cases := [(''p2'', ?c)], mandate_index := [(''m1'', ''p2'')], payment_index := [(''p2'', ''p2'')]\<rparr>"
  let ?s2 = "?s1\<lparr>failures := [((''p2'', 1), ?e)], payment_attempt_index := [(''p2'', (''p2'', 1))]\<rparr>"
  let ?a = "sample_entry RECEIVED CLASSIFIED ''create_case''"
  let ?b = "sample_entry CLASSIFIED TREATMENT ''assign_bucket_treatment''"
  have "create_case ?c InMemoryCaseStore = Inr ?s1"
    by (simp add: create_case_def Let_def index_mandate_def InMemoryCaseStore_def stored_case_def)
  moreover have "recovery_case_ok ?c" by (simp add: recovery_case_ok_def stored_case_def)
  ultimately have 1: "reachable ?s1" using reachable.intros store_step.created by blast
  have "record_failure ?e ?s1 = Inr ?s2"
    by (simp add: record_failure_def Let_def InMemoryCaseStore_def stored_failure_def)
  moreover have "failure_event_ok ?e" by (simp add: failure_event_ok_def stored_failure_def)
  ultimately have 2: "reachable ?s2" using 1 reachable.later store_step.failed by blast
  have no_id: "sequence_id ?a = None" "sequence_id ?b = None" by (simp_all add: sample_entry_def)
  then have "reachable (append_audit ?b (append_audit ?a ?s2))"
    using 2 reachable.later store_step.audited by blast
  then show ?thesis by (simp add: sample_store_def append_all_def)
qed

lemma sample_store_trail: "length (get_audit_trail ''p2'' sample_store) = 2"
  by (simp add: sample_store_def append_all_def append_audit_def get_audit_trail_def Let_def sample_entry_def
      InMemoryCaseStore_def)

section \<open>The properties\<close>

text \<open>
  Every audit trail of every reachable store verifies: whatever cases, failures, decisions and
  entries have been written, in whatever order, a case's trail is intact for the endpoint's check, all
  its entries are the case's own, and its sequence numbers are assigned and strictly increasing.
\<close>

theorem stored_trails_verify:
  assumes "reachable s" and "get_audit_trail cid s \<noteq> []"
  shows "verify_chain_endpoint cid s = Chain_intact
     \<and> (\<forall>e \<in> set (get_audit_trail cid s). ae_case_id e = cid)
     \<and> (\<exists>is. map sequence_id (get_audit_trail cid s) = map Some is \<and> sorted_wrt (<) is)"
proof -
  have "log_ok s" using reachable_ok [OF assms(1)] by (simp add: store_ok_def)
  from log_ok_trail [OF this, of cid] assms(2) show ?thesis
    by (auto simp: verify_chain_endpoint_def Let_def check_chain_linked numbered_def)
qed

theorem stored_trails_verify_witness:
  "reachable sample_store \<and> verify_chain_endpoint ''p2'' sample_store = Chain_intact"
proof -
  have "get_audit_trail ''p2'' sample_store \<noteq> []" using sample_store_trail by auto
  with stored_trails_verify [OF sample_store_reachable] sample_store_reachable show ?thesis by blast
qed

text \<open>
  C36. One case per mandate: in every reachable store, a stored case is the one found under its mandate
  and under its own id as payment id, no other listed case has its mandate or its id, and a mandate the
  index does not know belongs to no listed case.
\<close>

theorem one_case_per_mandate:
  assumes "reachable s" and "get_case cid s = Inr c"
  shows "find_case_by_mandate (mandate_id c) s = Some c \<and> find_case_by_payment_id cid s = Some c
     \<and> c \<in> set (list_cases s)
     \<and> (\<forall>c' \<in> set (list_cases s). mandate_id c' = mandate_id c \<or> case_id c' = cid \<longrightarrow> c' = c)
     \<and> (find_case_by_mandate m s = None \<longrightarrow> m \<notin> mandate_id ` set (list_cases s))"
proof -
  have ok: "cases_ok s" using reachable_ok [OF assms(1)] by (simp add: store_ok_def)
  note D = cases_okD [OF ok]
  from assms(2) have c: "dict_get (cases s) cid = Some c" by (simp add: get_case_def)
  have listed: "x \<in> set (list_cases s) \<longleftrightarrow> (\<exists>k. dict_get (cases s) k = Some x)" for x
    unfolding list_cases_def by (rule dict_values_get [OF D(1)])
  have found: "find_case_by_mandate (mandate_id x) s = Some x" if "dict_get (cases s) k = Some x" for k x
    using D(2) [OF that] D(3) [OF that] D(4) [OF that] that
    by (auto simp: find_case_by_mandate_def find_indexed_def recovery_case_ok_def)
  have "cid \<noteq> []" using D(2) [OF c] D(3) [OF c] by (auto simp: recovery_case_ok_def)
  then have "find_case_by_payment_id cid s = Some c"
    using D(7) [of cid] c by (simp add: find_case_by_payment_id_def find_indexed_def)
  moreover have "c' = c" if "c' \<in> set (list_cases s)" "mandate_id c' = mandate_id c \<or> case_id c' = cid" for c'
    using that(2)
  proof
    assume "mandate_id c' = mandate_id c"
    with that(1) found c show ?thesis unfolding listed by (metis option.inject)
  next
    assume "case_id c' = cid"
    with that(1) D(2) c show ?thesis unfolding listed by (metis option.inject)
  qed
  moreover have "m \<notin> mandate_id ` set (list_cases s)" if "find_case_by_mandate m s = None"
  proof
    assume "m \<in> mandate_id ` set (list_cases s)"
    then obtain x k where "dict_get (cases s) k = Some x" "m = mandate_id x" using listed by auto
    with found that show False by simp
  qed
  ultimately show ?thesis using found [OF c] c listed by blast
qed

theorem one_case_per_mandate_witness:
  "find_case_by_mandate ''m1'' sample_store = Some (stored_case ''p2'' ''m1'')
   \<and> find_case_by_payment_id ''p2'' sample_store = Some (stored_case ''p2'' ''m1'')"
proof -
  have "get_case ''p2'' sample_store = Inr (stored_case ''p2'' ''m1'')"
    by (simp add: sample_store_def append_all_def get_case_def)
  from one_case_per_mandate [OF sample_store_reachable this] show ?thesis by (simp add: stored_case_def)
qed

lemma max_attempt_bound:
  "m \<le> foldl (\<lambda>m (k, a). if k = cid then max m a else m) (m :: int) ks
   \<and> (\<forall>a. (cid, a) \<in> set ks \<longrightarrow> a \<le> foldl (\<lambda>m (k, a). if k = cid then max m a else m) m ks)"
proof (induction ks arbitrary: m)
  case Nil
  then show ?case by simp
next
  case (Cons p ks)
  obtain k a where p: "p = (k, a)" by (cases p)
  from Cons.IH [of "if k = cid then max m a else m"] show ?case
    by (auto simp: p split: if_splits)
qed

lemma max_attempt_ge:
  "dict_get (failures s) (cid, a) \<noteq> None \<Longrightarrow> a \<le> get_max_attempt_number cid s"
  using max_attempt_bound [of 0 cid "map fst (failures s)"]
  by (force simp: get_max_attempt_number_def dest: map_of_SomeD)

text \<open>
  The next attempt number is always free, and a redelivered payment is always refused: for an event
  carrying one more than the largest recorded attempt of its case, recording succeeds exactly when its
  payment id has not been recorded for any case before; it is then found under its payment id, becomes
  the largest attempt, and a second delivery of the same payment, under any case and attempt number,
  raises FailureAlreadyRecordedError.
\<close>

theorem next_attempt_recorded_once:
  assumes "reachable s" and "failure_event_ok e" and "attempt_number e = get_max_attempt_number (fe_case_id e) s + 1"
  shows "(find_attempt_by_payment_id (fe_payment_id e) s = None \<longleftrightarrow> (\<exists>s'. record_failure e s = Inr s'))
     \<and> (\<forall>s'. record_failure e s = Inr s' \<longrightarrow>
           reachable s' \<and> get_failure (fe_case_id e) (attempt_number e) s' = Inr e
           \<and> find_attempt_by_payment_id (fe_payment_id e) s' = Some (fe_case_id e, attempt_number e)
           \<and> attempt_number e \<le> get_max_attempt_number (fe_case_id e) s'
           \<and> (fe_payment_id e' = fe_payment_id e \<longrightarrow> record_failure e' s' = Inl FailureAlreadyRecordedError))"
proof -
  have "dict_get (failures s) (fe_case_id e, attempt_number e) = None"
    using max_attempt_ge [of s "fe_case_id e" "attempt_number e"] assms(3) by fastforce
  note free = this
  let ?s1 = "s\<lparr>failures := dict_set (fe_case_id e, attempt_number e) e (failures s),
      payment_attempt_index := dict_set (fe_payment_id e) (fe_case_id e, attempt_number e) (payment_attempt_index s)\<rparr>"
  show ?thesis
  proof (cases "dict_get (payment_attempt_index s) (fe_payment_id e)")
    case None
    with free have rec: "record_failure e s = Inr ?s1" by (simp add: record_failure_def Let_def)
    then have "reachable ?s1" using assms(1,2) reachable.later store_step.failed by blast
    moreover have "attempt_number e \<le> get_max_attempt_number (fe_case_id e) ?s1"
      by (rule max_attempt_ge) simp
    moreover have "record_failure e' ?s1 = Inl FailureAlreadyRecordedError" if "fe_payment_id e' = fe_payment_id e"
      using that by (simp add: record_failure_def Let_def)
    ultimately show ?thesis
      using None rec by (simp add: find_attempt_by_payment_id_def get_failure_def)
  next
    case (Some k)
    with free have "record_failure e s = Inl FailureAlreadyRecordedError" by (simp add: record_failure_def Let_def)
    with Some show ?thesis by (simp add: find_attempt_by_payment_id_def)
  qed
qed

theorem next_attempt_recorded_once_witness:
  "\<exists>s'. record_failure (stored_failure ''p2'' ''p9'' 2) sample_store = Inr s'
     \<and> find_attempt_by_payment_id ''p9'' s' = Some (''p2'', 2)
     \<and> record_failure (stored_failure ''p7'' ''p9'' 1) s' = Inl FailureAlreadyRecordedError"
proof -
  let ?e = "stored_failure ''p2'' ''p9'' 2"
  have fs: "failures sample_store = [((''p2'', 1), stored_failure ''p2'' ''p2'' 1)]"
    "payment_attempt_index sample_store = [(''p2'', (''p2'', 1))]"
    by (simp_all add: sample_store_def append_all_def)
  then have "attempt_number ?e = get_max_attempt_number (fe_case_id ?e) sample_store + 1"
    by (simp add: get_max_attempt_number_def stored_failure_def)
  moreover have "failure_event_ok ?e" by (simp add: failure_event_ok_def stored_failure_def)
  moreover have "find_attempt_by_payment_id (fe_payment_id ?e) sample_store = None"
    by (simp add: find_attempt_by_payment_id_def fs stored_failure_def)
  ultimately obtain s' where s': "record_failure ?e sample_store = Inr s'"
    using next_attempt_recorded_once [OF sample_store_reachable, of ?e] by blast
  with next_attempt_recorded_once [OF sample_store_reachable, of ?e "stored_failure ''p7'' ''p9'' 1"]
    \<open>failure_event_ok ?e\<close> \<open>attempt_number ?e = _\<close>
  have "find_attempt_by_payment_id ''p9'' s' = Some (''p2'', 2)
      \<and> record_failure (stored_failure ''p7'' ''p9'' 1) s' = Inl FailureAlreadyRecordedError"
    by (simp add: stored_failure_def)
  with s' show ?thesis by blast
qed

end
