(* ===== verification/Commit_Backend.thy ===== *)
theory Commit_Backend
  imports State_Machine
begin

text \<open>
  The commit backends of \<^verbatim>\<open>app/core/commit_backend.py\<close> and the in-memory one of \<^verbatim>\<open>app/main.py\<close>: who
  may execute a retry.  The etcd client and the database connection are third-party objects, parameters
  of the definitions; what the code relies on of them is stated as hypotheses.  The contract all
  backends share is a locale.
\<close>

section \<open>The in-memory backend\<close>

type_synonym attempt_key = "string \<times> int"

definition attempt_key :: "retry_decision \<Rightarrow> attempt_key" where
  "attempt_key d = (rd_case_id d, rd_attempt_number d)"

definition mem_commit :: "attempt_key list \<Rightarrow> retry_decision \<Rightarrow> attempt_key list \<times> bool result" where
  "mem_commit committed d =
     (if attempt_key d \<in> set committed then (committed, Inr False)
      else (attempt_key d # committed, Inr True))"

text \<open>\<^verbatim>\<open>commit_effect\<close> builds a decision with an empty reasoning first; \<open>effect\<close> is the dumped JSON text.\<close>

definition mem_commit_effect ::
  "attempt_key list \<Rightarrow> string \<Rightarrow> int \<Rightarrow> string \<Rightarrow> datetime \<Rightarrow> attempt_key list \<times> bool result" where
  "mem_commit_effect committed cid attempt effect wall =
     (case RetryDecision
             \<lparr>rd_case_id = cid, rd_attempt_number = attempt, rd_scheduled_at = wall, reasoning = [],
              rd_commit_backend = Postgres_outbox, commit_ref = effect, executed_at = None, outcome = Pending\<rparr> of
        Inl e \<Rightarrow> (committed, Inl e)
      | Inr action \<Rightarrow> mem_commit committed action)"

section \<open>The etcd backend\<close>

definition commit_prefix :: string where
  "commit_prefix = ''/recovery/commits/''"

definition key_for :: "attempt_key \<Rightarrow> string" where
  "key_for = (\<lambda>(cid, attempt). commit_prefix @ cid @ ''/'' @ py_str_int attempt)"

text \<open>
  \<open>txn c key value\<close> is the client's transaction: put the value if the key's version is 0, and tell
  whether that happened; it may raise.
\<close>

definition etcd_commit ::
  "('c \<Rightarrow> string \<Rightarrow> string \<Rightarrow> 'c \<times> bool result) \<Rightarrow> 'c \<Rightarrow> retry_decision \<Rightarrow> 'c \<times> bool result" where
  "etcd_commit txn c d = txn c (key_for (attempt_key d)) (commit_ref d)"

definition etcd_commit_effect ::
  "('c \<Rightarrow> string \<Rightarrow> string \<Rightarrow> 'c \<times> bool result) \<Rightarrow> 'c \<Rightarrow> string \<Rightarrow> int \<Rightarrow> string \<Rightarrow> 'c \<times> bool result" where
  "etcd_commit_effect txn c cid attempt effect = txn c (key_for (cid, attempt)) effect"

section \<open>The outbox backend\<close>

text \<open>
  The operations of a connection: the insert into \<^verbatim>\<open>commit_outbox\<close>, commit and rollback.  An exception
  is represented by its SQL state, when it has one.
\<close>

record 'c connection =
  insert_row :: "'c \<Rightarrow> attempt_key \<Rightarrow> string \<Rightarrow> 'c \<times> string option option"
  conn_commit :: "'c \<Rightarrow> 'c \<times> string option option"
  conn_rollback :: "'c \<Rightarrow> 'c"

definition is_unique_violation :: "string option \<Rightarrow> bool" where
  "is_unique_violation sqlstate \<longleftrightarrow> sqlstate = Some ''23505''"

definition outbox_commit :: "'c connection \<Rightarrow> 'c \<Rightarrow> retry_decision \<Rightarrow> 'c \<times> bool result" where
  "outbox_commit conn c d =
     (let (c, raised) =
            (case insert_row conn c (attempt_key d) (commit_ref d) of
               (c', None) \<Rightarrow> conn_commit conn c'
             | (c', Some exc) \<Rightarrow> (c', Some exc))
      in case raised of
           None \<Rightarrow> (c, Inr True)
         | Some exc \<Rightarrow>
             (conn_rollback conn c, if is_unique_violation exc then Inr False else Inl DatabaseError))"

text \<open>\<^verbatim>\<open>datetime\<close> is not imported in the module: building the decision raises NameError.\<close>

definition outbox_commit_effect :: "'c connection \<Rightarrow> 'c \<Rightarrow> string \<Rightarrow> int \<Rightarrow> string \<Rightarrow> 'c \<times> bool result" where
  "outbox_commit_effect conn c cid attempt effect = (c, Inl NameError)"

section \<open>The contract\<close>

fun commit_all :: "('k \<Rightarrow> retry_decision \<Rightarrow> 'k \<times> bool result) \<Rightarrow> 'k \<Rightarrow> retry_decision list \<Rightarrow> 'k \<times> attempt_key list" where
  "commit_all commit k [] = (k, [])"
| "commit_all commit k (d # ds) =
     (case commit k d of
        (k', Inr True) \<Rightarrow> (let (k'', won) = commit_all commit k' ds in (k'', attempt_key d # won))
      | (k', _) \<Rightarrow> commit_all commit k' ds)"

text \<open>
  Calls of \<^verbatim>\<open>attempt_execution\<close> by any callers, each on its own copy of a case, and the attempts they
  execute.
\<close>

fun executions ::
  "('k \<Rightarrow> retry_decision \<Rightarrow> 'k \<times> bool result) \<Rightarrow> clock \<Rightarrow> 'k \<Rightarrow> (recovery_case \<times> retry_decision \<times> datetime) list
   \<Rightarrow> 'k \<times> attempt_key list" where
  "executions commit clk k [] = (k, [])"
| "executions commit clk k ((c, d, wall) # rs) =
     (case attempt_execution commit k c d clk wall of
        (k', Inr (c', d', es, True)) \<Rightarrow> (let (k'', ex) = executions commit clk k' rs in (k'', attempt_key d # ex))
      | (k', _) \<Rightarrow> executions commit clk k' rs)"

locale commit_backend =
  fixes commit :: "'k \<Rightarrow> retry_decision \<Rightarrow> 'k \<times> bool result"
    and approved :: "'k \<Rightarrow> attempt_key set"
  assumes granted: "commit k d = (k', Inr True) \<Longrightarrow>
      attempt_key d \<notin> approved k \<and> approved k' = insert (attempt_key d) (approved k)"
    and refused: "commit k d = (k', Inr False) \<Longrightarrow> attempt_key d \<in> approved k \<and> approved k' = approved k"
    and raised: "commit k d = (k', Inl e) \<Longrightarrow>
      approved k \<subseteq> approved k' \<and> approved k' \<subseteq> insert (attempt_key d) (approved k)"
begin

lemma approvals_kept: "commit k d = (k', r) \<Longrightarrow> approved k \<subseteq> approved k' \<and> approved k' \<subseteq> insert (attempt_key d) (approved k)"
  using granted [of k d k'] refused [of k d k'] raised [of k d k'] by (cases r; cases "projr r") auto

lemma commit_once:
  "commit_all commit k ds = (k', won) \<Longrightarrow>
   distinct won \<and> set won \<inter> approved k = {} \<and> set won \<subseteq> approved k' \<and> approved k \<subseteq> approved k'"
proof (induction ds arbitrary: k won)
  case Nil
  then show ?case by simp
next
  case (Cons d ds)
  obtain k1 r where step: "commit k d = (k1, r)" by (cases "commit k d")
  obtain w where rest: "commit_all commit k1 ds = (k', w)"
    using Cons.prems step by (cases r; cases "commit_all commit k1 ds") (auto split: bool.splits)
  note IH = Cons.IH [OF rest]
  show ?case
  proof (cases "r = Inr True")
    case True
    with Cons.prems step rest have "won = attempt_key d # w" by simp
    with IH granted [OF step [unfolded True]] show ?thesis by auto
  next
    case False
    with Cons.prems step rest have "won = w" by (cases r) (auto split: bool.splits)
    with IH approvals_kept [OF step] show ?thesis by auto
  qed
qed

text \<open>Without exceptions the first call for a fresh key wins, and every later call for it loses.\<close>

lemma first_commit_wins:
  assumes "\<And>k d k' e. commit k d \<noteq> (k', Inl e)"
  shows "commit_all commit k ds = (k', won) \<Longrightarrow> set won = attempt_key ` set ds - approved k"
proof (induction ds arbitrary: k won)
  case Nil
  then show ?case by simp
next
  case (Cons d ds)
  obtain k1 r where step: "commit k d = (k1, r)" by (cases "commit k d")
  obtain w where rest: "commit_all commit k1 ds = (k', w)"
    using Cons.prems step by (cases r; cases "commit_all commit k1 ds") (auto split: bool.splits)
  note IH = Cons.IH [OF rest]
  from assms step obtain b where r: "r = Inr b" by (cases r) auto
  show ?case
  proof (cases b)
    case True
    with Cons.prems step rest r have "won = attempt_key d # w" by simp
    with IH granted [of k d k1] step r True show ?thesis by auto
  next
    case False
    with Cons.prems step rest r have "won = w" by simp
    with IH refused [of k d k1] step r False show ?thesis by auto
  qed
qed

lemma execution_once:
  "executions commit clk k rs = (k', ex) \<Longrightarrow>
   distinct ex \<and> set ex \<inter> approved k = {} \<and> set ex \<subseteq> approved k' \<and> approved k \<subseteq> approved k'"
proof (induction rs arbitrary: k ex)
  case Nil
  then show ?case by simp
next
  case (Cons q rs)
  obtain c d wall where q: "q = (c, d, wall)" by (cases q) auto
  show ?case
  proof (cases "state c = RETRY_SCHEDULED")
    case False
    with Cons.prems q have "executions commit clk k rs = (k', ex)" by (simp add: attempt_execution_def)
    then show ?thesis by (rule Cons.IH)
  next
    case True
    obtain k1 r where step: "commit k d = (k1, r)" by (cases "commit k d")
    obtain w where rest: "executions commit clk k1 rs = (k', w)"
      using Cons.prems q True step
      by (cases r; cases "executions commit clk k1 rs") (auto simp: attempt_execution_def Let_def split: bool.splits)
    note IH = Cons.IH [OF rest]
    show ?thesis
    proof (cases "r = Inr True")
      case granted_now: True
      with Cons.prems q True step rest have "ex = attempt_key d # w"
        by (simp add: attempt_execution_def Let_def)
      with IH granted [OF step [unfolded granted_now]] show ?thesis by auto
    next
      case False
      with Cons.prems q True step rest have "ex = w"
        by (cases r) (auto simp: attempt_execution_def split: bool.splits)
      with IH approvals_kept [OF step] show ?thesis by auto
    qed
  qed
qed

end

interpretation mem: commit_backend mem_commit set
  by unfold_locales (auto simp: mem_commit_def split: if_splits)

section \<open>etcd provides it\<close>

lemma py_str_int_no_slash: "CHR ''/'' \<notin> set (py_str_int i)"
proof -
  have "CHR ''/'' \<notin> set (dec n)" for n using dec_digits not_digit_literals by metis
  then show ?thesis by (simp add: py_str_int_def)
qed

lemma last_slash_unique:
  assumes "CHR ''/'' \<notin> set u" and "CHR ''/'' \<notin> set v" and "s @ CHR ''/'' # u = t @ CHR ''/'' # v"
  shows "s = t \<and> u = v"
proof -
  have "rev u @ CHR ''/'' # rev s = rev v @ CHR ''/'' # rev t"
    using assms(3) by (metis append.assoc append_Cons append_Nil rev.simps(2) rev_append)
  moreover have "takeWhile (\<lambda>c. c \<noteq> CHR ''/'') (rev w @ CHR ''/'' # x) = rev w" if "CHR ''/'' \<notin> set w" for w x
    using that by (subst takeWhile_append2) auto
  ultimately have "rev u = rev v" using assms(1,2) by metis
  with assms(3) show ?thesis by simp
qed

lemma py_str_int_inj: "py_str_int i = py_str_int j \<Longrightarrow> i = j"
  using py_str_int_run_unique [of "CHR '',''" "CHR '',''" i "[]" j "[]"] by simp

lemma key_for_inj: "key_for a = key_for b \<Longrightarrow> a = b"
proof (cases a; cases b)
  fix c m d n assume ab: "key_for a = key_for b" "a = (c, m)" "b = (d, n)"
  then have "c @ CHR ''/'' # py_str_int m = d @ CHR ''/'' # py_str_int n" by (simp add: key_for_def)
  from last_slash_unique [OF py_str_int_no_slash py_str_int_no_slash this] py_str_int_inj ab show "a = b" by blast
qed

text \<open>
  The documented behaviour of the client: the transaction is atomic, it puts the value exactly if the
  key is absent and reports that, and when it raises the put has either happened or not.
\<close>

locale etcd_client =
  fixes txn :: "'c \<Rightarrow> string \<Rightarrow> string \<Rightarrow> 'c \<times> bool result"
    and view :: "'c \<Rightarrow> string \<Rightarrow> string option"
  assumes txn_answer: "txn c k v = (c', Inr ok) \<Longrightarrow>
      ok = (view c k = None) \<and> view c' = (if ok then (view c)(k \<mapsto> v) else view c)"
    and txn_raised: "txn c k v = (c', Inl e) \<Longrightarrow>
      view c' = view c \<or> view c k = None \<and> view c' = (view c)(k \<mapsto> v)"

definition stored_keys :: "('c \<Rightarrow> string \<Rightarrow> string option) \<Rightarrow> 'c \<Rightarrow> attempt_key set" where
  "stored_keys view c = {a. view c (key_for a) \<noteq> None}"

lemma stored_keys_put:
  "view c' = (view c)(key_for a \<mapsto> v) \<Longrightarrow> stored_keys view c' = insert a (stored_keys view c)"
  by (auto simp: stored_keys_def dest: key_for_inj)

lemma stored_keys_same: "view c' = view c \<Longrightarrow> stored_keys view c' = stored_keys view c"
  by (simp add: stored_keys_def)

lemma etcd_is_backend:
  assumes "etcd_client txn view"
  shows "commit_backend (etcd_commit txn) (stored_keys view)"
proof
  fix c d c' assume "etcd_commit txn c d = (c', Inr True)"
  from etcd_client.txn_answer [OF assms this [unfolded etcd_commit_def]]
  have "view c (key_for (attempt_key d)) = None" "view c' = (view c)(key_for (attempt_key d) \<mapsto> commit_ref d)"
    by simp_all
  from this(1) stored_keys_put [OF this(2)]
  show "attempt_key d \<notin> stored_keys view c \<and> stored_keys view c' = insert (attempt_key d) (stored_keys view c)"
    unfolding stored_keys_def by blast
next
  fix c d c' assume "etcd_commit txn c d = (c', Inr False)"
  from etcd_client.txn_answer [OF assms this [unfolded etcd_commit_def]]
  have "view c (key_for (attempt_key d)) \<noteq> None" "view c' = view c" by simp_all
  then show "attempt_key d \<in> stored_keys view c \<and> stored_keys view c' = stored_keys view c"
    unfolding stored_keys_def by simp
next
  fix c d c' e assume "etcd_commit txn c d = (c', Inl e)"
  from etcd_client.txn_raised [OF assms this [unfolded etcd_commit_def]]
  show "stored_keys view c \<subseteq> stored_keys view c' \<and> stored_keys view c' \<subseteq> insert (attempt_key d) (stored_keys view c)"
  proof
    assume "view c' = view c"
    then have "stored_keys view c' = stored_keys view c" by (rule stored_keys_same)
    then show ?thesis by blast
  next
    assume "view c (key_for (attempt_key d)) = None \<and> view c' = (view c)(key_for (attempt_key d) \<mapsto> commit_ref d)"
    then show ?thesis using stored_keys_put [of view c' c] by blast
  qed
qed

sublocale etcd_client \<subseteq> quorum: commit_backend "etcd_commit txn" "stored_keys view"
  by (rule etcd_is_backend [OF etcd_client_axioms])

text \<open>A key-value store with that transaction, as a dictionary.\<close>

definition dict_txn :: "(string, string) dict \<Rightarrow> string \<Rightarrow> string \<Rightarrow> (string, string) dict \<times> bool result" where
  "dict_txn c k v = (if dict_get c k = None then (dict_set k v c, Inr True) else (c, Inr False))"

interpretation dict_etcd: etcd_client dict_txn map_of
  by unfold_locales (auto simp: dict_txn_def fun_eq_iff split: if_splits)

section \<open>The outbox table provides it\<close>

text \<open>
  The documented behaviour of a connection over the table with its primary key: \<open>rows\<close> are the keys
  committed so far.
\<close>

locale outbox_table =
  fixes conn :: "'c connection" and rows :: "'c \<Rightarrow> attempt_key set"
  assumes inserted: "insert_row conn c k v = (c1, None) \<Longrightarrow> conn_commit conn c1 = (c2, None) \<Longrightarrow>
      k \<notin> rows c \<and> rows c2 = insert k (rows c)"
    and insert_raised: "insert_row conn c k v = (c1, Some x) \<Longrightarrow>
      rows (conn_rollback conn c1) = rows c \<and> (is_unique_violation x \<longrightarrow> k \<in> rows c)"
    and commit_raised: "insert_row conn c k v = (c1, None) \<Longrightarrow> conn_commit conn c1 = (c2, Some x) \<Longrightarrow>
      (rows (conn_rollback conn c2) = rows c \<or> rows (conn_rollback conn c2) = insert k (rows c))
      \<and> (is_unique_violation x \<longrightarrow> k \<in> rows c)"

lemma outbox_commit_cases:
  "outbox_commit conn c d = (c', r) \<Longrightarrow>
   (\<exists>c1. insert_row conn c (attempt_key d) (commit_ref d) = (c1, None)
         \<and> (conn_commit conn c1 = (c', None) \<and> r = Inr True
            \<or> (\<exists>c2 x. conn_commit conn c1 = (c2, Some x) \<and> c' = conn_rollback conn c2
                 \<and> r = (if is_unique_violation x then Inr False else Inl DatabaseError))))
   \<or> (\<exists>c1 x. insert_row conn c (attempt_key d) (commit_ref d) = (c1, Some x) \<and> c' = conn_rollback conn c1
         \<and> r = (if is_unique_violation x then Inr False else Inl DatabaseError))"
proof -
  assume h: "outbox_commit conn c d = (c', r)"
  obtain c1 i where ins: "insert_row conn c (attempt_key d) (commit_ref d) = (c1, i)" by fastforce
  show ?thesis
  proof (cases i)
    case (Some x)
    with h ins have "c' = conn_rollback conn c1" "r = (if is_unique_violation x then Inr False else Inl DatabaseError)"
      by (simp_all add: outbox_commit_def)
    with Some ins show ?thesis by blast
  next
    case None
    obtain c2 j where com: "conn_commit conn c1 = (c2, j)" by fastforce
    show ?thesis
    proof (cases j)
      case None
      with h ins com \<open>i = None\<close> have "c' = c2" "r = Inr True" by (simp_all add: outbox_commit_def)
      with None \<open>i = None\<close> ins com show ?thesis by blast
    next
      case (Some x)
      with h ins com \<open>i = None\<close> have "c' = conn_rollback conn c2"
        "r = (if is_unique_violation x then Inr False else Inl DatabaseError)"
        by (simp_all add: outbox_commit_def)
      with Some \<open>i = None\<close> ins com show ?thesis by blast
    qed
  qed
qed

lemma outbox_is_backend:
  assumes "outbox_table conn rows"
  shows "commit_backend (outbox_commit conn) rows"
proof
  note inserted = outbox_table.inserted [OF assms] and insert_raised = outbox_table.insert_raised [OF assms]
    and commit_raised = outbox_table.commit_raised [OF assms]
  fix c d c'
  {
    assume "outbox_commit conn c d = (c', Inr True)"
    from outbox_commit_cases [OF this]
    obtain c1 where "insert_row conn c (attempt_key d) (commit_ref d) = (c1, None)" "conn_commit conn c1 = (c', None)"
      by (auto split: if_splits)
    from inserted [OF this] show "attempt_key d \<notin> rows c \<and> rows c' = insert (attempt_key d) (rows c)" .
  next
    assume "outbox_commit conn c d = (c', Inr False)"
    from outbox_commit_cases [OF this] consider
      c1 c2 x where "insert_row conn c (attempt_key d) (commit_ref d) = (c1, None)"
        "conn_commit conn c1 = (c2, Some x)" "c' = conn_rollback conn c2" "is_unique_violation x"
      | c1 x where "insert_row conn c (attempt_key d) (commit_ref d) = (c1, Some x)"
        "c' = conn_rollback conn c1" "is_unique_violation x"
      by (auto split: if_splits)
    then show "attempt_key d \<in> rows c \<and> rows c' = rows c"
    proof cases
      case 1
      from commit_raised [OF 1(1,2)] 1(3,4) show ?thesis by auto
    next
      case 2
      from insert_raised [OF 2(1)] 2(2,3) show ?thesis by simp
    qed
  next
    fix e assume "outbox_commit conn c d = (c', Inl e)"
    from outbox_commit_cases [OF this] consider
      c1 c2 x where "insert_row conn c (attempt_key d) (commit_ref d) = (c1, None)"
        "conn_commit conn c1 = (c2, Some x)" "c' = conn_rollback conn c2"
      | c1 x where "insert_row conn c (attempt_key d) (commit_ref d) = (c1, Some x)" "c' = conn_rollback conn c1"
      by (auto split: if_splits)
    then show "rows c \<subseteq> rows c' \<and> rows c' \<subseteq> insert (attempt_key d) (rows c)"
    proof cases
      case 1
      from commit_raised [OF 1(1,2)] 1(3) show ?thesis by auto
    next
      case 2
      from insert_raised [OF 2(1)] 2(2) show ?thesis by auto
    qed
  }
qed

sublocale outbox_table \<subseteq> outbox: commit_backend "outbox_commit conn" rows
  by (rule outbox_is_backend [OF outbox_table_axioms])

text \<open>A table with a primary key, as the committed rows and the row of the open transaction.\<close>

definition list_table :: "(attempt_key list \<times> attempt_key option) connection" where
  "list_table =
     \<lparr>insert_row = (\<lambda>(rs, p) k v. if k \<in> set rs then ((rs, p), Some (Some ''23505'')) else ((rs, Some k), None)),
      conn_commit = (\<lambda>(rs, p). case p of None \<Rightarrow> ((rs, None), None) | Some k \<Rightarrow> ((k # rs, None), None)),
      conn_rollback = (\<lambda>(rs, p). (rs, None))\<rparr>"

interpretation list_outbox: outbox_table list_table "\<lambda>(rs, p). set rs"
  by unfold_locales (auto simp: list_table_def split: if_splits option.splits)

section \<open>The properties\<close>

text \<open>
  No attempt is executed twice, in memory: whatever callers attempt to execute, with whatever
  copies of cases and decisions, in whatever order, each pair of case id and attempt number is executed
  at most once; and of any decisions presented for commit, in any order, exactly one per pair wins.
\<close>

theorem memory_executes_each_attempt_once:
  "distinct (snd (executions mem_commit clk [] calls))
   \<and> distinct (snd (commit_all mem_commit [] ds))
   \<and> set (snd (commit_all mem_commit [] ds)) = attempt_key ` set ds"
proof -
  have total: "mem_commit k d \<noteq> (k', Inl e)" for k d k' e by (simp add: mem_commit_def)
  show ?thesis
    using mem.execution_once [of clk "[]" calls] mem.commit_once [of "[]" ds] mem.first_commit_wins [OF total, of "[]" ds]
    by (metis Diff_empty empty_set prod.collapse)
qed

text \<open>
  C37. No attempt is executed twice with etcd or with the outbox table, by any number of instances
  interleaved in any way: over a client whose transaction is atomic, or a table with the unique key,
  the executed pairs are pairwise different and none was approved before, also across calls that raise.
\<close>

theorem durable_backends_execute_once:
  assumes "etcd_client txn view" and "outbox_table conn rows"
  shows "distinct (snd (executions (etcd_commit txn) clk c calls))
     \<and> (\<forall>a \<in> set (snd (executions (etcd_commit txn) clk c calls)). view c (key_for a) = None)
     \<and> distinct (snd (executions (outbox_commit conn) clk t calls))
     \<and> set (snd (executions (outbox_commit conn) clk t calls)) \<inter> rows t = {}"
proof -
  obtain c' ex where e: "executions (etcd_commit txn) clk c calls = (c', ex)" by (cases "executions (etcd_commit txn) clk c calls")
  obtain t' ex' where o: "executions (outbox_commit conn) clk t calls = (t', ex')"
    by (cases "executions (outbox_commit conn) clk t calls")
  from commit_backend.execution_once [OF etcd_is_backend [OF assms(1)] e]
    commit_backend.execution_once [OF outbox_is_backend [OF assms(2)] o]
  show ?thesis by (auto simp: e o stored_keys_def)
qed

definition sample_decision :: "string \<Rightarrow> int \<Rightarrow> retry_decision" where
  "sample_decision cid n =
     \<lparr>rd_case_id = cid, rd_attempt_number = n, rd_scheduled_at = 0, reasoning = ''r'', rd_commit_backend = Postgres_outbox,
      commit_ref = ''ref'', executed_at = None, outcome = Pending\<rparr>"

definition scheduled_case :: recovery_case where
  "scheduled_case =
     \<lparr>case_id = ''p2'', mandate_id = ''m1'', instrument_id = ''card_1'', original_amount = 50000, opened_at = 0,
      retries_used = 0, state = RETRY_SCHEDULED, bucket = Some Treatment, control_outcome = None,
      control_observation_deadline = None, resolution_note = None\<rparr>"

theorem durable_backends_execute_once_witness:
  "snd (executions (etcd_commit dict_txn) RealClock []
      [(scheduled_case, sample_decision ''p2'' 1, 5), (scheduled_case, sample_decision ''p2'' 1, 6)]) = [(''p2'', 1)]
   \<and> distinct (snd (executions (outbox_commit list_table) RealClock ([], None)
      [(scheduled_case, sample_decision ''p2'' 1, 5), (scheduled_case, sample_decision ''p2'' 1, 6)]))"
  using durable_backends_execute_once [OF dict_etcd.etcd_client_axioms list_outbox.outbox_table_axioms,
      of RealClock "[]" "[(scheduled_case, sample_decision ''p2'' 1, 5), (scheduled_case, sample_decision ''p2'' 1, 6)]"
        "([], None)"]
  by (auto simp: attempt_execution_def scheduled_case_def sample_decision_def etcd_commit_def dict_txn_def Let_def
      attempt_key_def)

text \<open>
  The keys of the commit log are unambiguous: different pairs of case id and attempt number have
  different keys, whatever characters the ids contain.  The prefix scan of one case is not: a case id
  that continues another one after a slash falls under its prefix.
\<close>

theorem commit_keys_injective:
  "(key_for a = key_for b \<longleftrightarrow> a = b)
   \<and> py_startswith (commit_prefix @ cid @ ''/'') (key_for (cid, n))
   \<and> py_startswith (commit_prefix @ cid @ ''/'') (key_for (cid @ ''/'' @ other, n))"
proof (intro conjI)
  show "key_for a = key_for b \<longleftrightarrow> a = b" using key_for_inj by blast
qed (auto simp: py_startswith_iff key_for_def)

text \<open>
  Committing an effect never succeeds without etcd: the in-memory backend raises ValueError, since it
  builds its decision with an empty reasoning, and the outbox backend raises NameError; neither
  approves anything.
\<close>

theorem effects_never_commit_without_etcd:
  "mem_commit_effect committed cid n effect wall = (committed, Inl ValueError)
   \<and> outbox_commit_effect conn c cid n effect = (c, Inl NameError)"
  by (simp add: mem_commit_effect_def RetryDecision_def outbox_commit_effect_def)

end
