(* ===== verification/Verifier.thy ===== *)
theory Verifier
  imports Run_Properties
begin

text \<open>
  The compliance verifier of \<^verbatim>\<open>app/core/verifier.py\<close>: one result per rule, in the order the function
  appends them.  The explanatory texts of the results are not modelled.
\<close>

section \<open>The rules\<close>

type_synonym verification_result = "string \<times> bool"

definition check_max_retries :: "recovery_case \<Rightarrow> app_config \<Rightarrow> verification_result list" where
  "check_max_retries c cfg = [(''max_retries'', \<not> retries_used c > max_retries (npci cfg))]"

text \<open>
  The notice loop: whether it broke off at a violation, the notice still waiting for its execution and
  whether any execution followed a notice.
\<close>

fun notice_scan ::
  "timedelta \<Rightarrow> audit_entry option \<Rightarrow> bool \<Rightarrow> audit_entry list \<Rightarrow> bool \<times> audit_entry option \<times> bool" where
  "notice_scan lead last_notice found [] = (False, last_notice, found)"
| "notice_scan lead last_notice found (e # es) =
     (if to_state e = NOTICE_SENT then notice_scan lead (Some e) found es
      else if to_state e = RETRY_EXECUTED
      then (case last_notice of
              None \<Rightarrow> notice_scan lead None found es
            | Some n \<Rightarrow> if timestamp e - timestamp n < lead then (True, Some n, True)
                        else notice_scan lead None True es)
      else notice_scan lead last_notice found es)"

definition check_notice :: "audit_entry list \<Rightarrow> app_config \<Rightarrow> verification_result list" where
  "check_notice es cfg =
     (let (violated, last_notice, found) = notice_scan (notice_lead_time (npci cfg)) None False es
      in (if violated then [(''notice_lead_time'', False)] else [])
         @ (if last_notice = None \<or> \<not> found then [(''notice_lead_time'', True)] else []))"

definition executed_times :: "audit_entry list \<Rightarrow> datetime list" where
  "executed_times es = map timestamp (filter (\<lambda>e. to_state e = RETRY_EXECUTED) es)"

fun spacing_loop :: "timedelta list \<Rightarrow> int \<Rightarrow> datetime list \<Rightarrow> bool result" where
  "spacing_loop spacing i (a # b # ts) =
     bindR (py_nth spacing (min i (int (length spacing) - 1))) (\<lambda>required.
       if b - a < required then Inr False else spacing_loop spacing (i + 1) (b # ts))"
| "spacing_loop spacing i _ = Inr True"

definition check_spacing :: "audit_entry list \<Rightarrow> app_config \<Rightarrow> verification_result list result" where
  "check_spacing es cfg =
     bindR (spacing_loop (retry_spacing (self_imposed cfg)) 1 (executed_times es)) (\<lambda>ok.
       Inr [(''retry_spacing'', ok)])"

definition timestamps_to_check :: "audit_entry \<Rightarrow> datetime list" where
  "timestamps_to_check e =
     (if to_state e = RETRY_EXECUTED then [timestamp e]
      else if to_state e = RETRY_SCHEDULED
      then timestamp e # (case ae_scheduled_at e of None \<Rightarrow> [] | Some t \<Rightarrow> [t])
      else [])"

definition check_peak :: "audit_entry list \<Rightarrow> app_config \<Rightarrow> verification_result list" where
  "check_peak es cfg =
     [(''peak_hour_blackout'',
       \<not> list_ex (\<lambda>e. list_ex (\<lambda>t. list_ex (\<lambda>w. in_window w t) (peak_windows (npci cfg))) (timestamps_to_check e)) es)]"

definition check_afa :: "recovery_case \<Rightarrow> audit_entry list \<Rightarrow> app_config \<Rightarrow> verification_result list" where
  "check_afa c es cfg =
     (let default_ceiling = (case dict_get (afa_free_ceiling (npci cfg)) ''default'' of None \<Rightarrow> 1500000 | Some v \<Rightarrow> v)
      in if bucket c = Some Treatment \<and> original_amount c > default_ceiling
         then [(''afa_ceiling'', \<not> list_ex (\<lambda>e. to_state e = RETRY_SCHEDULED \<or> to_state e = RETRY_EXECUTED) es)]
         else [(''afa_ceiling'', True)])"

definition buckets_seen :: "audit_entry list \<Rightarrow> string list" where
  "buckets_seen es =
     remdups (map (\<lambda>e. split_last (CHR ''_'') (rule_fired e)) (filter (\<lambda>e. py_contains ''assign_bucket'' (rule_fired e)) es))"

definition check_buckets :: "audit_entry list \<Rightarrow> verification_result list" where
  "check_buckets es = [(''bucket_immutability'', \<not> length (buckets_seen es) > 1)]"

definition verify_case_compliance ::
  "recovery_case \<Rightarrow> audit_entry list \<Rightarrow> app_config \<Rightarrow> verification_result list result" where
  "verify_case_compliance c es cfg =
     (if es = [] then Inr [(''empty_audit'', False)]
      else bindR (check_spacing es cfg) (\<lambda>spacing.
        Inr (check_max_retries c cfg @ check_notice es cfg @ spacing @ check_peak es cfg
             @ check_afa c es cfg @ check_buckets es @ [(''throttle_neutrality'', True)])))"

section \<open>What the checks decide\<close>

text \<open>Every execution comes at least the lead time after the notice of its cycle.\<close>

definition lead_respected :: "timedelta \<Rightarrow> audit_entry list \<Rightarrow> bool" where
  "lead_respected lead es \<longleftrightarrow>
     (\<forall>pre n mid e post. es = pre @ n # mid @ e # post \<longrightarrow>
        to_state n = NOTICE_SENT \<longrightarrow> to_state e = RETRY_EXECUTED \<longrightarrow>
        (\<forall>x \<in> set mid. to_state x \<notin> {NOTICE_SENT, RETRY_EXECUTED}) \<longrightarrow>
        lead \<le> timestamp e - timestamp n)"

lemma lead_respectedD:
  "lead_respected lead es \<Longrightarrow> es = pre @ n # mid @ e # post \<Longrightarrow> to_state n = NOTICE_SENT \<Longrightarrow>
   to_state e = RETRY_EXECUTED \<Longrightarrow> \<forall>x \<in> set mid. to_state x \<notin> {NOTICE_SENT, RETRY_EXECUTED} \<Longrightarrow>
   lead \<le> timestamp e - timestamp n"
  unfolding lead_respected_def by blast

text \<open>The same with a notice already pending before the list.\<close>

definition pending_respected :: "timedelta \<Rightarrow> audit_entry option \<Rightarrow> audit_entry list \<Rightarrow> bool" where
  "pending_respected lead last_notice es \<longleftrightarrow>
     (\<forall>n mid e post. last_notice = Some n \<longrightarrow> es = mid @ e # post \<longrightarrow> to_state e = RETRY_EXECUTED \<longrightarrow>
        (\<forall>x \<in> set mid. to_state x \<notin> {NOTICE_SENT, RETRY_EXECUTED}) \<longrightarrow>
        lead \<le> timestamp e - timestamp n)"

lemma pending_Nil: "pending_respected lead prev []"
  by (simp add: pending_respected_def)

lemma pending_None [simp]: "pending_respected lead None es"
  by (simp add: pending_respected_def)

lemma pendingD:
  "pending_respected lead (Some n) es \<Longrightarrow> es = mid @ x # post \<Longrightarrow> to_state x = RETRY_EXECUTED \<Longrightarrow>
   \<forall>y \<in> set mid. to_state y \<notin> {NOTICE_SENT, RETRY_EXECUTED} \<Longrightarrow> lead \<le> timestamp x - timestamp n"
  unfolding pending_respected_def by blast

lemma pendingI:
  "(\<And>mid x post. es = mid @ x # post \<Longrightarrow> to_state x = RETRY_EXECUTED \<Longrightarrow>
      \<forall>y \<in> set mid. to_state y \<notin> {NOTICE_SENT, RETRY_EXECUTED} \<Longrightarrow> lead \<le> timestamp x - timestamp n) \<Longrightarrow>
   pending_respected lead (Some n) es"
  unfolding pending_respected_def by blast

lemma pending_Cons:
  "pending_respected lead (Some n) (e # es) \<longleftrightarrow>
     (if to_state e = RETRY_EXECUTED then lead \<le> timestamp e - timestamp n
      else to_state e = NOTICE_SENT \<or> pending_respected lead (Some n) es)" (is "?l \<longleftrightarrow> ?r")
proof
  assume l: ?l
  have "lead \<le> timestamp e - timestamp n" if "to_state e = RETRY_EXECUTED"
    using pendingD [OF l, of "[]" e es] that by simp
  moreover have "pending_respected lead (Some n) es" if "to_state e \<notin> {NOTICE_SENT, RETRY_EXECUTED}"
  proof (rule pendingI)
    fix mid x post
    assume "es = mid @ x # post" "to_state x = RETRY_EXECUTED" "\<forall>y \<in> set mid. to_state y \<notin> {NOTICE_SENT, RETRY_EXECUTED}"
    with pendingD [OF l, of "e # mid" x post] that show "lead \<le> timestamp x - timestamp n" by simp
  qed
  ultimately show ?r by auto
next
  assume r: ?r
  show ?l
  proof (rule pendingI)
    fix mid x post
    assume eq: "e # es = mid @ x # post" and x: "to_state x = RETRY_EXECUTED"
      and mid: "\<forall>y \<in> set mid. to_state y \<notin> {NOTICE_SENT, RETRY_EXECUTED}"
    show "lead \<le> timestamp x - timestamp n"
    proof (cases mid)
      case Nil
      with eq x r show ?thesis by simp
    next
      case (Cons y mid')
      with eq mid r have "pending_respected lead (Some n) es" "es = mid' @ x # post"
        "\<forall>y \<in> set mid'. to_state y \<notin> {NOTICE_SENT, RETRY_EXECUTED}" by auto
      from pendingD [OF this(1,2) x this(3)] show ?thesis .
    qed
  qed
qed

lemma lead_Cons:
  "lead_respected lead (e # es) \<longleftrightarrow>
     (to_state e = NOTICE_SENT \<longrightarrow> pending_respected lead (Some e) es) \<and> lead_respected lead es"
proof -
  have split: "(e # es = pre @ n # r) \<longleftrightarrow> (pre = [] \<and> n = e \<and> r = es \<or> (\<exists>pre'. pre = e # pre' \<and> es = pre' @ n # r))"
    for pre n r by (cases pre) auto
  show ?thesis
  proof
    assume h: "lead_respected lead (e # es)"
    have "lead_respected lead es"
      unfolding lead_respected_def
    proof (intro allI impI)
      fix pre n mid x post
      assume "es = pre @ n # mid @ x # post" and *: "to_state n = NOTICE_SENT" "to_state x = RETRY_EXECUTED"
        "\<forall>y \<in> set mid. to_state y \<notin> {NOTICE_SENT, RETRY_EXECUTED}"
      then have "e # es = (e # pre) @ n # mid @ x # post" by simp
      with h * show "lead \<le> timestamp x - timestamp n" unfolding lead_respected_def by blast
    qed
    moreover have "to_state e = NOTICE_SENT \<longrightarrow> pending_respected lead (Some e) es"
      unfolding pending_respected_def
    proof (intro allI impI)
      fix n mid x post
      assume n: "to_state e = NOTICE_SENT" "Some e = Some n" "es = mid @ x # post"
        and *: "to_state x = RETRY_EXECUTED" "\<forall>y \<in> set mid. to_state y \<notin> {NOTICE_SENT, RETRY_EXECUTED}"
      then have "e # es = [] @ e # mid @ x # post" by simp
      with h n * show "lead \<le> timestamp x - timestamp n" unfolding lead_respected_def by blast
    qed
    ultimately show "(to_state e = NOTICE_SENT \<longrightarrow> pending_respected lead (Some e) es) \<and> lead_respected lead es" by blast
  next
    assume h: "(to_state e = NOTICE_SENT \<longrightarrow> pending_respected lead (Some e) es) \<and> lead_respected lead es"
    show "lead_respected lead (e # es)"
      unfolding lead_respected_def
    proof (intro allI impI)
      fix pre n mid x post
      assume eq: "e # es = pre @ n # mid @ x # post" and *: "to_state n = NOTICE_SENT" "to_state x = RETRY_EXECUTED"
        "\<forall>y \<in> set mid. to_state y \<notin> {NOTICE_SENT, RETRY_EXECUTED}"
      from eq consider "n = e" "es = mid @ x # post" | pre' where "es = pre' @ n # mid @ x # post"
        by (cases pre) auto
      then show "lead \<le> timestamp x - timestamp n"
      proof cases
        case 1
        with h * show ?thesis unfolding pending_respected_def by blast
      next
        case 2
        with h * show ?thesis unfolding lead_respected_def by blast
      qed
    qed
  qed
qed

lemma notice_scan_violation:
  "\<not> fst (notice_scan lead prev found es) \<longleftrightarrow> pending_respected lead prev es \<and> lead_respected lead es"
proof (induction lead prev found es rule: notice_scan.induct)
  case (1 lead prev found)
  then show ?case by (simp add: pending_Nil lead_respected_def)
next
  case (2 lead prev found e es)
  then show ?case
    by (cases prev) (auto simp: lead_Cons pending_Cons split: if_splits)
qed

lemma notice_scan_break: "fst (notice_scan lead prev found es) \<Longrightarrow>
   \<exists>n. notice_scan lead prev found es = (True, Some n, True)"
  by (induction lead prev found es rule: notice_scan.induct) (auto split: if_splits option.splits)

definition spacing_respected :: "timedelta list \<Rightarrow> nat \<Rightarrow> datetime list \<Rightarrow> bool" where
  "spacing_respected spacing i ts \<longleftrightarrow>
     (\<forall>j. Suc j < length ts \<longrightarrow> spacing ! min (i + j) (length spacing - 1) \<le> ts ! Suc j - ts ! j)"

lemma spacing_Cons:
  "spacing_respected spacing i (a # b # ts) \<longleftrightarrow>
     spacing ! min i (length spacing - 1) \<le> b - a \<and> spacing_respected spacing (Suc i) (b # ts)"
  unfolding spacing_respected_def
proof (intro iffI conjI allI impI)
  assume h: "\<forall>j. Suc j < length (a # b # ts) \<longrightarrow>
      spacing ! min (i + j) (length spacing - 1) \<le> (a # b # ts) ! Suc j - (a # b # ts) ! j"
  from h [rule_format, of 0] show "spacing ! min i (length spacing - 1) \<le> b - a" by simp
  fix j assume "Suc j < length (b # ts)"
  with h [rule_format, of "Suc j"]
  show "spacing ! min (Suc i + j) (length spacing - 1) \<le> (b # ts) ! Suc j - (b # ts) ! j" by simp
next
  fix j
  assume h: "spacing ! min i (length spacing - 1) \<le> b - a \<and>
      (\<forall>j. Suc j < length (b # ts) \<longrightarrow>
         spacing ! min (Suc i + j) (length spacing - 1) \<le> (b # ts) ! Suc j - (b # ts) ! j)"
    and "Suc j < length (a # b # ts)"
  then show "spacing ! min (i + j) (length spacing - 1) \<le> (a # b # ts) ! Suc j - (a # b # ts) ! j"
    by (cases j) simp_all
qed

lemma spacing_loop_decides:
  assumes "spacing \<noteq> []"
  shows "spacing_loop spacing (int i) ts = Inr (spacing_respected spacing i ts)"
proof (induction ts arbitrary: i rule: induct_list012)
  case 1
  then show ?case by (simp add: spacing_respected_def)
next
  case (2 x)
  then show ?case by (simp add: spacing_respected_def)
next
  case (3 a b ts)
  have "nat (min (int i) (int (length spacing) - 1)) = min i (length spacing - 1)"
    using assms by (cases spacing) auto
  then have "py_nth spacing (min (int i) (int (length spacing) - 1)) = Inr (spacing ! min i (length spacing - 1))"
    using py_nth_clamped [of spacing "int i"] assms by simp
  moreover have "spacing_loop spacing (int i + 1) (b # ts) = Inr (spacing_respected spacing (Suc i) (b # ts))"
    using 3(2) [of "Suc i"] by (simp add: add.commute)
  ultimately show ?case by (auto simp: spacing_Cons)
qed

section \<open>The properties\<close>

lemma check_peak_iff:
  "(''peak_hour_blackout'', False) \<in> set (check_peak es cfg) \<longleftrightarrow>
     (\<exists>e \<in> set es. \<exists>t \<in> set (timestamps_to_check e). in_blackout cfg t)"
  by (auto simp: check_peak_def list_ex_iff in_blackout_def)

lemma check_notice_iff:
  "(''notice_lead_time'', False) \<in> set (check_notice es cfg) \<longleftrightarrow> \<not> lead_respected (notice_lead_time (npci cfg)) es"
proof -
  obtain v l f where scan: "notice_scan (notice_lead_time (npci cfg)) None False es = (v, l, f)"
    by (cases "notice_scan (notice_lead_time (npci cfg)) None False es") auto
  then have "v \<longleftrightarrow> \<not> lead_respected (notice_lead_time (npci cfg)) es"
    using notice_scan_violation [of "notice_lead_time (npci cfg)" None False es] by (cases v) simp_all
  with scan show ?thesis by (auto simp: check_notice_def)
qed

text \<open>The results in detail, when the spacing list is not empty.\<close>

lemma verify_results:
  assumes "es \<noteq> []" and "retry_spacing (self_imposed cfg) \<noteq> []"
  shows "verify_case_compliance c es cfg =
    Inr (check_max_retries c cfg @ check_notice es cfg
         @ [(''retry_spacing'', spacing_respected (retry_spacing (self_imposed cfg)) 1 (executed_times es))]
         @ check_peak es cfg @ check_afa c es cfg @ check_buckets es @ [(''throttle_neutrality'', True)])"
  using assms spacing_loop_decides [OF assms(2), of 1 "executed_times es"]
  by (simp add: verify_case_compliance_def check_spacing_def)

lemma check_names:
  "r \<in> set (check_max_retries c cfg) \<Longrightarrow> fst r = ''max_retries''"
  "r \<in> set (check_notice es cfg) \<Longrightarrow> fst r = ''notice_lead_time''"
  "r \<in> set (check_peak es cfg) \<Longrightarrow> fst r = ''peak_hour_blackout''"
  "r \<in> set (check_afa c es cfg) \<Longrightarrow> fst r = ''afa_ceiling''"
  "r \<in> set (check_buckets es) \<Longrightarrow> fst r = ''bucket_immutability''"
  by (auto simp: check_max_retries_def check_notice_def check_peak_def check_afa_def check_buckets_def Let_def
      split: if_splits prod.splits)

lemma other_names:
  "n \<noteq> ''max_retries'' \<Longrightarrow> (n, b) \<notin> set (check_max_retries c cfg)"
  "n \<noteq> ''notice_lead_time'' \<Longrightarrow> (n, b) \<notin> set (check_notice es cfg)"
  "n \<noteq> ''peak_hour_blackout'' \<Longrightarrow> (n, b) \<notin> set (check_peak es cfg)"
  "n \<noteq> ''afa_ceiling'' \<Longrightarrow> (n, b) \<notin> set (check_afa c es cfg)"
  "n \<noteq> ''bucket_immutability'' \<Longrightarrow> (n, b) \<notin> set (check_buckets es)"
  using check_names by fastforce+


definition timed_entry :: "case_state \<Rightarrow> case_state \<Rightarrow> string \<Rightarrow> datetime \<Rightarrow> audit_entry" where
  "timed_entry a b rule t = sm_audit ''p2'' a b rule 2 t Agent"

definition hasty_trail :: "audit_entry list" where
  "hasty_trail =
     [timed_entry NOTICE_PENDING NOTICE_SENT ''notice_sent'' 0,
      timed_entry NOTICE_SENT RETRY_SCHEDULED ''schedule_retry'' 0,
      timed_entry RETRY_SCHEDULED RETRY_EXECUTED ''commit_approved'' (hours 23)]"


section \<open>Runs of the state machine under the verifier\<close>

definition plain_rules :: "string list" where
  "plain_rules =
     [''amount_mismatch_on_success'', ''unexpected_success_event'', ''unexpected_failure_event'', ''natural_recovery'',
      ''agent_recovered'', ''natural_recovery_treatment_bucket'', ''late_success_reconciled'', ''control_failure_signal'',
      ''execution_outcome'', ''retry_cap_or_business'', ''technical_decline_retry_eligible'', ''notice_sent'',
      ''schedule_retry'', ''commit_approved'', ''throttle_applied'', ''throttle_released'', ''create_case'',
      ''hard_decline'', ''afa_threshold_exceeded'', ''technical_decline'']"

lemma plain_rules_no_bucket: "r \<in> set plain_rules \<Longrightarrow> \<not> py_contains ''assign_bucket'' r"
proof -
  have "list_all (\<lambda>r. \<not> py_contains ''assign_bucket'' r) plain_rules" by code_simp
  then show "r \<in> set plain_rules \<Longrightarrow> \<not> py_contains ''assign_bucket'' r" by (simp add: list_all_iff)
qed

lemma step_rules: "fsm_step cfg clk c es c' \<Longrightarrow> e \<in> set es \<Longrightarrow> rule_fired e \<in> set plain_rules"
proof (erule fsm_stepE)
  fix ev wall ev' d assume "e \<in> set es" "handle_existing_failure c ev cfg clk wall = (c', ev', es, d)"
  then show ?thesis by (auto simp: handle_existing_failure_def Let_def plain_rules_def split: if_splits)
next
  fix sev wall d assume "e \<in> set es" "handle_payment_success c sev clk wall = (c', es, d)"
  then show ?thesis by (auto simp: handle_payment_success_def Let_def plain_rules_def split: if_splits)
next
  fix bandit wall wall' rcode prev d
  assume "e \<in> set es" "mark_notice_sent c cfg clk wall wall' rcode prev bandit = (c', Inr (es, d))"
  then show ?thesis by (auto dest!: mark_notice_sent_Inr simp: plain_rules_def)
qed (auto simp: fsm_defs Let_def plain_rules_def split: if_splits sum.splits bool.splits)

lemma buckets_seen_step:
  "fsm_step cfg clk c es c' \<Longrightarrow> buckets_seen (trail @ es) = buckets_seen trail"
proof -
  assume "fsm_step cfg clk c es c'"
  then have "filter (\<lambda>e. py_contains ''assign_bucket'' (rule_fired e)) es = []"
    using step_rules plain_rules_no_bucket by (fastforce simp: filter_empty_conv)
  then show ?thesis by (simp add: buckets_seen_def)
qed

lemma bucket_rule_names:
  "split_last (CHR ''_'') ''assign_bucket_control'' = ''control''"
  "split_last (CHR ''_'') ''assign_bucket_treatment'' = ''treatment''"
  "py_contains ''assign_bucket'' ''assign_bucket_control''"
  "py_contains ''assign_bucket'' ''assign_bucket_treatment''"
  by code_simp+

lemma buckets_seen_opened:
  assumes "handle_new_failure ev cfg clk wall = Inr (c, ev', es, d)"
  shows "buckets_seen es = [if bucket c = Some Control then ''control'' else ''treatment'']"
proof -
  have plain: "\<not> py_contains ''assign_bucket'' ''create_case''" "\<not> py_contains ''assign_bucket'' ''hard_decline''"
    "\<not> py_contains ''assign_bucket'' ''afa_threshold_exceeded''" "\<not> py_contains ''assign_bucket'' ''technical_decline''"
    by (rule plain_rules_no_bucket; simp add: plain_rules_def)+
  from handle_new_failure_cases [OF assms] obtain mid c0 where
    "opened_control c0 (clock_now clk wall) c es
     \<or> (\<exists>st rule. opened_treatment c0 (clock_now clk wall) st rule c es \<and> opening_choice cfg ev c0 st rule)"
    by blast
  then show ?thesis
  proof (elim disjE exE conjE)
    assume "opened_control c0 (clock_now clk wall) c es"
    then show ?thesis
      by (auto simp: opened_control_def buckets_seen_def plain bucket_rule_names)
  next
    fix st rule
    assume o: "opened_treatment c0 (clock_now clk wall) st rule c es" and ch: "opening_choice cfg ev c0 st rule"
    from ch have "\<not> py_contains ''assign_bucket'' rule" by (auto simp: opening_choice_def plain)
    with o show ?thesis by (auto simp: opened_treatment_def buckets_seen_def plain bucket_rule_names)
  qed
qed

lemma run_buckets_seen: "fsm_run cfg clk c trail \<Longrightarrow> length (buckets_seen trail) = 1"
proof (induction rule: fsm_run.induct)
  case opened
  then show ?case using buckets_seen_opened by simp
next
  case stepped
  then show ?case using buckets_seen_step by simp
qed

text \<open>
  C39. The independent verifier agrees with the state machine on the rules both know: for every run under
  a configuration that allows at least one retry, the verifier's results for the retry cap, the bucket
  and the throttle are all passes.
\<close>

theorem runs_pass_verifier:
  assumes "fsm_run cfg clk c trail" and "1 \<le> max_retries (npci cfg)" and "retry_spacing (self_imposed cfg) \<noteq> []"
  shows "\<exists>rs. verify_case_compliance c trail cfg = Inr rs
     \<and> (\<forall>r \<in> {''max_retries'', ''bucket_immutability'', ''throttle_neutrality''}. (r, True) \<in> set rs \<and> (r, False) \<notin> set rs)"
proof -
  have one: "length (buckets_seen trail) = 1" by (rule run_buckets_seen [OF assms(1)])
  then have ne: "trail \<noteq> []" by (auto simp: buckets_seen_def)
  have "retries_used c \<le> max_retries (npci cfg)"
    using run_invariant [OF assms(1)] assms(2) by (simp add: run_inv_def retry_cap_def)
  then have cap: "check_max_retries c cfg = [(''max_retries'', True)]" by (simp add: check_max_retries_def)
  have buckets: "check_buckets trail = [(''bucket_immutability'', True)]" using one by (simp add: check_buckets_def)
  note results = verify_results [OF ne assms(3), of c]
  have "(''throttle_neutrality'', False) \<notin> set (check_notice trail cfg @ check_peak trail cfg @ check_afa c trail cfg)"
    "(''max_retries'', False) \<notin> set (check_notice trail cfg @ check_peak trail cfg @ check_afa c trail cfg)"
    "(''bucket_immutability'', False) \<notin> set (check_notice trail cfg @ check_peak trail cfg @ check_afa c trail cfg)"
    by (simp_all add: other_names)
  with results cap buckets show ?thesis by auto
qed

theorem runs_pass_verifier_witness:
  "\<exists>trail rs. fsm_run (shipped_config Prod) RealClock (sample_case ''p2'' RETRY_EXECUTED) trail
     \<and> verify_case_compliance (sample_case ''p2'' RETRY_EXECUTED) trail (shipped_config Prod) = Inr rs
     \<and> (''max_retries'', True) \<in> set rs \<and> (''bucket_immutability'', True) \<in> set rs"
proof -
  obtain trail where run: "fsm_run (shipped_config Prod) RealClock (sample_case ''p2'' RETRY_EXECUTED) trail"
    using sample_run_executed by blast
  moreover have "1 \<le> max_retries (npci (shipped_config Prod))" "retry_spacing (self_imposed (shipped_config Prod)) \<noteq> []"
    by (simp_all add: shipped_config_def)
  ultimately show ?thesis using runs_pass_verifier [OF run] by blast
qed

text \<open>
  The verifier counts flags as executions: after a single execution, a success event with a wrong
  amount leaves the case in RETRY_EXECUTED with one flag entry; arriving less than three days later,
  that entry alone makes the verifier report a spacing violation although there was one execution.
\<close>

theorem verifier_counts_flags_as_executions:
  assumes "state c = RETRY_EXECUTED" and "se_amount ev \<noteq> original_amount c" and "t' - t < hours 72"
  shows "\<exists>flag. handle_payment_success c ev RealClock t' = (c, [flag], None)
     \<and> exec_count [agent_entry c RETRY_SCHEDULED RETRY_EXECUTED ''commit_approved'' t, flag] = 1
     \<and> check_spacing [agent_entry c RETRY_SCHEDULED RETRY_EXECUTED ''commit_approved'' t, flag] (shipped_config p)
         = Inr [(''retry_spacing'', False)]"
proof -
  have spacing: "py_nth (retry_spacing (self_imposed (shipped_config p)))
      (min 1 (int (length (retry_spacing (self_imposed (shipped_config p)))) - 1)) = Inr (hours 72)"
    by (simp add: shipped_config_def py_nth_def)
  show ?thesis
    using assms spacing
    by (simp add: handle_payment_success_def Let_def exec_count_def check_spacing_def executed_times_def)
qed

theorem verifier_counts_flags_as_executions_witness:
  "\<exists>flag. handle_payment_success (sample_case ''p2'' RETRY_EXECUTED) (sample_success 49999) RealClock (hours 2)
       = (sample_case ''p2'' RETRY_EXECUTED, [flag], None)
     \<and> check_spacing [agent_entry (sample_case ''p2'' RETRY_EXECUTED) RETRY_SCHEDULED RETRY_EXECUTED ''commit_approved'' 0, flag]
         (shipped_config Prod) = Inr [(''retry_spacing'', False)]"
proof -
  have "state (sample_case ''p2'' RETRY_EXECUTED) = RETRY_EXECUTED"
    "se_amount (sample_success 49999) \<noteq> original_amount (sample_case ''p2'' RETRY_EXECUTED)"
    by (simp_all add: sample_case_def sample_success_def)
  moreover have "hours 2 - 0 < hours 72" by simp
  ultimately show ?thesis
    using verifier_counts_flags_as_executions [where p = Prod] by blast
qed

end
