(* ===== verification/Webhook.thy ===== *)
theory Webhook
  imports Models Sha256 Iso_Dates
begin

text \<open>
  The entry points of the outside world: \<^verbatim>\<open>app/core/webhook_security.py\<close> (the HMAC check of a raw body) and
  \<^verbatim>\<open>app/core/webhook_parser.py\<close> (payload dictionaries to events).  A payload is a dynamic value; every
  exception an access to it can raise is a branch.  Python stores whatever value a field has; where a
  record field is a string and the payload holds something else, the model stops with \<open>Unmodelled\<close>, after
  every check of the code that would have raised before.
\<close>

section \<open>Signatures\<close>

text \<open>
  \<^verbatim>\<open>hmac.compare_digest\<close> on two strings raises a TypeError unless both are ASCII; the computed digest
  always is.
\<close>

definition ascii :: "string \<Rightarrow> bool" where
  "ascii s \<longleftrightarrow> list_all (\<lambda>c. ord_of c < 128) s"

definition compare_digest :: "string \<Rightarrow> string \<Rightarrow> bool result" where
  "compare_digest a b = (if ascii a \<and> ascii b then Inr (a = b) else Inl TypeError)"

definition verify_webhook_signature :: "byte list \<Rightarrow> string option \<Rightarrow> string \<Rightarrow> bool result" where
  "verify_webhook_signature raw_body signature_header secret =
     (case signature_header of
        None \<Rightarrow> Inr False
      | Some sig \<Rightarrow>
          if secret = [] \<or> sig = [] then Inr False
          else compare_digest (hexdigest (hmac_sha256 (utf8 secret) raw_body)) sig)"

section \<open>Timestamps\<close>

text \<open>
  \<^verbatim>\<open>datetime.fromtimestamp(n, tz=timezone.utc)\<close>: the seconds must fit the platform's 64-bit \<^verbatim>\<open>time_t\<close>,
  their year must fit the C library's \<^verbatim>\<open>struct tm\<close>, and it must lie in 1..9999.
\<close>

definition fromtimestamp :: "int \<Rightarrow> datetime result" where
  "fromtimestamp n =
     (if n < - 9223372036854775808 \<or> 9223372036854775807 < n then Inl OverflowError
      else if n < - 67768040609740800 \<or> 67768036191676799 < n then Inl OSError
      else if n < - 62135596800 \<or> 253402300799 < n then Inl ValueError
      else Inr (n * usec_per_second))"

section \<open>Payloads\<close>

definition payment_entity :: "pyval \<Rightarrow> pyval result" where
  "payment_entity payload =
     bindR (py_item payload ''payload'') (\<lambda>p. bindR (py_item p ''payment'') (\<lambda>q. py_item q ''entity''))"

text \<open>The value of a string field, of an optional string field and of a dictionary field, as stored.\<close>

fun text_field :: "pyval \<Rightarrow> string result" where
  "text_field (PStr s) = Inr s"
| "text_field _ = Inl Unmodelled"

fun opt_text_field :: "pyval \<Rightarrow> string option result" where
  "opt_text_field PNone = Inr None"
| "opt_text_field (PStr s) = Inr (Some s)"
| "opt_text_field _ = Inl Unmodelled"

fun notes_field :: "pyval \<Rightarrow> (string, pyval) dict result" where
  "notes_field (PDict d) = Inr d"
| "notes_field _ = Inl Unmodelled"

text \<open>\<^verbatim>\<open>hashlib.sha256(vpa.encode("utf-8")).hexdigest()\<close>: only a string has \<^verbatim>\<open>encode\<close>.\<close>

fun instrument_of_vpa :: "pyval \<Rightarrow> string result" where
  "instrument_of_vpa (PStr vpa) = Inr (sha256_hex vpa)"
| "instrument_of_vpa _ = Inl AttributeError"

definition positive_amount :: "pyval \<Rightarrow> int result" where
  "positive_amount payment =
     bindR (py_item payment ''amount'') (\<lambda>v. bindR (py_int v) (\<lambda>paise.
       if paise \<le> 0 then Inl ValueError else Inr paise))"

text \<open>The case id and attempt number of the event.\<close>

definition resolve_attempt :: "recovery_case option \<Rightarrow> int option \<Rightarrow> (string option \<times> int) result" where
  "resolve_attempt existing_case attempt =
     bindR (case existing_case of
              Some c \<Rightarrow> (case attempt of None \<Rightarrow> Inl ValueError | Some n \<Rightarrow> Inr (Some (case_id c), n))
            | None \<Rightarrow> (case attempt of
                         None \<Rightarrow> Inr (None, 1)
                       | Some n \<Rightarrow> if n \<noteq> 1 then Inl ValueError else Inr (None, n)))
       (\<lambda>(cid, n). if n < 1 then Inl ValueError else Inr (cid, n))"

definition timestamp_of :: "pyval \<Rightarrow> datetime result" where
  "timestamp_of payment =
     bindR (py_item payment ''created_at'') (\<lambda>v. bindR (py_int v) fromtimestamp)"

definition parse_payment_failed ::
  "pyval \<Rightarrow> recovery_case option \<Rightarrow> int option \<Rightarrow> failure_event result" where
  "parse_payment_failed payload existing_case attempt =
     bindR (payment_entity payload) (\<lambda>payment.
     bindR (py_get payment ''method'' PNone) (\<lambda>method.
     if method \<noteq> PStr ''upi'' then Inl ValueError else
     bindR (py_get payment ''currency'' PNone) (\<lambda>currency.
     if currency \<noteq> PStr ''INR'' then Inl ValueError else
     bindR (py_item payment ''id'') (\<lambda>payment_id.
     bindR (positive_amount payment) (\<lambda>paise.
     bindR (py_get payment ''vpa'' PNone) (\<lambda>vpa.
     if \<not> truthy vpa then Inl ValueError else
     bindR (instrument_of_vpa vpa) (\<lambda>instrument.
     bindR (py_get payment ''notes'' PNone) (\<lambda>raw_notes.
     let ns = py_or raw_notes (PDict []) in
     bindR (py_get ns ''mandate_id'' PNone) (\<lambda>mandate.
     bindR (py_get payment ''error_code'' (PStr '''')) (\<lambda>code.
     bindR (py_get payment ''error_reason'' PNone) (\<lambda>reason.
     bindR (py_get payment ''error_source'' PNone) (\<lambda>source.
     bindR (py_get payment ''error_step'' PNone) (\<lambda>step.
     bindR (resolve_attempt existing_case attempt) (\<lambda>(cid, n).
     bindR (timestamp_of payment) (\<lambda>created.
     if cid = Some [] \<or> \<not> truthy payment_id then Inl ValueError else
     bindR (text_field payment_id) (\<lambda>pid.
     bindR (opt_text_field code) (\<lambda>code.
     bindR (opt_text_field mandate) (\<lambda>mandate.
     bindR (opt_text_field reason) (\<lambda>reason.
     bindR (opt_text_field source) (\<lambda>source.
     bindR (opt_text_field step) (\<lambda>step.
     bindR (notes_field ns) (\<lambda>ns.
       PaymentFailureEvent
         \<lparr>fe_case_id = (case cid of None \<Rightarrow> pid | Some k \<Rightarrow> k), fe_payment_id = pid, attempt_number = n,
          reason_code = code, decline_class = Unclassified, fe_amount = paise, received_at = created,
          fe_mandate_id = mandate, fe_instrument_id = instrument, error_reason = reason,
          error_source = source, error_step = step, fe_notes = Some ns\<rparr>))))))))))))))))))))))"

definition parse_payment_captured :: "pyval \<Rightarrow> recovery_case \<Rightarrow> success_event result" where
  "parse_payment_captured payload c =
     bindR (payment_entity payload) (\<lambda>payment.
     bindR (py_item payment ''id'') (\<lambda>payment_id.
     bindR (positive_amount payment) (\<lambda>paise.
     bindR (timestamp_of payment) (\<lambda>captured.
     if case_id c = [] \<or> \<not> truthy payment_id then Inl ValueError else
     bindR (text_field payment_id) (\<lambda>pid.
       PaymentSuccessEvent
         \<lparr>se_case_id = case_id c, se_payment_id = pid, se_amount = paise, captured_at = captured,
          matched_attempt_number = None\<rparr>)))))"

section \<open>What the parsers accept\<close>

lemma text_field_Inr [simp]: "text_field v = Inr s \<longleftrightarrow> v = PStr s"
  by (cases v) auto

lemma opt_text_field_Inr [simp]: "opt_text_field v = Inr t \<longleftrightarrow> v = (case t of None \<Rightarrow> PNone | Some s \<Rightarrow> PStr s)"
  by (cases v; cases t) auto

lemma notes_field_Inr [simp]: "notes_field v = Inr d \<longleftrightarrow> v = PDict d"
  by (cases v) auto

lemma instrument_of_vpa_Inr [simp]: "instrument_of_vpa v = Inr i \<longleftrightarrow> (\<exists>vpa. v = PStr vpa \<and> i = sha256_hex vpa)"
  by (cases v) auto

lemma py_item_Inr: "py_item v k = Inr x \<longleftrightarrow> (\<exists>d. v = PDict d \<and> dict_get d k = Some x)"
  by (cases v) auto

lemma py_get_Inr:
  "py_get v k dflt = Inr x \<longleftrightarrow> (\<exists>d. v = PDict d \<and> x = (case dict_get d k of None \<Rightarrow> dflt | Some y \<Rightarrow> y))"
  by (cases v) auto

lemma if_Inl_Inr [simp]: "(if b then Inl e else m) = Inr x \<longleftrightarrow> \<not> b \<and> m = Inr x"
  by simp

lemma resolve_attempt_Inr:
  "resolve_attempt co n = Inr (cid, k) \<longleftrightarrow>
     1 \<le> k \<and> (case co of None \<Rightarrow> cid = None \<and> k = 1 \<and> n \<in> {None, Some 1}
                  | Some c \<Rightarrow> cid = Some (case_id c) \<and> n = Some k)"
  by (auto simp: resolve_attempt_def bindR_eq_Inr split: option.splits)

lemma fromtimestamp_Inr: "fromtimestamp n = Inr t \<longleftrightarrow> - 62135596800 \<le> n \<and> n \<le> 253402300799 \<and> t = n * usec_per_second"
  by (auto simp: fromtimestamp_def)

lemma PaymentFailureEvent_Inr: "PaymentFailureEvent e = Inr e' \<longleftrightarrow> e' = e \<and> failure_event_ok e"
  by (auto simp: PaymentFailureEvent_def failure_event_ok_def)

lemmas parse_simps = bindR_eq_Inr py_item_Inr py_get_Inr resolve_attempt_Inr fromtimestamp_Inr PaymentFailureEvent_Inr
  payment_entity_def positive_amount_def timestamp_of_def

lemma bindR_InrE: "bindR m f = Inr y \<Longrightarrow> (\<And>x. m = Inr x \<Longrightarrow> f x = Inr y \<Longrightarrow> P) \<Longrightarrow> P"
  by (auto simp: bindR_eq_Inr)

lemma if_Inl_InrE: "(if b then Inl e else m) = Inr x \<Longrightarrow> (\<not> b \<Longrightarrow> m = Inr x \<Longrightarrow> P) \<Longrightarrow> P"
  by simp

lemma case_pairE: "(case p of (a, b) \<Rightarrow> f a b) = y \<Longrightarrow> (\<And>a b. p = (a, b) \<Longrightarrow> f a b = y \<Longrightarrow> P) \<Longrightarrow> P"
  by (cases p) simp

lemma parse_payment_failed_E:
  assumes "parse_payment_failed payload co n = Inr e"
  obtains payment pid vpa raw mandate cid where
    "payment_entity payload = Inr payment" "py_get payment ''method'' PNone = Inr (PStr ''upi'')"
    "py_get payment ''currency'' PNone = Inr (PStr ''INR'')" "py_item payment ''id'' = Inr (PStr pid)"
    "positive_amount payment = Inr (fe_amount e)" "py_get payment ''vpa'' PNone = Inr vpa" "truthy vpa"
    "instrument_of_vpa vpa = Inr (fe_instrument_id e)" "py_get payment ''notes'' PNone = Inr raw"
    "py_get (py_or raw (PDict [])) ''mandate_id'' PNone = Inr mandate" "opt_text_field mandate = Inr (fe_mandate_id e)"
    "resolve_attempt co n = Inr (cid, attempt_number e)" "notes_field (py_or raw (PDict [])) = Inr (the (fe_notes e))"
    "fe_notes e \<noteq> None" "fe_payment_id e = pid" "fe_case_id e = (case cid of None \<Rightarrow> pid | Some k \<Rightarrow> k)"
    "decline_class e = Unclassified" "failure_event_ok e"
  using assms unfolding parse_payment_failed_def Let_def
  apply (elim bindR_InrE if_Inl_InrE case_pairE)
  apply (simp only: PaymentFailureEvent_Inr not_not text_field_Inr de_Morgan_disj)
  apply (elim conjE)
  apply hypsubst
  apply (rule that)
  apply (assumption | simp only: failure_event.simps option.sel option.distinct not_False_eq_True)+
  done

lemma parse_payment_failed_fields:
  assumes "parse_payment_failed payload co n = Inr e"
  shows "failure_event_ok e" and "decline_class e = Unclassified"
    and "\<exists>d vpa am. payment_entity payload = Inr (PDict d)
      \<and> dict_get d ''method'' = Some (PStr ''upi'') \<and> dict_get d ''currency'' = Some (PStr ''INR'')
      \<and> dict_get d ''id'' = Some (PStr (fe_payment_id e))
      \<and> dict_get d ''amount'' = Some am \<and> py_int am = Inr (fe_amount e)
      \<and> dict_get d ''vpa'' = Some (PStr vpa) \<and> vpa \<noteq> [] \<and> fe_instrument_id e = sha256_hex vpa"
    and "case co of None \<Rightarrow> fe_case_id e = fe_payment_id e \<and> attempt_number e = 1 \<and> n \<in> {None, Some 1}
         | Some c \<Rightarrow> fe_case_id e = case_id c \<and> n = Some (attempt_number e)"
    and "\<exists>ns. fe_notes e = Some ns \<and>
      fe_mandate_id e = (case dict_get ns ''mandate_id'' of Some (PStr m) \<Rightarrow> Some m | _ \<Rightarrow> None)"
proof -
  obtain payment pid vpa raw mandate cid where p: "payment_entity payload = Inr payment" "py_get payment ''method'' PNone = Inr (PStr ''upi'')"
    "py_get payment ''currency'' PNone = Inr (PStr ''INR'')" "py_item payment ''id'' = Inr (PStr pid)"
    and am: "positive_amount payment = Inr (fe_amount e)"
    and vpa: "py_get payment ''vpa'' PNone = Inr vpa" "truthy vpa" "instrument_of_vpa vpa = Inr (fe_instrument_id e)"
    and m: "py_get (py_or raw (PDict [])) ''mandate_id'' PNone = Inr mandate" "opt_text_field mandate = Inr (fe_mandate_id e)"
    and r: "resolve_attempt co n = Inr (cid, attempt_number e)"
    and ns: "notes_field (py_or raw (PDict [])) = Inr (the (fe_notes e))" "fe_notes e \<noteq> None"
    and ids: "fe_payment_id e = pid" "fe_case_id e = (case cid of None \<Rightarrow> pid | Some k \<Rightarrow> k)"
    and ok: "decline_class e = Unclassified" "failure_event_ok e"
    by (rule parse_payment_failed_E [OF assms])
  obtain d where d: "payment = PDict d" using p(2) by (auto simp: py_get_Inr)
  have "\<exists>am. dict_get d ''amount'' = Some am \<and> py_int am = Inr (fe_amount e)"
    using am by (auto simp: d positive_amount_def bindR_eq_Inr)
  moreover have "\<exists>s. dict_get d ''vpa'' = Some (PStr s) \<and> s \<noteq> [] \<and> fe_instrument_id e = sha256_hex s"
    using vpa by (auto simp: d split: option.splits)
  moreover have "dict_get d ''method'' = Some (PStr ''upi'')" "dict_get d ''currency'' = Some (PStr ''INR'')"
    "dict_get d ''id'' = Some (PStr pid)"
    using p(2-4) by (auto simp: d split: option.splits)
  ultimately show "\<exists>d vpa am. payment_entity payload = Inr (PDict d)
      \<and> dict_get d ''method'' = Some (PStr ''upi'') \<and> dict_get d ''currency'' = Some (PStr ''INR'')
      \<and> dict_get d ''id'' = Some (PStr (fe_payment_id e))
      \<and> dict_get d ''amount'' = Some am \<and> py_int am = Inr (fe_amount e)
      \<and> dict_get d ''vpa'' = Some (PStr vpa) \<and> vpa \<noteq> [] \<and> fe_instrument_id e = sha256_hex vpa"
    using p(1) ids(1) d by blast
  show "case co of None \<Rightarrow> fe_case_id e = fe_payment_id e \<and> attempt_number e = 1 \<and> n \<in> {None, Some 1}
         | Some c \<Rightarrow> fe_case_id e = case_id c \<and> n = Some (attempt_number e)"
    using r ids by (auto simp: resolve_attempt_Inr split: option.splits)
  show "\<exists>ns. fe_notes e = Some ns \<and>
      fe_mandate_id e = (case dict_get ns ''mandate_id'' of Some (PStr m) \<Rightarrow> Some m | _ \<Rightarrow> None)"
    using m ns by (cases "dict_get (the (fe_notes e)) ''mandate_id''"; cases "fe_mandate_id e") auto
  show "failure_event_ok e" "decline_class e = Unclassified" by (rule ok)+
qed


text \<open>
  The payload that \<^verbatim>\<open>simulate_failure\<close> builds from its request (\<open>created\<close> is the second it reads from the
  system clock); the parser reads it back.
\<close>

definition simulated_payload ::
  "string \<Rightarrow> int \<Rightarrow> string \<Rightarrow> string \<Rightarrow> string option \<Rightarrow> (string, pyval) dict option \<Rightarrow> int \<Rightarrow> pyval" where
  "simulated_payload pid amount vpa code reason ns created =
     PDict [(''entity'', PStr ''event''), (''event'', PStr ''payment.failed''),
       (''payload'', PDict [(''payment'', PDict [(''entity'', PDict
         [(''id'', PStr pid), (''amount'', PInt amount), (''currency'', PStr ''INR''), (''method'', PStr ''upi''),
          (''vpa'', PStr vpa), (''error_code'', PStr code),
          (''error_reason'', case reason of None \<Rightarrow> PNone | Some r \<Rightarrow> PStr r),
          (''error_source'', PStr ''issuer''), (''error_step'', PStr ''payment_authorization''),
          (''created_at'', PInt created),
          (''notes'', PDict (case ns of None \<Rightarrow> [] | Some d \<Rightarrow> d))])])])]"

lemma simulated_payload_entity:
  "payment_entity (simulated_payload pid amount vpa code reason ns created) = Inr (PDict
         [(''id'', PStr pid), (''amount'', PInt amount), (''currency'', PStr ''INR''), (''method'', PStr ''upi''),
          (''vpa'', PStr vpa), (''error_code'', PStr code),
          (''error_reason'', case reason of None \<Rightarrow> PNone | Some r \<Rightarrow> PStr r),
          (''error_source'', PStr ''issuer''), (''error_step'', PStr ''payment_authorization''),
          (''created_at'', PInt created),
          (''notes'', PDict (case ns of None \<Rightarrow> [] | Some d \<Rightarrow> d))])"
  by (simp add: simulated_payload_def payment_entity_def)

lemma opt_text_field_of [simp]: "opt_text_field (case r of None \<Rightarrow> PNone | Some s \<Rightarrow> PStr s) = Inr r"
  by (cases r) simp_all

text \<open>
  C29. Round trip of the simulation endpoint: the payload it builds is read back by the parser as the
  first failure of a new case, for every request with a payment id, an address, a positive amount and
  notes whose mandate is absent, null or a string, at every second of the calendar.
\<close>

theorem simulated_payload_roundtrip:
  assumes "pid \<noteq> []" and "vpa \<noteq> []" and "0 < amount"
    and "case dict_get ns ''mandate_id'' of Some v \<Rightarrow> v = PNone \<or> (\<exists>m. v = PStr m) | None \<Rightarrow> True"
    and "0 \<le> created" and "created \<le> 253402300799"
  shows "parse_payment_failed (simulated_payload pid amount vpa code reason (Some ns) created) None None =
    Inr \<lparr>fe_case_id = pid, fe_payment_id = pid, attempt_number = 1, reason_code = Some code,
         decline_class = Unclassified, fe_amount = amount, received_at = created * usec_per_second,
         fe_mandate_id = (case dict_get ns ''mandate_id'' of Some (PStr m) \<Rightarrow> Some m | _ \<Rightarrow> None),
         fe_instrument_id = sha256_hex vpa, error_reason = reason, error_source = Some ''issuer'',
         error_step = Some ''payment_authorization'', fe_notes = Some ns\<rparr>"
proof -
  have stamp: "fromtimestamp created = Inr (created * usec_per_second)"
    using assms(5,6) by (simp add: fromtimestamp_def)
  have ns: "py_or (PDict ns) (PDict []) = PDict ns" by (simp add: py_or_def)
  have mandate: "opt_text_field (case dict_get ns ''mandate_id'' of None \<Rightarrow> PNone | Some v \<Rightarrow> v) =
      Inr (case dict_get ns ''mandate_id'' of Some (PStr m) \<Rightarrow> Some m | _ \<Rightarrow> None)"
    using assms(4) by (auto split: option.splits)
  show ?thesis
    using assms(1-3)
    by (simp add: parse_payment_failed_def simulated_payload_entity positive_amount_def timestamp_of_def stamp
        resolve_attempt_def Let_def ns mandate PaymentFailureEvent_def)
qed

theorem simulated_payload_roundtrip_witness:
  "\<exists>e. parse_payment_failed (simulated_payload ''p2'' 50000 ''a@upi'' ''X'' None (Some [(''mandate_id'', PStr ''m1'')]) 7) None None = Inr e
     \<and> fe_mandate_id e = Some ''m1'' \<and> fe_case_id e = ''p2'' \<and> attempt_number e = 1"
  using simulated_payload_roundtrip [of "''p2''" "''a@upi''" 50000 "[(''mandate_id'', PStr ''m1'')]" 7 "''X''" None]
  by simp


end
