(* ===== verification/Service.thy ===== *)
theory Service
  imports Webhook State_Machine Case_Store Commit_Backend Guards Bandit
begin

text \<open>
  The web service of \<^verbatim>\<open>app/main.py\<close>.  The module's globals are a record: the in-memory case store, the set
  of the in-memory commit backend, the etcd cluster, the distress detector, the bandit and the clock.  A
  handler takes the settings, the readings of the wall clock during the request (\<open>w k\<close> is the \<open>k\<close>-th one)
  and the state, and returns the state it leaves, also when it raises, and the response or the exception.
  \<^verbatim>\<open>get_case\<close> hands out the stored object itself, so a handler that changes a case changes the store at
  once: \<open>mutate\<close>.
\<close>

section \<open>Settings and state\<close>

text \<open>
  What the process reads from its environment, and the two libraries it talks to: the etcd client's
  transaction and prefix scan, and the JSON parser on request bodies and on decoded etcd values.
\<close>

record 'c settings =
  config :: app_config
  webhook_secret :: string
  admin_token :: string
  use_etcd :: bool
  etcd_transaction :: "'c \<Rightarrow> string \<Rightarrow> string \<Rightarrow> 'c \<times> bool result"
  etcd_get_prefix :: "'c \<Rightarrow> string \<Rightarrow> string list result"
  body_loads :: "byte list \<Rightarrow> pyval result"
  json_loads :: "string \<Rightarrow> pyval result"

record 'c service =
  store :: case_store
  committed :: "attempt_key list"
  cluster :: 'c
  distress :: distress_detector
  bandit :: slot_bandit
  clk :: clock

definition boot :: "'c settings \<Rightarrow> 'c \<Rightarrow> 'c service result" where
  "boot cfg cl =
     bindR (wire_clock (config cfg)) (\<lambda>c.
       Inr \<lparr>store = InMemoryCaseStore, committed = [], cluster = cl,
            distress = DistressDetector (hours 24) 3,
            bandit = RetrySlotBandit [''immediate'', ''24h'', ''72h''] (1 / 10), clk = c\<rparr>)"

text \<open>The bodies of the responses that report a change.\<close>

datatype response =
    Case_status string case_state
  | Recorded string case_state string
  | Duplicate string string
  | Released "string list"
  | New_now string
  | Distress_report string int bool
  | Quiet

section \<open>Steps of a handler\<close>

type_synonym ('c, 'a) outcome = "'c service \<times> 'a result"

fun andthen :: "('c, 'a) outcome \<Rightarrow> ('c service \<Rightarrow> 'a \<Rightarrow> ('c, 'b) outcome) \<Rightarrow> ('c, 'b) outcome" where
  "andthen (s, Inl e) f = (s, Inl e)"
| "andthen (s, Inr x) f = f s x"

text \<open>An \<^verbatim>\<open>except\<close> clause that turns the exceptions of a class into an \<^verbatim>\<open>HTTPException\<close>.\<close>

definition raise_as :: "(py_error \<Rightarrow> bool) \<Rightarrow> int \<Rightarrow> 'a result \<Rightarrow> 'a result" where
  "raise_as P status r = (case r of Inl e \<Rightarrow> Inl (if P e then HTTPException status else e) | Inr x \<Rightarrow> Inr x)"

definition is_value_error :: "py_error \<Rightarrow> bool" where
  "is_value_error e \<longleftrightarrow> e \<in> {ValueError, JSONDecodeError}"

definition is_key_or_value_error :: "py_error \<Rightarrow> bool" where
  "is_key_or_value_error e \<longleftrightarrow> e = KeyError \<or> is_value_error e"

definition is_store_error :: "py_error \<Rightarrow> bool" where
  "is_store_error e \<longleftrightarrow>
     e \<in> {CaseNotFoundError, CaseAlreadyExistsError, FailureAlreadyRecordedError, DecisionAlreadyRecordedError}"

definition with_store :: "(case_store \<Rightarrow> case_store result) \<Rightarrow> 'c service \<Rightarrow> ('c, unit) outcome" where
  "with_store f s = (case f (store s) of Inl e \<Rightarrow> (s, Inl e) | Inr st \<Rightarrow> (s\<lparr>store := st\<rparr>, Inr ()))"

definition append_entries :: "audit_entry list \<Rightarrow> 'c service \<Rightarrow> 'c service" where
  "append_entries es s = s\<lparr>store := append_all es (store s)\<rparr>"

definition mutate :: "recovery_case \<Rightarrow> 'c service \<Rightarrow> 'c service" where
  "mutate c s = s\<lparr>store := (store s)\<lparr>cases := dict_set (case_id c) c (cases (store s))\<rparr>\<rparr>"

text \<open>A changed stored case, written back with the entries of the call.\<close>

definition write_back :: "recovery_case \<Rightarrow> audit_entry list \<Rightarrow> 'c service \<Rightarrow> ('c, unit) outcome" where
  "write_back c es s =
     andthen (with_store (update_case c) (mutate c s)) (\<lambda>s _. (append_entries es s, Inr ()))"

definition record_optional :: "retry_decision option \<Rightarrow> 'c service \<Rightarrow> ('c, unit) outcome" where
  "record_optional decision s =
     (case decision of None \<Rightarrow> (s, Inr ()) | Some d \<Rightarrow> with_store (record_retry_decision d) s)"

text \<open>A dictionary lookup with a dynamic key: lists and dictionaries are not hashable.\<close>

fun lookup_key :: "pyval \<Rightarrow> (string \<Rightarrow> 'a option) \<Rightarrow> 'a option result" where
  "lookup_key (PStr k) f = Inr (f k)"
| "lookup_key (PList _) f = Inl TypeError"
| "lookup_key (PDict _) f = Inl TypeError"
| "lookup_key _ f = Inr None"

definition case_of_mandate :: "pyval \<Rightarrow> 'c service \<Rightarrow> recovery_case option result" where
  "case_of_mandate mandate s =
     (if truthy mandate then lookup_key mandate (\<lambda>m. find_case_by_mandate m (store s)) else Inr None)"

section \<open>Authentication\<close>

definition require_admin_token :: "'c settings \<Rightarrow> string \<Rightarrow> unit result" where
  "require_admin_token cfg authorization =
     (if config_profile (config cfg) = Prod \<and>
         (admin_token cfg = [] \<or> authorization \<noteq> ''Bearer '' @ admin_token cfg)
      then Inl (HTTPException 401) else Inr ())"

definition demo_only :: "'c settings \<Rightarrow> ('c, 'a) outcome \<Rightarrow> 'c service \<Rightarrow> ('c, 'a) outcome" where
  "demo_only cfg out s = (if config_profile (config cfg) \<noteq> Demo then (s, Inl (HTTPException 403)) else out)"

text \<open>The signature check and the parsed body of a webhook.\<close>

definition signed_body :: "'c settings \<Rightarrow> byte list \<Rightarrow> string option \<Rightarrow> pyval result" where
  "signed_body cfg raw_body signature =
     bindR (verify_webhook_signature raw_body signature (webhook_secret cfg)) (\<lambda>ok.
     if \<not> ok then Inl (HTTPException 401)
     else raise_as (\<lambda>e. e = JSONDecodeError) 400 (body_loads cfg raw_body))"

text \<open>\<^verbatim>\<open>payload.get("payload", {}).get("payment", {}).get("entity", {})\<close>.\<close>

definition get_entity :: "pyval \<Rightarrow> pyval result" where
  "get_entity payload =
     bindR (py_get payload ''payload'' (PDict [])) (\<lambda>p.
     bindR (py_get p ''payment'' (PDict [])) (\<lambda>q. py_get q ''entity'' (PDict [])))"

definition get_mandate :: "pyval \<Rightarrow> pyval result" where
  "get_mandate payload =
     bindR (get_entity payload) (\<lambda>e.
     bindR (py_get e ''notes'' PNone) (\<lambda>ns. py_get (py_or ns (PDict [])) ''mandate_id'' PNone))"

section \<open>Failures\<close>

text \<open>
  The common body of \<^verbatim>\<open>webhook_payment_failed\<close> and \<^verbatim>\<open>simulate_failure\<close>: parse, run the state machine, write
  the case, the failure, the entries and the decision, and tell the distress detector of a new case.
\<close>

definition persist_failure ::
  "'c settings \<Rightarrow> (nat \<Rightarrow> datetime) \<Rightarrow> recovery_case option \<Rightarrow> recovery_case \<Rightarrow> failure_event
   \<Rightarrow> audit_entry list \<Rightarrow> retry_decision option \<Rightarrow> 'c service \<Rightarrow> ('c, unit) outcome" where
  "persist_failure cfg w existing updated event entries decision s =
     andthen (case existing of
                None \<Rightarrow> with_store (create_case updated) s
              | Some _ \<Rightarrow> with_store (update_case updated) (mutate updated s)) (\<lambda>s _.
     andthen (with_store (record_failure event) s) (\<lambda>s _.
       record_optional decision (append_entries entries s)))"

definition process_failure ::
  "'c settings \<Rightarrow> (nat \<Rightarrow> datetime) \<Rightarrow> pyval \<Rightarrow> recovery_case option \<Rightarrow> 'c service
   \<Rightarrow> ('c, recovery_case \<times> failure_event) outcome" where
  "process_failure cfg w payload existing s =
     (case raise_as is_key_or_value_error 400
             (parse_payment_failed payload existing
                (case existing of None \<Rightarrow> None | Some c \<Rightarrow> Some (get_max_attempt_number (case_id c) (store s) + 1))) of
        Inl e \<Rightarrow> (s, Inl e)
      | Inr event \<Rightarrow>
          (case raise_as is_value_error 409 (handle_payment_failed existing event (config cfg) (clk s) (w 0)) of
             Inl e \<Rightarrow> (s, Inl e)
           | Inr (updated, event, entries, decision) \<Rightarrow>
               (case persist_failure cfg w existing updated event entries decision s of
                  (s, Inl e) \<Rightarrow> (s, raise_as is_store_error 409 (Inl e))
                | (s, Inr _) \<Rightarrow>
                    (if existing = None
                     then s\<lparr>distress := record_failure_at (distress s) (instrument_id updated) (clock_now (clk s) (w 1))\<rparr>
                     else s,
                     Inr (updated, event)))))"

definition webhook_payment_failed ::
  "'c settings \<Rightarrow> (nat \<Rightarrow> datetime) \<Rightarrow> byte list \<Rightarrow> string option \<Rightarrow> 'c service \<Rightarrow> ('c, response) outcome" where
  "webhook_payment_failed cfg w raw_body signature s =
     (case bindR (signed_body cfg raw_body signature) (\<lambda>payload.
           bindR (get_entity payload) (\<lambda>entity.
           bindR (py_get entity ''id'' PNone) (\<lambda>payment_id.
           if \<not> truthy payment_id then Inl (HTTPException 400)
           else bindR (lookup_key payment_id (\<lambda>p. find_attempt_by_payment_id p (store s))) (\<lambda>attempt.
           case attempt of
             Some (cid, _) \<Rightarrow> bindR (text_field payment_id) (\<lambda>pid. Inr (Inl (Duplicate cid pid)))
           | None \<Rightarrow>
               bindR (get_mandate payload) (\<lambda>mandate.
               bindR (case_of_mandate mandate s) (\<lambda>existing. Inr (Inr (payload, existing)))))))) of
        Inl e \<Rightarrow> (s, Inl e)
      | Inr (Inl answer) \<Rightarrow> (s, Inr answer)
      | Inr (Inr (payload, existing)) \<Rightarrow>
          andthen (process_failure cfg w payload existing s) (\<lambda>s (updated, event).
            (s, Inr (Recorded (case_id updated) (state updated) (fe_payment_id event)))))"

text \<open>
  \<^verbatim>\<open>simulate_failure\<close>: the fields of the validated request; the first reading of the wall clock is the
  payload's \<^verbatim>\<open>created_at\<close>, in whole seconds.
\<close>

definition simulate_failure ::
  "'c settings \<Rightarrow> (nat \<Rightarrow> datetime) \<Rightarrow> string \<Rightarrow> int \<Rightarrow> string \<Rightarrow> string \<Rightarrow> string option
   \<Rightarrow> (string, pyval) dict option \<Rightarrow> 'c service \<Rightarrow> ('c, response) outcome" where
  "simulate_failure cfg w pid amount vpa code reason ns s =
     demo_only cfg
       (let payload = simulated_payload pid amount vpa code reason ns (w 0 div usec_per_second);
            mandate = (case dict_get (case ns of None \<Rightarrow> [] | Some d \<Rightarrow> d) ''mandate_id'' of None \<Rightarrow> PNone | Some v \<Rightarrow> v)
        in case case_of_mandate mandate s of
             Inl e \<Rightarrow> (s, Inl e)
           | Inr existing \<Rightarrow>
               andthen (process_failure cfg (\<lambda>k. w (k + 1)) payload existing s) (\<lambda>s (updated, event).
                 (s, Inr (Case_status (case_id updated) (state updated))))) s"

section \<open>Successes\<close>

definition webhook_payment_succeeded ::
  "'c settings \<Rightarrow> (nat \<Rightarrow> datetime) \<Rightarrow> byte list \<Rightarrow> string option \<Rightarrow> 'c service \<Rightarrow> ('c, response) outcome" where
  "webhook_payment_succeeded cfg w raw_body signature s =
     (case bindR (signed_body cfg raw_body signature) (\<lambda>payload.
           bindR (get_mandate payload) (\<lambda>mandate.
           if \<not> truthy mandate then Inl (HTTPException 400)
           else bindR (case_of_mandate mandate s) (\<lambda>found.
           case found of
             None \<Rightarrow> Inl (HTTPException 404)
           | Some c \<Rightarrow>
               bindR (raise_as is_key_or_value_error 400 (parse_payment_captured payload c)) (\<lambda>event.
                 Inr (c, event))))) of
        Inl e \<Rightarrow> (s, Inl e)
      | Inr (c, event) \<Rightarrow>
          (case handle_payment_success c event (clk s) (w 0) of
             (updated, entries, _) \<Rightarrow>
               (case write_back updated entries s of
                  (s, Inl e) \<Rightarrow> (s, raise_as is_store_error 409 (Inl e))
                | (s, Inr _) \<Rightarrow> (s, Inr (Case_status (case_id updated) (state updated))))))"

definition simulate_success ::
  "'c settings \<Rightarrow> (nat \<Rightarrow> datetime) \<Rightarrow> string \<Rightarrow> int \<Rightarrow> (string, pyval) dict option \<Rightarrow> 'c service
   \<Rightarrow> ('c, response) outcome" where
  "simulate_success cfg w pid amount ns s =
     demo_only cfg
       (let mandate = (case dict_get (case ns of None \<Rightarrow> [] | Some d \<Rightarrow> d) ''mandate_id'' of None \<Rightarrow> PNone | Some v \<Rightarrow> v)
        in if \<not> truthy mandate then (s, Inl (HTTPException 400))
           else case case_of_mandate mandate s of
             Inl e \<Rightarrow> (s, Inl e)
           | Inr None \<Rightarrow> (s, Inl (HTTPException 404))
           | Inr (Some c) \<Rightarrow>
               (case PaymentSuccessEvent
                       \<lparr>se_case_id = case_id c, se_payment_id = pid, se_amount = amount,
                        captured_at = clock_now (clk s) (w 0), matched_attempt_number = None\<rparr> of
                  Inl e \<Rightarrow> (s, Inl e)
                | Inr event \<Rightarrow>
                    (case handle_payment_success c event (clk s) (w 1) of
                       (updated, entries, _) \<Rightarrow>
                         andthen (write_back updated entries s) (\<lambda>s _.
                           (s, Inr (Case_status (case_id updated) (state updated))))))) s"

end
