(* ===== verification/Admin.thy ===== *)
theory Admin
  imports Service
begin

text \<open>
  The remaining endpoints of \<^verbatim>\<open>app/main.py\<close> that change the state: notices, executions and their
  reconciliation with the commit log, throttles, escalations, the distress signal and the clock.
\<close>

section \<open>Effects\<close>

text \<open>The state named by a committed effect; other values cannot be stored in the model.\<close>

fun state_of_value :: "pyval \<Rightarrow> case_state result" where
  "state_of_value (PStr n) = of_option Unmodelled (find (\<lambda>st. state_name st = n) enum_class.enum)"
| "state_of_value _ = Inl Unmodelled"

definition effect_entry :: "recovery_case \<Rightarrow> datetime \<Rightarrow> audit_entry" where
  "effect_entry c now = sm_audit (case_id c) RETRY_SCHEDULED RETRY_EXECUTED ''commit_effect_applied'' 1 now Agent"

definition apply_effect ::
  "datetime \<Rightarrow> recovery_case \<Rightarrow> pyval \<Rightarrow> 'c service \<Rightarrow> ('c, recovery_case) outcome" where
  "apply_effect wall c effect s =
     (case py_get effect ''to_state'' PNone of
        Inl e \<Rightarrow> (s, Inl e)
      | Inr v \<Rightarrow>
          if v = PStr (state_name (state c)) then (s, Inr c)
          else case bindR (py_item effect ''to_state'') state_of_value of
            Inl e \<Rightarrow> (s, Inl e)
          | Inr st \<Rightarrow>
              (let c = c\<lparr>state := st\<rparr>
               in andthen (write_back c [effect_entry c (clock_now (clk s) wall)] s) (\<lambda>s _. (s, Inr c))))"

text \<open>\<^verbatim>\<open>except Exception\<close> around a loop: the changes made so far stay.\<close>

definition swallow :: "'a \<Rightarrow> ('c, 'a) outcome \<Rightarrow> ('c, 'a) outcome" where
  "swallow x out = (case out of (s, Inl e) \<Rightarrow> (s, if e = Unmodelled then Inl e else Inr x) | (s, Inr y) \<Rightarrow> (s, Inr y))"

fun reconcile_values ::
  "'c settings \<Rightarrow> (nat \<Rightarrow> datetime) \<Rightarrow> string \<Rightarrow> string list \<Rightarrow> 'c service \<Rightarrow> ('c, unit) outcome" where
  "reconcile_values cfg w cid [] s = (s, Inr ())"
| "reconcile_values cfg w cid (v # vs) s =
     (case json_loads cfg v of
        Inl e \<Rightarrow> (s, Inl e)
      | Inr effect \<Rightarrow>
          (case get_case cid (store s) of
             Inl e \<Rightarrow> (s, Inl e)
           | Inr c \<Rightarrow> andthen (apply_effect (w 0) c effect s) (\<lambda>s _. reconcile_values cfg (\<lambda>k. w (k + 1)) cid vs s)))"

definition reconcile_case ::
  "'c settings \<Rightarrow> (nat \<Rightarrow> datetime) \<Rightarrow> string \<Rightarrow> 'c service \<Rightarrow> ('c, unit) outcome" where
  "reconcile_case cfg w cid s =
     (if \<not> use_etcd cfg then (s, Inr ())
      else swallow () (case etcd_get_prefix cfg (cluster s) (commit_prefix @ cid @ ''/'') of
                         Inl e \<Rightarrow> (s, Inl e)
                       | Inr vs \<Rightarrow> reconcile_values cfg w cid vs s))"

text \<open>\<^verbatim>\<open>reconcile_all\<close>: an effect whose case is missing is skipped; any other exception ends the scan.\<close>

fun reconcile_scan ::
  "'c settings \<Rightarrow> (nat \<Rightarrow> datetime) \<Rightarrow> int \<Rightarrow> string list \<Rightarrow> 'c service \<Rightarrow> ('c, int) outcome" where
  "reconcile_scan cfg w healed [] s = (s, Inr healed)"
| "reconcile_scan cfg w healed (v # vs) s =
     (case bindR (json_loads cfg v) (\<lambda>effect. bindR (py_item effect ''case_id'') (\<lambda>cid. Inr (effect, cid))) of
        Inl e \<Rightarrow> swallow healed (s, Inl e)
      | Inr (effect, cid) \<Rightarrow>
          (case (case cid of PStr k \<Rightarrow> get_case k (store s) | _ \<Rightarrow> Inl CaseNotFoundError) of
             Inl _ \<Rightarrow> reconcile_scan cfg w healed vs s
           | Inr c \<Rightarrow>
               (case py_item effect ''to_state'' of
                  Inl e \<Rightarrow> (s, Inr healed)
                | Inr v \<Rightarrow>
                    if v = PStr (state_name (state c)) then reconcile_scan cfg w healed vs s
                    else (case apply_effect (w 0) c effect s of
                            (s, Inl e) \<Rightarrow> swallow healed (s, Inl e)
                          | (s, Inr _) \<Rightarrow> reconcile_scan cfg (\<lambda>k. w (k + 1)) (healed + 1) vs s))))"

definition reconcile_all ::
  "'c settings \<Rightarrow> (nat \<Rightarrow> datetime) \<Rightarrow> 'c service \<Rightarrow> ('c, int) outcome" where
  "reconcile_all cfg w s =
     (if \<not> use_etcd cfg then (s, Inr 0)
      else case etcd_get_prefix cfg (cluster s) commit_prefix of
             Inl e \<Rightarrow> swallow 0 (s, Inl e)
           | Inr vs \<Rightarrow> reconcile_scan cfg w 0 vs s)"

section \<open>Notices and executions\<close>

definition send_notice ::
  "'c settings \<Rightarrow> (nat \<Rightarrow> datetime) \<Rightarrow> rat \<times> nat \<Rightarrow> string \<Rightarrow> 'c service \<Rightarrow> ('c, response) outcome" where
  "send_notice cfg w draw cid s =
     demo_only cfg
       (if is_dnd_hour (clock_now (clk s) (w 0)) then (s, Inl (HTTPException 409))
        else case get_case cid (store s) of
          Inl e \<Rightarrow> (s, Inl e)
        | Inr c \<Rightarrow>
            if state c \<noteq> NOTICE_PENDING then (s, Inl (HTTPException 409))
            else (case mark_notice_sent c (config cfg) (clk s) (w 1) (w 2) None None (Some (suggest_from (bandit s) draw)) of
                    (c, Inl e) \<Rightarrow> (mutate c s, raise_as is_value_error 409 (Inl e))
                  | (c, Inr (entries, decision)) \<Rightarrow>
                      andthen (write_back c entries s) (\<lambda>s _.
                      andthen (record_optional (Some decision) s) (\<lambda>s _.
                        (s, Inr (Case_status (case_id c) (state c))))))) s"

text \<open>The JSON text of an effect and its value.\<close>

definition effect_text :: "string \<Rightarrow> int \<Rightarrow> datetime \<Rightarrow> string" where
  "effect_text cid attempt t =
     ''{'' @ json_key ''case_id'' @ json_str cid @ '', '' @ json_key ''attempt'' @ py_str_int attempt
     @ '', '' @ json_key ''to_state'' @ json_str ''RETRY_EXECUTED'' @ '', '' @ json_key ''at'' @ json_str (isoformat t) @ ''}''"

definition effect_value :: "string \<Rightarrow> int \<Rightarrow> datetime \<Rightarrow> pyval" where
  "effect_value cid attempt t =
     PDict [(''case_id'', PStr cid), (''attempt'', PInt attempt), (''to_state'', PStr ''RETRY_EXECUTED''),
            (''at'', PStr (isoformat t))]"

definition commit_effect ::
  "'c settings \<Rightarrow> datetime \<Rightarrow> string \<Rightarrow> int \<Rightarrow> datetime \<Rightarrow> 'c service \<Rightarrow> ('c, bool) outcome" where
  "commit_effect cfg wall cid attempt t s =
     (if use_etcd cfg
      then (case etcd_commit_effect (etcd_transaction cfg) (cluster s) cid attempt (effect_text cid attempt t) of
              (cl, r) \<Rightarrow> (s\<lparr>cluster := cl\<rparr>, r))
      else (case mem_commit_effect (committed s) cid attempt (effect_text cid attempt t) wall of
              (ks, r) \<Rightarrow> (s\<lparr>committed := ks\<rparr>, r)))"

definition distress_entry :: "recovery_case \<Rightarrow> datetime \<Rightarrow> audit_entry" where
  "distress_entry c now = sm_audit (case_id c) RETRY_SCHEDULED ESCALATED ''distress_signal'' 1 now Agent"

text \<open>The execution of a decision that is due.\<close>

definition execute_decision ::
  "'c settings \<Rightarrow> (nat \<Rightarrow> datetime) \<Rightarrow> string \<Rightarrow> recovery_case \<Rightarrow> retry_decision \<Rightarrow> 'c service
   \<Rightarrow> ('c, response) outcome" where
  "execute_decision cfg w cid c decision s =
     (let at_time = clock_now (clk s) (w 2);
          attempt = rd_attempt_number decision
      in andthen (commit_effect cfg (w 3) cid attempt at_time s) (\<lambda>s won.
         if \<not> won
         then andthen (reconcile_case cfg (\<lambda>k. w (k + 4)) cid s) (\<lambda>s _. (s, Inl (HTTPException 409)))
         else andthen (apply_effect (w 4) c (effect_value cid attempt at_time) s) (\<lambda>s c.
              andthen (with_store (update_retry_decision decision) s) (\<lambda>s _.
                (s, Inr (Case_status (case_id c) (state c)))))))"

definition execute_retry ::
  "'c settings \<Rightarrow> (nat \<Rightarrow> datetime) \<Rightarrow> string \<Rightarrow> 'c service \<Rightarrow> ('c, response) outcome" where
  "execute_retry cfg w cid s =
     demo_only cfg
       (case get_case cid (store s) of
          Inl e \<Rightarrow> (s, Inl e)
        | Inr c \<Rightarrow>
            if state c \<noteq> RETRY_SCHEDULED then (s, Inl (HTTPException 409))
            else if is_distressed (distress s) (instrument_id c) (clock_now (clk s) (w 0))
            then (let c = c\<lparr>state := ESCALATED\<rparr>
                  in andthen (write_back c [distress_entry c (clock_now (clk s) (w 1))] s) (\<lambda>s _.
                       (s, Inl (HTTPException 409))))
            else (case filter (\<lambda>d. rd_case_id d = cid) (get_pending_retries (store s)) of
                    [] \<Rightarrow> (s, Inl (HTTPException 409))
                  | decision # _ \<Rightarrow>
                      if clock_now (clk s) (w 1) < rd_scheduled_at decision then (s, Inl (HTTPException 409))
                      else execute_decision cfg w cid c decision s)) s"

section \<open>Throttles\<close>

text \<open>The loop over the listed cases; the readings shift with every release.\<close>

fun release_loop ::
  "(nat \<Rightarrow> datetime) \<Rightarrow> recovery_case list \<Rightarrow> string list \<Rightarrow> 'c service \<Rightarrow> ('c, string list) outcome" where
  "release_loop w [] released s = (s, Inr released)"
| "release_loop w (c # cs) released s =
     (if state c \<noteq> THROTTLED then release_loop w cs released s
      else case release_throttle c (clk s) (w 0) of
             Inl e \<Rightarrow> (s, Inl e)
           | Inr (c, entries) \<Rightarrow>
               andthen (write_back c entries s) (\<lambda>s _.
                 release_loop (\<lambda>k. w (k + 1)) cs (released @ [case_id c]) s))"

definition release_throttles ::
  "'c settings \<Rightarrow> (nat \<Rightarrow> datetime) \<Rightarrow> 'c service \<Rightarrow> ('c, response) outcome" where
  "release_throttles cfg w s =
     demo_only cfg
       (andthen (release_loop w (Case_Store.list_cases (store s)) [] s) (\<lambda>s released. (s, Inr (Released released)))) s"

text \<open>One round of the background task, which swallows exceptions.\<close>

definition periodic_throttle_release :: "(nat \<Rightarrow> datetime) \<Rightarrow> 'c service \<Rightarrow> ('c, response) outcome" where
  "periodic_throttle_release w s =
     swallow Quiet (andthen (release_loop w (Case_Store.list_cases (store s)) [] s) (\<lambda>s _. (s, Inr Quiet)))"

section \<open>Escalations, distress, clock, start-up\<close>

definition human_entry :: "recovery_case \<Rightarrow> datetime \<Rightarrow> audit_entry" where
  "human_entry c now = sm_audit (case_id c) ESCALATED RESOLVED_BY_HUMAN ''human_resolution'' 1 now Human"

definition resolve_escalation ::
  "'c settings \<Rightarrow> (nat \<Rightarrow> datetime) \<Rightarrow> string \<Rightarrow> string \<Rightarrow> 'c service \<Rightarrow> ('c, response) outcome" where
  "resolve_escalation cfg w cid note s =
     demo_only cfg
       (case get_case cid (store s) of
          Inl e \<Rightarrow> (s, Inl e)
        | Inr c \<Rightarrow>
            if state c \<noteq> ESCALATED then (s, Inl (HTTPException 409))
            else if note \<notin> {''written_off'', ''recovered_manually''} then (s, Inl (HTTPException 400))
            else (let c = c\<lparr>state := RESOLVED_BY_HUMAN,
                            resolution_note := Some (if note = ''written_off'' then Written_off else Recovered_manually)\<rparr>
                  in andthen (write_back c [human_entry c (clock_now (clk s) (w 0))] s) (\<lambda>s _.
                       (s, Inr (Case_status (case_id c) (state c)))))) s"

definition admin_record_failure :: "(nat \<Rightarrow> datetime) \<Rightarrow> string \<Rightarrow> 'c service \<Rightarrow> ('c, response) outcome" where
  "admin_record_failure w instrument s =
     (let now = clock_now (clk s) (w 0);
          d = record_failure_at (distress s) instrument now
      in (s\<lparr>distress := d\<rparr>,
          Inr (Distress_report instrument (failure_count d instrument now) (is_distressed d instrument now))))"

text \<open>\<open>delta\<close> is the duration the three query parameters add up to.\<close>

definition advance_clock ::
  "'c settings \<Rightarrow> (nat \<Rightarrow> datetime) \<Rightarrow> timedelta \<Rightarrow> 'c service \<Rightarrow> ('c, response) outcome" where
  "advance_clock cfg w delta s =
     demo_only cfg
       (if delta \<le> 0 then (s, Inl (HTTPException 400))
        else case advance (clk s) delta of
               Inl e \<Rightarrow> (s, raise_as (\<lambda>e. e = RuntimeError) 409 (Inl e))
             | Inr c \<Rightarrow> (s\<lparr>clk := c\<rparr>, Inr (New_now (isoformat (clock_now c (w 0)))))) s"

definition startup_event ::
  "'c settings \<Rightarrow> (nat \<Rightarrow> datetime) \<Rightarrow> 'c service \<Rightarrow> ('c, response) outcome" where
  "startup_event cfg w s = andthen (reconcile_all cfg w s) (\<lambda>s _. (s, Inr Quiet))"

section \<open>Requests\<close>

text \<open>
  Every way the state changes: the two webhooks, the admin endpoints with the \<^verbatim>\<open>Authorization\<close> header they
  are called with, the background task and the start-up event.
\<close>

datatype request =
    Payment_failed "byte list" "string option"
  | Payment_succeeded "byte list" "string option"
  | Simulate_failure string string int string string "string option" "(string, pyval) dict option"
  | Simulate_success string string int "(string, pyval) dict option"
  | Send_notice string "rat \<times> nat" string
  | Execute_retry string string
  | Advance_clock string timedelta
  | Release_throttles string
  | Resolve_escalation string string string
  | Record_distress string string
  | Periodic_release
  | Startup

definition guarded ::
  "'c settings \<Rightarrow> string \<Rightarrow> 'c service \<Rightarrow> ('c, response) outcome \<Rightarrow> ('c, response) outcome" where
  "guarded cfg authorization s out =
     (case require_admin_token cfg authorization of Inl e \<Rightarrow> (s, Inl e) | Inr _ \<Rightarrow> out)"

fun serve ::
  "'c settings \<Rightarrow> (nat \<Rightarrow> datetime) \<Rightarrow> request \<Rightarrow> 'c service \<Rightarrow> ('c, response) outcome" where
  "serve cfg w (Payment_failed raw sig) s = webhook_payment_failed cfg w raw sig s"
| "serve cfg w (Payment_succeeded raw sig) s = webhook_payment_succeeded cfg w raw sig s"
| "serve cfg w (Simulate_failure auth pid amount vpa code reason ns) s =
     guarded cfg auth s (simulate_failure cfg w pid amount vpa code reason ns s)"
| "serve cfg w (Simulate_success auth pid amount ns) s = guarded cfg auth s (simulate_success cfg w pid amount ns s)"
| "serve cfg w (Send_notice auth draw cid) s = guarded cfg auth s (send_notice cfg w draw cid s)"
| "serve cfg w (Execute_retry auth cid) s = guarded cfg auth s (execute_retry cfg w cid s)"
| "serve cfg w (Advance_clock auth delta) s = guarded cfg auth s (advance_clock cfg w delta s)"
| "serve cfg w (Release_throttles auth) s = guarded cfg auth s (release_throttles cfg w s)"
| "serve cfg w (Resolve_escalation auth cid note) s = guarded cfg auth s (resolve_escalation cfg w cid note s)"
| "serve cfg w (Record_distress auth instrument) s = guarded cfg auth s (admin_record_failure w instrument s)"
| "serve cfg w Periodic_release s = periodic_throttle_release w s"
| "serve cfg w Startup s = startup_event cfg w s"

end
