(* ===== verification/Service_Runs.thy ===== *)
theory Service_Runs
  imports Admin Store_Runs FSM_Runs
begin

text \<open>
  Runs of the service: any sequence of requests, authorised or not, valid or not, after start-up.  What a
  request does to the store is broken down into a few kinds of writes (\<open>tx\<close>); the lemmas here are that
  every request is a sequence of them and that every one of them is an operation the store's invariant
  is proved for.
\<close>

section \<open>Writes\<close>

text \<open>How a request moves a stored case.\<close>

inductive case_move :: "'c settings \<Rightarrow> clock \<Rightarrow> recovery_case \<Rightarrow> recovery_case \<Rightarrow> bool"
  for cfg :: "'c settings" and ck :: clock where
  failure: "handle_existing_failure c ev (config cfg) ck wall = (c', ev', es, d) \<Longrightarrow> case_move cfg ck c c'"
| success: "handle_payment_success c sev ck wall = (c', es, d) \<Longrightarrow> case_move cfg ck c c'"
| notice: "chooser_ok pick \<Longrightarrow>
     mark_notice_sent c (config cfg) ck wall wall' rcode prev pick = (c', r) \<Longrightarrow> case_move cfg ck c c'"
| released: "release_throttle c ck wall = Inr (c', es) \<Longrightarrow> case_move cfg ck c c'"
| escalated: "state c = RETRY_SCHEDULED \<Longrightarrow> case_move cfg ck c (c\<lparr>state := ESCALATED\<rparr>)"
| resolved: "state c = ESCALATED \<Longrightarrow>
     case_move cfg ck c (c\<lparr>state := RESOLVED_BY_HUMAN, resolution_note := Some n\<rparr>)"
| applied: "use_etcd cfg \<Longrightarrow> case_move cfg ck c (c\<lparr>state := st\<rparr>)"

inductive_cases case_moveE: "case_move cfg ck c c'"

inductive tx :: "'c settings \<Rightarrow> clock \<Rightarrow> case_store \<Rightarrow> case_store \<Rightarrow> bool"
  for cfg :: "'c settings" and ck :: clock where
  opened: "handle_new_failure ev (config cfg) ck wall = Inr (c, ev', es, d) \<Longrightarrow> create_case c st = Inr st' \<Longrightarrow>
     tx cfg ck st st'"
| moved: "get_case k st = Inr c \<Longrightarrow> case_move cfg ck c c' \<Longrightarrow> update_case c' st = Inr st' \<Longrightarrow> tx cfg ck st st'"
| failed: "failure_event_ok e \<Longrightarrow> get_case (fe_case_id e) st = Inr c \<Longrightarrow> record_failure e st = Inr st' \<Longrightarrow>
     tx cfg ck st st'"
| decided: "record_retry_decision d st = Inr st' \<Longrightarrow> tx cfg ck st st'"
| redecided: "dict_get (decisions st) (decision_key d) = Some d \<Longrightarrow> update_retry_decision d st = Inr st' \<Longrightarrow>
     tx cfg ck st st'"
| audited: "sequence_id e = None \<Longrightarrow> tx cfg ck st (append_audit e st)"

text \<open>What a move leaves alone.\<close>

definition same_keys :: "recovery_case \<Rightarrow> recovery_case \<Rightarrow> bool" where
  "same_keys c c' \<longleftrightarrow>
     case_id c' = case_id c \<and> mandate_id c' = mandate_id c \<and> instrument_id c' = instrument_id c
     \<and> original_amount c' = original_amount c \<and> opened_at c' = opened_at c \<and> bucket c' = bucket c
     \<and> retries_used c \<le> retries_used c'"

lemma same_keysD:
  assumes "same_keys c c'"
  shows "case_id c' = case_id c" and "mandate_id c' = mandate_id c" and "bucket c' = bucket c"
    and "recovery_case_ok c \<Longrightarrow> recovery_case_ok c'"
  using assms by (auto simp: same_keys_def recovery_case_ok_def)

lemma fsm_step_same_keys: "fsm_step cfg ck c es c' \<Longrightarrow> same_keys c c'"
  using step_identity [of cfg ck c es c'] step_counted [of cfg ck c es c']
  by (auto simp: same_keys_def same_identity_def counted_def)

lemma notice_step:
  "chooser_ok pick \<Longrightarrow> mark_notice_sent c cfg ck wall wall' rcode prev pick = (c', r) \<Longrightarrow> \<exists>es. fsm_step cfg ck c es c'"
  by (cases r) (auto intro: fsm_step.notice fsm_step.notice_failed)

lemma case_move_same_keys: "case_move cfg ck c c' \<Longrightarrow> same_keys c c'"
proof (erule case_moveE)
  fix pick wall wall' rcode prev r
  assume "chooser_ok pick" "mark_notice_sent c (config cfg) ck wall wall' rcode prev pick = (c', r)"
  then show ?thesis using notice_step fsm_step_same_keys by blast
next
  show "same_keys c c'" if "c' = c\<lparr>state := ESCALATED\<rparr>" using that by (simp add: same_keys_def)
  show "same_keys c c'" if "c' = c\<lparr>state := RESOLVED_BY_HUMAN, resolution_note := Some n\<rparr>" for n
    using that by (simp add: same_keys_def)
  show "same_keys c c'" if "c' = c\<lparr>state := st\<rparr>" for st using that by (simp add: same_keys_def)
qed (blast intro: fsm_step_same_keys fsm_step.intros)+

lemma handle_new_failure_ok: "handle_new_failure ev cfg ck wall = Inr (c, ev', es, d) \<Longrightarrow> recovery_case_ok c"
  using new_failure_opened by (simp add: opened_ok_def)

section \<open>Writes keep the store's invariant\<close>

lemma store_okD:
  assumes "store_ok st"
  shows "get_case k st = Inr c \<Longrightarrow> case_id c = k" and "get_case k st = Inr c \<Longrightarrow> recovery_case_ok c"
    and "get_case k st = Inr c \<Longrightarrow> dict_get (mandate_index st) (mandate_id c) = Some k"
  using assms cases_okD(2,3,4) by (auto simp: store_ok_def get_case_def)

lemma tx_store_step:
  assumes "tx cfg ck st st'" and "store_ok st"
  shows "store_step st st'"
  using assms(1)
proof cases
  case (opened ev wall c ev' es d)
  with handle_new_failure_ok show ?thesis by (blast intro: store_step.created)
next
  case (moved k c c')
  note keys = same_keysD [OF case_move_same_keys [OF moved(2)]]
  have "case_id c' = k" using store_okD(1) [OF assms(2) moved(1)] keys(1) by simp
  with moved(1) have "get_case (case_id c') st = Inr c" by simp
  with moved(3) keys(2,4) store_okD(2) [OF assms(2) moved(1)] show ?thesis
    by (blast intro: store_step.updated)
qed (blast intro: store_step.intros)+

lemma tx_ok: "tx cfg ck st st' \<Longrightarrow> store_ok st \<Longrightarrow> store_ok st'"
  using tx_store_step store_step_ok by blast

lemma txs_ok: "(tx cfg ck)\<^sup>*\<^sup>* st st' \<Longrightarrow> store_ok st \<Longrightarrow> store_ok st'"
  by (induction rule: rtranclp_induct) (auto intro: tx_ok)

lemma txs_store_steps: "(tx cfg ck)\<^sup>*\<^sup>* st st' \<Longrightarrow> store_ok st \<Longrightarrow> store_step\<^sup>*\<^sup>* st st'"
proof (induction rule: rtranclp_induct)
  case (step st1 st2)
  then show ?case using txs_ok tx_store_step by (meson rtranclp.rtrancl_into_rtrancl)
qed simp

lemma reachable_steps: "store_step\<^sup>*\<^sup>* st st' \<Longrightarrow> reachable st \<Longrightarrow> reachable st'"
  by (induction rule: rtranclp_induct) (auto intro: reachable.later)

section \<open>The steps of a handler\<close>

definition unsealed :: "audit_entry list \<Rightarrow> bool" where
  "unsealed es \<longleftrightarrow> (\<forall>e \<in> set es. sequence_id e = None)"

lemma unsealed_simps [simp]: "unsealed []" "unsealed (e # es) \<longleftrightarrow> sequence_id e = None \<and> unsealed es"
  by (auto simp: unsealed_def)

lemma append_all_txs: "unsealed es \<Longrightarrow> (tx cfg ck)\<^sup>*\<^sup>* st (append_all es st)"
proof (induction es arbitrary: st)
  case Nil
  then show ?case by (simp add: append_all_def)
next
  case (Cons e es)
  then have "tx cfg ck st (append_audit e st)" "(tx cfg ck)\<^sup>*\<^sup>* (append_audit e st) (append_all es (append_audit e st))"
    by (simp_all add: tx.audited)
  then show ?case by (simp add: append_all_def converse_rtranclp_into_rtranclp)
qed

lemma append_all_cases [simp]: "cases (append_all es st) = cases st"
  by (induction es arbitrary: st) (simp_all add: append_all_def)

lemma get_case_append_all [simp]: "get_case k (append_all es st) = get_case k st"
  by (simp add: get_case_def)

text \<open>The write of a changed stored case: it always succeeds, and the in-place change was the whole of it.\<close>

lemma update_stored:
  assumes "store_ok st" and "get_case (case_id c) st = Inr c0" and "mandate_id c = mandate_id c0"
  shows "update_case c st = Inr (st\<lparr>cases := dict_set (case_id c) c (cases st)\<rparr>)"
proof -
  have "dict_get (mandate_index st) (mandate_id c) = Some (case_id c)"
    using store_okD(3) [OF assms(1,2)] assms(3) by simp
  then have "index_mandate c (st\<lparr>cases := dict_set (case_id c) c (cases st)\<rparr>) = st\<lparr>cases := dict_set (case_id c) c (cases st)\<rparr>"
    by (simp add: index_mandate_def update_triv)
  with assms(2) show ?thesis by (simp add: update_case_def get_case_def)
qed

lemma write_back_stored:
  assumes "store_ok (store s)" and "get_case (case_id c) (store s) = Inr c0" and "same_keys c0 c"
  shows "write_back c es s = (append_entries es (mutate c s), Inr ())"
    and "update_case c (store s) = Inr (store (mutate c s))"
proof -
  note m = same_keysD(2) [OF assms(3)]
  note u = update_stored [OF assms(1,2) m]
  then show "update_case c (store s) = Inr (store (mutate c s))" by (simp add: mutate_def)
  have "dict_get (mandate_index (store s)) (mandate_id c) = Some (case_id c)"
    using store_okD(3) [OF assms(1,2)] m by simp
  then have "update_case c (store (mutate c s)) = Inr (store (mutate c s))"
    by (simp add: update_case_def mutate_def index_mandate_def update_triv update_last)
  then show "write_back c es s = (append_entries es (mutate c s), Inr ())"
    by (simp add: write_back_def with_store_def)
qed

lemma write_back_txs:
  assumes "store_ok (store s)" and "get_case (case_id c) (store s) = Inr c0" and "case_move cfg ck c0 c" and "unsealed es"
  shows "write_back c es s = (append_entries es (mutate c s), Inr ())"
    and "(tx cfg ck)\<^sup>*\<^sup>* (store s) (store (append_entries es (mutate c s)))"
proof -
  note keys = case_move_same_keys [OF assms(3)]
  show "write_back c es s = (append_entries es (mutate c s), Inr ())"
    by (rule write_back_stored(1) [OF assms(1,2) keys])
  have "tx cfg ck (store s) (store (mutate c s))"
    using tx.moved [OF assms(2,3) write_back_stored(2) [OF assms(1,2) keys]] .
  moreover have "(tx cfg ck)\<^sup>*\<^sup>* (store (mutate c s)) (store (append_entries es (mutate c s)))"
    using append_all_txs [OF assms(4)] by (simp add: append_entries_def)
  ultimately show "(tx cfg ck)\<^sup>*\<^sup>* (store s) (store (append_entries es (mutate c s)))" by (rule converse_rtranclp_into_rtranclp)
qed

section \<open>Every request is a sequence of writes\<close>

definition writes :: "'c settings \<Rightarrow> 'c service \<Rightarrow> 'c service \<Rightarrow> bool" where
  "writes cfg s s' \<longleftrightarrow> (tx cfg (clk s))\<^sup>*\<^sup>* (store s) (store s') \<and> clk s' = clk s \<and> bandit s' = bandit s"

lemma writes_refl [simp]: "writes cfg s s"
  by (simp add: writes_def)

lemma writes_trans: "writes cfg s s1 \<Longrightarrow> writes cfg s1 s2 \<Longrightarrow> writes cfg s s2"
  by (auto simp: writes_def)

lemma writes_store: "(tx cfg (clk s))\<^sup>*\<^sup>* (store s) st \<Longrightarrow> writes cfg s (s\<lparr>store := st\<rparr>)"
  by (simp add: writes_def)

lemma writes_other [simp]:
  "writes cfg s (s'\<lparr>distress := d\<rparr>) = writes cfg s s'" "writes cfg s (s'\<lparr>committed := ks\<rparr>) = writes cfg s s'"
  "writes cfg s (s'\<lparr>cluster := cl\<rparr>) = writes cfg s s'"
  by (simp_all add: writes_def)

lemma writes_ok: "writes cfg s s' \<Longrightarrow> store_ok (store s) \<Longrightarrow> store_ok (store s')"
  by (auto simp: writes_def intro: txs_ok)

lemma append_entries_sel [simp]:
  "clk (append_entries es s) = clk s" "bandit (append_entries es s) = bandit s"
  "distress (append_entries es s) = distress s" "committed (append_entries es s) = committed s"
  "cluster (append_entries es s) = cluster s" "store (append_entries es s) = append_all es (store s)"
  by (simp_all add: append_entries_def)

lemma mutate_sel [simp]:
  "clk (mutate c s) = clk s" "bandit (mutate c s) = bandit s"
  "distress (mutate c s) = distress s" "committed (mutate c s) = committed s" "cluster (mutate c s) = cluster s"
  "get_case k (store (mutate c s)) = (if k = case_id c then Inr c else get_case k (store s))"
  by (simp_all add: mutate_def get_case_def)

lemma append_entries_writes: "unsealed es \<Longrightarrow> writes cfg s (append_entries es s)"
  using append_all_txs [of es cfg "clk s" "store s"] by (simp add: writes_def)

lemma write_back_writes:
  assumes "store_ok (store s)" and "get_case (case_id c) (store s) = Inr c0" and "case_move cfg (clk s) c0 c" and "unsealed es"
  shows "write_back c es s = (append_entries es (mutate c s), Inr ()) \<and> writes cfg s (append_entries es (mutate c s))"
  using write_back_txs [OF assms(1-4)] by (simp add: writes_def)

lemma mutate_writes:
  assumes "store_ok (store s)" and "get_case (case_id c) (store s) = Inr c0" and "case_move cfg (clk s) c0 c"
  shows "writes cfg s (mutate c s)"
  using write_back_txs(2) [OF assms, of "[]"] by (simp add: writes_def append_all_def)

lemma with_store_writes:
  assumes "with_store f s = (s', r)" and "\<And>st. f (store s) = Inr st \<Longrightarrow> tx cfg (clk s) (store s) st"
  shows "writes cfg s s'"
  using assms by (auto simp: with_store_def writes_def split: sum.splits)

lemma record_optional_writes: "record_optional d s = (s', r) \<Longrightarrow> writes cfg s s'"
  by (auto simp: record_optional_def intro: with_store_writes tx.decided split: option.splits)

lemma andthen_writes:
  assumes "andthen out f = (s', r)" and "writes cfg s (fst out)"
    and "\<And>s1 x. out = (s1, Inr x) \<Longrightarrow> writes cfg s s1 \<Longrightarrow> writes cfg s1 (fst (f s1 x))"
  shows "writes cfg s s'"
proof -
  obtain s1 r1 where out: "out = (s1, r1)" by (cases out)
  show ?thesis
  proof (cases r1)
    case (Inl e)
    with assms out show ?thesis by simp
  next
    case (Inr x)
    with assms out have "writes cfg s s1" "writes cfg s1 s'" by auto
    then show ?thesis by (rule writes_trans)
  qed
qed

section \<open>Failures\<close>

lemma handle_payment_failed_facts:
  assumes "handle_payment_failed co ev cfg ck wall = Inr (c, ev', es, d)"
  shows "\<exists>k. ev' = ev\<lparr>decline_class := k\<rparr>" and "unsealed es" and "d = None"
    and "co = None \<Longrightarrow> case_id c = fe_case_id ev"
proof -
  show "\<exists>k. ev' = ev\<lparr>decline_class := k\<rparr>"
  proof (cases co)
    case None
    with assms show ?thesis
      by (auto simp: handle_payment_failed_def handle_new_failure_def Let_def bindR_eq_Inr split: if_splits)
  next
    case (Some c0)
    have event: "fst (snd (handle_existing_failure c0 ev cfg ck wall)) = ev
        \<or> fst (snd (handle_existing_failure c0 ev cfg ck wall))
          = ev\<lparr>decline_class := fst (classify_failure cfg (reason_code ev) (error_reason ev))\<rparr>"
      by (simp add: handle_existing_failure_def Let_def)
    have same: "fst (snd (handle_existing_failure c0 ev cfg ck wall)) = ev'"
      using assms Some by (simp add: handle_payment_failed_def)
    note event [unfolded same]
    moreover have "ev = ev\<lparr>decline_class := decline_class ev\<rparr>" by simp
    ultimately show ?thesis by blast
  qed
  have "unsealed es \<and> d = None"
  proof (cases co)
    case None
    then have h: "handle_new_failure ev cfg ck wall = Inr (c, ev', es, d)" using assms by (simp add: handle_payment_failed_def)
    have "unsealed es"
      using handle_new_failure_cases [OF h] by (auto simp: opened_control_def opened_treatment_def)
    moreover have "d = None"
      using h by (auto simp: handle_new_failure_def Let_def bindR_eq_Inr split: if_splits)
    ultimately show ?thesis ..
  next
    case (Some c0)
    have "case handle_existing_failure c0 ev cfg ck wall of (c, ev', es, d) \<Rightarrow> unsealed es \<and> d = None"
      by (simp add: handle_existing_failure_def Let_def)
    with assms Some show ?thesis by (simp add: handle_payment_failed_def)
  qed
  then show "unsealed es" "d = None" by simp_all
  show "case_id c = fe_case_id ev" if "co = None"
    using assms that
    by (auto simp: handle_payment_failed_def handle_new_failure_def Let_def bindR_eq_Inr RecoveryCase_def assign_bucket_def
        split: if_splits)
qed

definition stored_in :: "'c service \<Rightarrow> recovery_case option \<Rightarrow> bool" where
  "stored_in s existing \<longleftrightarrow> (\<forall>c. existing = Some c \<longrightarrow> get_case (case_id c) (store s) = Inr c)"

lemma find_case_stored: "store_ok st \<Longrightarrow> find_case_by_mandate m st = Some c \<Longrightarrow> get_case (case_id c) st = Inr c"
  using store_okD(1)
  by (fastforce simp: find_case_by_mandate_def find_indexed_def get_case_def split: option.splits if_splits)

lemma case_of_mandate_stored: "store_ok (store s) \<Longrightarrow> case_of_mandate v s = Inr existing \<Longrightarrow> stored_in s existing"
  by (cases v) (auto simp: case_of_mandate_def stored_in_def intro: find_case_stored split: if_splits)

lemma persist_failure_writes:
  assumes ok: "store_ok (store s)" and stored: "stored_in s existing" and ev: "failure_event_ok ev"
    and cid: "case existing of None \<Rightarrow> True | Some c0 \<Rightarrow> fe_case_id ev = case_id c0"
    and h: "handle_payment_failed existing ev (config cfg) (clk s) wall = Inr (c, ev', es, d)"
    and p: "persist_failure cfg w existing c ev' es d s = (s', r)"
  shows "writes cfg s s'"
proof -
  note facts = handle_payment_failed_facts [OF h]
  from facts(1) obtain k where ev': "ev' = ev\<lparr>decline_class := k\<rparr>" by blast
  with ev have ev'_ok: "failure_event_ok ev'" by (simp add: failure_event_ok_def)
  let ?first = "case existing of None \<Rightarrow> with_store (create_case c) s
      | Some _ \<Rightarrow> with_store (update_case c) (mutate c s)"
  have first: "writes cfg s (fst ?first) \<and> (\<forall>s1 u. ?first = (s1, Inr u) \<longrightarrow> get_case (fe_case_id ev') (store s1) = Inr c)"
  proof (cases existing)
    case None
    with h have new: "handle_new_failure ev (config cfg) (clk s) wall = Inr (c, ev', es, d)"
      by (simp add: handle_payment_failed_def)
    show ?thesis
    proof (cases "create_case c (store s)")
      case (Inl e)
      with None show ?thesis by (simp add: with_store_def)
    next
      case (Inr st)
      with new have "tx cfg (clk s) (store s) st" by (rule tx.opened)
      moreover have "get_case (case_id c) st = Inr c"
        using create_case_Inr(3) [OF Inr] by (simp add: get_case_def)
      ultimately show ?thesis
        using None Inr facts(4) ev' writes_store [of cfg s st, OF r_into_rtranclp] by (simp add: with_store_def)
    qed
  next
    case (Some c0)
    then have get: "get_case (case_id c0) (store s) = Inr c0" using stored by (simp add: stored_in_def)
    have move: "case_move cfg (clk s) c0 c"
      using h Some by (auto simp: handle_payment_failed_def intro: case_move.failure)
    have id: "case_id c = case_id c0" using same_keysD(1) [OF case_move_same_keys [OF move]] .
    with get have "get_case (case_id c) (store s) = Inr c0" by simp
    from write_back_writes [OF ok this move, of "[]"]
    have "with_store (update_case c) (mutate c s) = (mutate c s, Inr ())" "writes cfg s (mutate c s)"
      by (auto simp: write_back_def append_entries_def append_all_def with_store_def split: sum.splits)
    with Some cid ev' id show ?thesis by simp
  qed
  show ?thesis
  proof (rule andthen_writes [OF p [unfolded persist_failure_def]])
    show "writes cfg s (fst ?first)" using first by simp
  next
    fix s1 u assume "?first = (s1, Inr u)" "writes cfg s s1"
    with first have get: "get_case (fe_case_id ev') (store s1) = Inr c" by blast
    obtain s2 r2 where rec: "andthen (with_store (record_failure ev') s1)
        (\<lambda>s _. record_optional d (append_entries es s)) = (s2, r2)" by fastforce
    have "writes cfg s1 s2"
    proof (rule andthen_writes [OF rec])
      show "writes cfg s1 (fst (with_store (record_failure ev') s1))"
        using with_store_writes [where f = "record_failure ev'" and s = s1] tx.failed [OF ev'_ok get]
        by (metis prod.collapse)
    next
      fix s3 u assume "writes cfg s1 s3"
      have "writes cfg s3 (append_entries es s3)" using facts(2) by (rule append_entries_writes)
      moreover obtain s4 r4 where "record_optional d (append_entries es s3) = (s4, r4)" by fastforce
      ultimately show "writes cfg s3 (fst (record_optional d (append_entries es s3)))"
        using record_optional_writes writes_trans by (metis fst_conv)
    qed
    with rec show "writes cfg s1 (fst (andthen (with_store (record_failure ev') s1)
        (\<lambda>s _. record_optional d (append_entries es s))))" by simp
  qed
qed

lemma raise_as_Inr [simp]: "raise_as P n r = Inr x \<longleftrightarrow> r = Inr x"
  by (cases r) (simp_all add: raise_as_def)

lemma process_failure_writes:
  assumes "store_ok (store s)" and "stored_in s existing" and "process_failure cfg w payload existing s = (s', r)"
  shows "writes cfg s s'"
proof -
  let ?n = "case existing of None \<Rightarrow> None | Some c \<Rightarrow> Some (get_max_attempt_number (case_id c) (store s) + 1)"
  show ?thesis
  proof (cases "parse_payment_failed payload existing ?n")
    case (Inl e)
    with assms(3) show ?thesis by (auto simp: process_failure_def raise_as_def)
  next
    case (Inr ev)
    note ev = parse_payment_failed_fields(1,4) [OF Inr]
    show ?thesis
    proof (cases "handle_payment_failed existing ev (config cfg) (clk s) (w 0)")
      case (Inl e)
      with assms(3) Inr show ?thesis by (auto simp: process_failure_def raise_as_def)
    next
      case h: (Inr q)
      obtain c ev' es d where q: "q = (c, ev', es, d)" by (cases q)
      obtain s1 r1 where p: "persist_failure cfg w existing c ev' es d s = (s1, r1)" by fastforce
      have "writes cfg s s1"
        by (rule persist_failure_writes [OF assms(1,2) ev(1) _ h [unfolded q] p])
           (use ev(2) in \<open>simp split: option.splits\<close>)
      with assms(3) Inr h q p show ?thesis
        by (cases r1) (auto simp: process_failure_def raise_as_def split: if_splits)
    qed
  qed
qed

end
