(* ===== verification/Service_Writes.thy ===== *)
theory Service_Writes
  imports Service_Runs
begin

text \<open>
  Every request, one handler after the other, is a sequence of the writes of the service.
\<close>

section \<open>Successes\<close>

lemma success_unsealed: "handle_payment_success c sev ck wall = (c', es, d) \<Longrightarrow> unsealed es"
  by (auto simp: handle_payment_success_def Let_def split: if_splits)

text \<open>A stored case moved by a handler and written back.\<close>

lemma moved_writes:
  assumes "store_ok (store s)" and "get_case k (store s) = Inr c" and "case_move cfg (clk s) c c'" and "unsealed es"
  shows "write_back c' es s = (append_entries es (mutate c' s), Inr ())"
    and "writes cfg s (append_entries es (mutate c' s))" and "writes cfg s (mutate c' s)"
proof -
  have "case_id c' = k"
    using same_keysD(1) [OF case_move_same_keys [OF assms(3)]] store_okD(1) [OF assms(1,2)] by simp
  with assms(2) have "get_case (case_id c') (store s) = Inr c" by simp
  note get = assms(1) this assms(3)
  from write_back_writes [OF get assms(4)] mutate_writes [OF get]
  show "write_back c' es s = (append_entries es (mutate c' s), Inr ())"
    "writes cfg s (append_entries es (mutate c' s))" "writes cfg s (mutate c' s)" by simp_all
qed

lemma success_writes:
  assumes "store_ok (store s)" and "get_case k (store s) = Inr c" and "handle_payment_success c sev (clk s) wall = (c', es, d)"
  shows "write_back c' es s = (append_entries es (mutate c' s), Inr ()) \<and> writes cfg s (append_entries es (mutate c' s))"
  using moved_writes(1,2) [OF assms(1,2) case_move.success [OF assms(3)] success_unsealed [OF assms(3)]] by blast

lemma webhook_succeeded_writes:
  assumes "store_ok (store s)" and "webhook_payment_succeeded cfg w raw sig s = (s', r)"
  shows "writes cfg s s'"
proof -
  let ?m = "bindR (signed_body cfg raw sig) (\<lambda>payload.
           bindR (get_mandate payload) (\<lambda>mandate.
           if \<not> truthy mandate then Inl (HTTPException 400)
           else bindR (case_of_mandate mandate s) (\<lambda>found.
           case found of
             None \<Rightarrow> Inl (HTTPException 404)
           | Some c \<Rightarrow>
               bindR (raise_as is_key_or_value_error 400 (parse_payment_captured payload c)) (\<lambda>event.
                 Inr (c, event)))))"
  show ?thesis
  proof (cases ?m)
    case (Inl e)
    with assms(2) show ?thesis by (simp add: webhook_payment_succeeded_def)
  next
    case (Inr p)
    obtain c ev where p: "p = (c, ev)" by (cases p)
    with Inr obtain v where "case_of_mandate v s = Inr (Some c)"
      by (auto simp: bindR_eq_Inr split: if_splits option.splits)
    with case_of_mandate_stored [OF assms(1)] have get: "get_case (case_id c) (store s) = Inr c"
      by (fastforce simp: stored_in_def)
    obtain c' es d where h: "handle_payment_success c ev (clk s) (w 0) = (c', es, d)" by (metis prod_cases3)
    from success_writes [OF assms(1) get h] assms(2) show ?thesis
      unfolding webhook_payment_succeeded_def Inr p by (auto simp: h)
  qed
qed

lemma simulate_success_writes:
  assumes "store_ok (store s)" and "simulate_success cfg w pid amount ns s = (s', r)"
  shows "writes cfg s s'"
proof -
  let ?v = "case dict_get (case ns of None \<Rightarrow> [] | Some d \<Rightarrow> d) ''mandate_id'' of None \<Rightarrow> PNone | Some v \<Rightarrow> v"
  show ?thesis
  proof (cases "\<exists>c. case_of_mandate ?v s = Inr (Some c)")
    case False
    with assms(2) show ?thesis
      by (auto simp: simulate_success_def demo_only_def Let_def split: if_splits sum.splits option.splits)
  next
    case True
    then obtain c where c: "case_of_mandate ?v s = Inr (Some c)" by blast
    with case_of_mandate_stored [OF assms(1)] have get: "get_case (case_id c) (store s) = Inr c"
      by (fastforce simp: stored_in_def)
    have "writes cfg s (append_entries es (mutate c' s)) \<and> write_back c' es s = (append_entries es (mutate c' s), Inr ())"
      if "handle_payment_success c ev (clk s) (w 1) = (c', es, d)" for ev c' es d
      using success_writes [OF assms(1) get that] by blast
    with assms(2) c show ?thesis
      by (auto simp: simulate_success_def demo_only_def Let_def split: if_splits sum.splits prod.splits)
  qed
qed

section \<open>Failures\<close>

lemma webhook_failed_writes:
  assumes "store_ok (store s)" and "webhook_payment_failed cfg w raw sig s = (s', r)"
  shows "writes cfg s s'"
proof -
  let ?m = "bindR (signed_body cfg raw sig) (\<lambda>payload.
           bindR (get_entity payload) (\<lambda>entity.
           bindR (py_get entity ''id'' PNone) (\<lambda>payment_id.
           if \<not> truthy payment_id then Inl (HTTPException 400)
           else bindR (lookup_key payment_id (\<lambda>p. find_attempt_by_payment_id p (store s))) (\<lambda>attempt.
           case attempt of
             Some (cid, _) \<Rightarrow> bindR (text_field payment_id) (\<lambda>pid. Inr (Inl (Duplicate cid pid)))
           | None \<Rightarrow>
               bindR (get_mandate payload) (\<lambda>mandate.
               bindR (case_of_mandate mandate s) (\<lambda>existing. Inr (Inr (payload, existing))))))))"
  note h = assms(2) [unfolded webhook_payment_failed_def]
  show ?thesis
  proof (cases ?m)
    case (Inl e)
    with h show ?thesis by simp
  next
    case m: (Inr x)
    show ?thesis
    proof (cases x)
      case (Inl a)
      with h m show ?thesis by simp
    next
      case (Inr y)
      obtain payload existing where y: "y = (payload, existing)" by (cases y)
      with m Inr obtain v where "case_of_mandate v s = Inr existing"
        by (auto simp: bindR_eq_Inr split: if_splits option.splits prod.splits)
      then have st: "stored_in s existing" by (rule case_of_mandate_stored [OF assms(1)])
      obtain s1 r1 where p: "process_failure cfg w payload existing s = (s1, r1)" by fastforce
      from h m Inr y p have "s1 = s'" by (cases r1) (auto split: prod.splits)
      with process_failure_writes [OF assms(1) st p] show ?thesis by simp
    qed
  qed
qed

lemma simulate_failure_writes:
  assumes "store_ok (store s)" and "simulate_failure cfg w pid amount vpa code reason ns s = (s', r)"
  shows "writes cfg s s'"
proof -
  let ?v = "case dict_get (case ns of None \<Rightarrow> [] | Some d \<Rightarrow> d) ''mandate_id'' of None \<Rightarrow> PNone | Some v \<Rightarrow> v"
  show ?thesis
  proof (cases "case_of_mandate ?v s")
    case (Inl e)
    with assms(2) show ?thesis by (auto simp: simulate_failure_def demo_only_def Let_def split: if_splits)
  next
    case (Inr existing)
    note st = case_of_mandate_stored [OF assms(1) Inr]
    obtain s1 r1 where p: "process_failure cfg (\<lambda>k. w (k + 1)) (simulated_payload pid amount vpa code reason ns
        (w 0 div usec_per_second)) existing s = (s1, r1)" by fastforce
    from assms(2) Inr p have "s' = s \<or> s1 = s'"
      by (cases r1) (auto simp: simulate_failure_def demo_only_def Let_def split: if_splits prod.splits)
    with process_failure_writes [OF assms(1) st p] show ?thesis by auto
  qed
qed

section \<open>Notices and executions\<close>

lemma chooser_ok_suggest: "chooser_ok (Some (suggest_from b draw))"
  unfolding chooser_ok_def using suggest_from_total suggest_from_in by blast

lemma send_notice_writes:
  assumes "store_ok (store s)" and "send_notice cfg w draw cid s = (s', r)"
  shows "writes cfg s s'"
proof (cases "get_case cid (store s)")
  case (Inl e)
  with assms(2) show ?thesis by (auto simp: send_notice_def demo_only_def split: if_splits)
next
  case (Inr c)
  obtain c' q where m: "mark_notice_sent c (config cfg) (clk s) (w 1) (w 2) None None (Some (suggest_from (bandit s) draw)) = (c', q)"
    by fastforce
  note move = case_move.notice [OF chooser_ok_suggest m]
  show ?thesis
  proof (cases q)
    case (Inl e)
    with moved_writes(3) [OF assms(1) Inr move, of "[]"] assms(2) Inr m show ?thesis
      by (auto simp: send_notice_def demo_only_def split: if_splits)
  next
    case q: (Inr p)
    obtain es d where p: "p = (es, d)" by (cases p)
    have "unsealed es" using mark_notice_sent_Inr [OF m [unfolded q p]] by simp
    note wb = moved_writes(1,2) [OF assms(1) Inr move this]
    have rest: "writes cfg s (fst (record_optional (Some d) (append_entries es (mutate c' s))))"
      using wb(2) record_optional_writes writes_trans by (metis prod.collapse)
    obtain s2 r2 where ro: "record_optional (Some d) (append_entries es (mutate c' s)) = (s2, r2)" by fastforce
    with rest have "writes cfg s s2" by simp
    with assms(2) Inr m q p wb(1) ro show ?thesis
      by (cases r2) (auto simp: send_notice_def demo_only_def split: if_splits)
  qed
qed

lemma apply_effect_writes:
  assumes "store_ok (store s)" and "get_case k (store s) = Inr c" and "use_etcd cfg"
    and "apply_effect wall c effect s = (s', r)"
  shows "writes cfg s s'"
proof -
  have u: "unsealed [effect_entry c' t]" for c' t by (simp add: effect_entry_def)
  note wb = moved_writes(1,2) [OF assms(1,2) case_move.applied [OF assms(3)] u]
  show ?thesis
    using assms(4) wb by (auto simp: apply_effect_def Let_def split: sum.splits if_splits)
qed

lemma swallow_fst [simp]: "fst (swallow x out) = fst out"
  by (cases out) (auto simp: swallow_def split: sum.splits)

lemma swallow_writes: "swallow x out = (s', r) \<Longrightarrow> writes cfg s (fst out) \<Longrightarrow> writes cfg s s'"
  by (metis fst_conv swallow_fst)

lemma reconcile_values_writes:
  assumes "store_ok (store s)" and "use_etcd cfg"
  shows "writes cfg s (fst (reconcile_values cfg w cid vs s))"
  using assms
proof (induction vs arbitrary: w s)
  case Nil
  then show ?case by simp
next
  case (Cons v vs)
  show ?case
  proof (cases "json_loads cfg v")
    case (Inl e)
    then show ?thesis by simp
  next
    case l: (Inr effect)
    show ?thesis
    proof (cases "get_case cid (store s)")
      case (Inl e)
      with l show ?thesis by simp
    next
      case (Inr c)
      obtain s1 r1 where a: "apply_effect (w 0) c effect s = (s1, r1)" by fastforce
      have 1: "writes cfg s s1" by (rule apply_effect_writes [OF Cons.prems(1) Inr Cons.prems(2) a])
      show ?thesis
      proof (cases r1)
        case (Inl e)
        with l Inr a 1 show ?thesis by simp
      next
        case r: (Inr x)
        have "writes cfg s1 (fst (reconcile_values cfg (\<lambda>k. w (k + 1)) cid vs s1))"
          by (rule Cons.IH [OF writes_ok [OF 1 Cons.prems(1)] Cons.prems(2)])
        with 1 l Inr a r show ?thesis using writes_trans by simp
      qed
    qed
  qed
qed

lemma reconcile_case_writes:
  "store_ok (store s) \<Longrightarrow> writes cfg s (fst (reconcile_case cfg w cid s))"
  by (auto simp: reconcile_case_def reconcile_values_writes split: sum.splits)

lemma reconcile_scan_writes:
  assumes "store_ok (store s)" and "use_etcd cfg"
  shows "writes cfg s (fst (reconcile_scan cfg w healed vs s))"
  using assms
proof (induction vs arbitrary: w s healed)
  case Nil
  then show ?case by simp
next
  case (Cons v vs)
  have skip: "writes cfg s (fst (reconcile_scan cfg w healed vs s))" by (rule Cons.IH [OF Cons.prems])
  let ?m = "bindR (json_loads cfg v) (\<lambda>effect. bindR (py_item effect ''case_id'') (\<lambda>cid. Inr (effect, cid)))"
  show ?case
  proof (cases ?m)
    case (Inl e)
    then show ?thesis by simp
  next
    case l: (Inr p)
    obtain effect cv where p: "p = (effect, cv)" by (cases p)
    show ?thesis
    proof (cases "case cv of PStr k \<Rightarrow> get_case k (store s) | _ \<Rightarrow> Inl CaseNotFoundError")
      case (Inl e)
      with l p skip show ?thesis by simp
    next
      case c: (Inr c)
      then obtain k where k: "get_case k (store s) = Inr c" by (auto split: pyval.splits)
      obtain s1 r1 where a: "apply_effect (w 0) c effect s = (s1, r1)" by fastforce
      have 1: "writes cfg s s1" by (rule apply_effect_writes [OF Cons.prems(1) k Cons.prems(2) a])
      have 2: "writes cfg s (fst (reconcile_scan cfg (\<lambda>k. w (k + 1)) (healed + 1) vs s1))"
        using 1 Cons.IH [OF writes_ok [OF 1 Cons.prems(1)] Cons.prems(2)] writes_trans by blast
      from l p c a 1 2 skip show ?thesis
        by (cases r1; cases "py_item effect ''to_state''") auto
    qed
  qed
qed

lemma reconcile_all_writes: "store_ok (store s) \<Longrightarrow> writes cfg s (fst (reconcile_all cfg w s))"
  by (auto simp: reconcile_all_def reconcile_scan_writes split: sum.splits)

text \<open>A pending decision is stored under its own key.\<close>

lemma pending_is_stored:
  assumes "store_ok st" and "filter P (get_pending_retries st) = d # ds"
  shows "dict_get (decisions st) (decision_key d) = Some d"
proof -
  have ok: "decisions_ok st" using assms(1) by (simp add: store_ok_def)
  have "d \<in> set (filter P (get_pending_retries st))" using assms(2) by simp
  then have "d \<in> set (dict_values (decisions st))" by (simp add: get_pending_retries_def)
  moreover have "dict_wf (decisions st)" using ok by (simp add: decisions_ok_def)
  ultimately have "\<exists>k. dict_get (decisions st) k = Some d" by (simp only: dict_values_get)
  then obtain k where k: "dict_get (decisions st) k = Some d" ..
  with ok have "k = decision_key d" unfolding decisions_ok_def by blast
  with k show ?thesis by simp
qed

text \<open>What applying an effect leaves alone.\<close>

lemma append_all_decisions [simp]: "decisions (append_all es st) = decisions st"
  by (induction es arbitrary: st) (simp_all add: append_all_def append_audit_def Let_def)

lemma write_back_frame:
  "write_back c es s = (s', r) \<Longrightarrow> cluster s' = cluster s \<and> decisions (store s') = decisions (store s)"
  by (auto simp: write_back_def with_store_def mutate_def update_case_def index_mandate_def append_entries_def
      split: if_splits)

lemma apply_effect_frame:
  "apply_effect wall c effect s = (s', r) \<Longrightarrow> cluster s' = cluster s \<and> decisions (store s') = decisions (store s)"
  by (auto simp: apply_effect_def Let_def dest!: write_back_frame elim!: andthen.elims split: sum.splits if_splits)

lemma commit_effect_frame:
  assumes "commit_effect cfg wall cid attempt t s = (s1, r)"
  shows "store s1 = store s" and "writes cfg s s1" and "r = Inr True \<Longrightarrow> use_etcd cfg"
proof -
  have mem: "snd (mem_commit_effect ks cid attempt body wall) \<noteq> Inr True" for ks body
    by (simp add: mem_commit_effect_def RetryDecision_def)
  show "store s1 = store s" "writes cfg s s1"
    using assms by (auto simp: commit_effect_def split: if_splits prod.splits)
  show "use_etcd cfg" if "r = Inr True"
    using assms that mem [of "committed s" "effect_text cid attempt t"]
    by (auto simp: commit_effect_def split: if_splits prod.splits)
qed

lemma execute_decision_writes:
  assumes "store_ok (store s)" and "get_case cid (store s) = Inr c"
    and "dict_get (decisions (store s)) (decision_key d) = Some d"
  shows "writes cfg s (fst (execute_decision cfg w cid c d s))"
proof -
  let ?t = "clock_now (clk s) (w 2)" and ?n = "rd_attempt_number d"
  obtain s1 r1 where c: "commit_effect cfg (w 3) cid ?n ?t s = (s1, r1)" by fastforce
  note f = commit_effect_frame [OF c]
  from assms(1,2) f(1) have ok1: "store_ok (store s1)" and get1: "get_case cid (store s1) = Inr c" by simp_all
  consider (err) e where "r1 = Inl e" | (lost) "r1 = Inr False" | (won) "r1 = Inr True" by (cases r1) auto
  then show ?thesis
  proof cases
    case err
    with c f(2) show ?thesis by (simp add: execute_decision_def Let_def)
  next
    case lost
    obtain s2 r2 where r: "reconcile_case cfg (\<lambda>k. w (k + 4)) cid s1 = (s2, r2)" by fastforce
    have "writes cfg s1 s2" using reconcile_case_writes [OF ok1, of cfg "\<lambda>k. w (k + 4)" cid] r by simp
    with lost c f(2) r show ?thesis
      by (cases r2) (auto simp: execute_decision_def Let_def intro: writes_trans)
  next
    case won
    obtain s2 r2 where a: "apply_effect (w 4) c (effect_value cid ?n ?t) s1 = (s2, r2)" by fastforce
    have 2: "writes cfg s s2"
      using apply_effect_writes [OF ok1 get1 f(3) [OF won] a] f(2) writes_trans by blast
    obtain s3 r3 where u: "with_store (update_retry_decision d) s2 = (s3, r3)" by fastforce
    have "dict_get (decisions (store s2)) (decision_key d) = Some d" using apply_effect_frame [OF a] f(1) assms(3) by simp
    then have "writes cfg s2 s3" by (rule with_store_writes [OF u tx.redecided])
    with 2 have ws3: "writes cfg s s3" by (rule writes_trans)
    from 2 ws3 won c a u show ?thesis
      by (cases r2; cases r3) (simp_all add: execute_decision_def Let_def)
  qed
qed

lemma execute_retry_writes:
  assumes "store_ok (store s)" and "execute_retry cfg w cid s = (s', r)"
  shows "writes cfg s s'"
proof (cases "get_case cid (store s)")
  case (Inl e)
  with assms(2) show ?thesis by (auto simp: execute_retry_def demo_only_def split: if_splits)
next
  case (Inr c)
  have u: "unsealed [distress_entry c' t]" for c' t by (simp add: distress_entry_def)
  have esc: "writes cfg s (append_entries [distress_entry c' t] (mutate (c\<lparr>state := ESCALATED\<rparr>) s))
      \<and> write_back (c\<lparr>state := ESCALATED\<rparr>) [distress_entry c' t] s
        = (append_entries [distress_entry c' t] (mutate (c\<lparr>state := ESCALATED\<rparr>) s), Inr ())"
    if "state c = RETRY_SCHEDULED" for c' t
    using moved_writes(1,2) [OF assms(1) Inr case_move.escalated [OF that] u] by blast
  have exe: "writes cfg s (fst (execute_decision cfg w cid c d s))"
    if "filter (\<lambda>d. rd_case_id d = cid) (get_pending_retries (store s)) = d # ds" for d ds
    by (rule execute_decision_writes [OF assms(1) Inr pending_is_stored [OF assms(1) that]])
  show ?thesis
    using assms(2) Inr esc exe
    by (auto simp: execute_retry_def demo_only_def Let_def split: if_splits list.splits)
qed

section \<open>Throttles, escalations, clock\<close>

lemma release_loop_writes:
  assumes "store_ok (store s)" and "\<forall>c \<in> set cs. get_case (case_id c) (store s) = Inr c" and "distinct (map case_id cs)"
  shows "writes cfg s (fst (release_loop w cs done_ids s))"
  using assms
proof (induction cs arbitrary: w s done_ids)
  case Nil
  then show ?case by simp
next
  case (Cons c cs)
  show ?case
  proof (cases "state c = THROTTLED")
    case False
    with Cons show ?thesis by simp
  next
    case True
    let ?c = "c\<lparr>state := RETRY_SCHEDULED\<rparr>"
    let ?e = "[agent_entry c THROTTLED RETRY_SCHEDULED ''throttle_released'' (clock_now (clk s) (w 0))]"
    have rel: "release_throttle c (clk s) (w 0) = Inr (?c, ?e)" using True by (simp add: release_throttle_def)
    have get: "get_case (case_id c) (store s) = Inr c" using Cons.prems(2) by simp
    have "unsealed ?e" by simp
    note wb = moved_writes(1,2) [OF Cons.prems(1) get case_move.released [OF rel] this]
    let ?s = "append_entries ?e (mutate ?c s)"
    have "\<forall>c' \<in> set cs. get_case (case_id c') (store ?s) = Inr c'"
    proof
      fix c' assume c': "c' \<in> set cs"
      have "case_id c' \<noteq> case_id c" using Cons.prems(3) c' by (metis distinct.simps(2) image_eqI list.set_map list.simps(9))
      moreover have "get_case (case_id c') (store s) = Inr c'" using Cons.prems(2) c' by simp
      ultimately show "get_case (case_id c') (store ?s) = Inr c'" by simp
    qed
    then have "writes cfg ?s (fst (release_loop (\<lambda>k. w (k + 1)) cs (done_ids @ [case_id c]) ?s))"
      using Cons.IH [OF writes_ok [OF wb(2) Cons.prems(1)]] Cons.prems(3) by simp
    with wb(2) have "writes cfg s (fst (release_loop (\<lambda>k. w (k + 1)) cs (done_ids @ [case_id c]) ?s))" by (rule writes_trans)
    with True rel wb(1) show ?thesis by simp
  qed
qed

lemma listed_cases:
  assumes "store_ok st"
  shows "\<forall>c \<in> set (Case_Store.list_cases st). get_case (case_id c) st = Inr c" and "distinct (map case_id (Case_Store.list_cases st))"
proof -
  have wf: "dict_wf (cases st)" and id: "\<And>k c. dict_get (cases st) k = Some c \<Longrightarrow> case_id c = k"
    using assms cases_okD(1,2) by (auto simp: store_ok_def)
  have pair: "case_id c = k \<and> dict_get (cases st) k = Some c" if "(k, c) \<in> set (cases st)" for k c
    using dict_wf_get [OF wf that] id by blast
  then show "\<forall>c \<in> set (Case_Store.list_cases st). get_case (case_id c) st = Inr c"
    by (auto simp: list_cases_def get_case_def)
  have "map case_id (Case_Store.list_cases st) = map fst (cases st)"
    using pair by (auto simp: list_cases_def)
  with wf show "distinct (map case_id (Case_Store.list_cases st))" by (simp add: dict_wf_def)
qed

lemma serve_writes:
  assumes "store_ok (store s)" and "serve cfg w req s = (s', r)"
  shows "(tx cfg (clk s))\<^sup>*\<^sup>* (store s) (store s') \<and> bandit s' = bandit s
     \<and> (clk s' = clk s \<or> (\<exists>delta. advance (clk s) delta = Inr (clk s')))"
proof -
  have w: ?thesis if "writes cfg s s'" using that by (simp add: writes_def)
  have g: "s' = s \<or> out = (s', r)" if "guarded cfg auth s out = (s', r)" for auth out
    using that by (auto simp: guarded_def split: sum.splits)
  note loop = release_loop_writes [OF assms(1) listed_cases [OF assms(1)]]
  show ?thesis
  proof (cases req)
    case (Payment_failed x1 x2)
    with assms webhook_failed_writes w show ?thesis by (metis serve.simps(1))
  next
    case (Payment_succeeded x1 x2)
    with assms webhook_succeeded_writes w show ?thesis by (metis serve.simps(2))
  next
    case (Simulate_failure x1 x2 x3 x4 x5 x6 x7)
    with assms g simulate_failure_writes w show ?thesis by (metis serve.simps(3) writes_refl)
  next
    case (Simulate_success x1 x2 x3 x4)
    with assms g simulate_success_writes w show ?thesis by (metis serve.simps(4) writes_refl)
  next
    case (Send_notice x1 x2 x3)
    with assms g send_notice_writes w show ?thesis by (metis serve.simps(5) writes_refl)
  next
    case (Execute_retry x1 x2)
    with assms g execute_retry_writes w show ?thesis by (metis serve.simps(6) writes_refl)
  next
    case (Advance_clock x1 x2)
    with assms(2) show ?thesis
      by (auto simp: guarded_def advance_clock_def demo_only_def split: sum.splits if_splits)
  next
    case (Release_throttles x1)
    obtain s1 r1 where l: "release_loop w (Case_Store.list_cases (store s)) [] s = (s1, r1)" by fastforce
    with loop [of cfg w "[]"] have "writes cfg s s1" by simp
    moreover have "s' = s \<or> s' = s1"
      using assms(2) Release_throttles l
      by (cases r1) (auto simp: guarded_def release_throttles_def demo_only_def split: sum.splits if_splits)
    ultimately show ?thesis using w by auto
  next
    case (Resolve_escalation x1 x2 x3)
    have "writes cfg s s'"
    proof (cases "get_case x2 (store s)")
      case (Inl e)
      with assms(2) Resolve_escalation show ?thesis
        by (auto simp: guarded_def resolve_escalation_def demo_only_def split: sum.splits if_splits)
    next
      case (Inr c)
      have "writes cfg s (append_entries [human_entry c' t] (mutate (c\<lparr>state := RESOLVED_BY_HUMAN, resolution_note := Some n\<rparr>) s))
        \<and> write_back (c\<lparr>state := RESOLVED_BY_HUMAN, resolution_note := Some n\<rparr>) [human_entry c' t] s
          = (append_entries [human_entry c' t] (mutate (c\<lparr>state := RESOLVED_BY_HUMAN, resolution_note := Some n\<rparr>) s), Inr ())"
        if "state c = ESCALATED" for c' t n
        using moved_writes(1,2) [OF assms(1) Inr case_move.resolved [OF that], of "[human_entry c' t]"]
        by (simp add: human_entry_def)
      with assms(2) Resolve_escalation Inr show ?thesis
        by (auto simp: guarded_def resolve_escalation_def demo_only_def Let_def split: sum.splits if_splits)
    qed
    with w show ?thesis .
  next
    case (Record_distress x1 x2)
    with assms(2) show ?thesis
      by (auto simp: guarded_def admin_record_failure_def Let_def split: sum.splits)
  next
    case Periodic_release
    obtain s1 r1 where l: "release_loop w (Case_Store.list_cases (store s)) [] s = (s1, r1)" by fastforce
    with loop [of cfg w "[]"] have "writes cfg s s1" by simp
    moreover have "s' = s1"
      using assms(2) Periodic_release l
      by (cases r1) (auto simp: periodic_throttle_release_def swallow_def split: if_splits)
    ultimately show ?thesis using w by simp
  next
    case Startup
    obtain s1 r1 where l: "reconcile_all cfg w s = (s1, r1)" by fastforce
    with reconcile_all_writes [OF assms(1), of cfg w] have "writes cfg s s1" by simp
    moreover have "s' = s1"
      using assms(2) Startup l by (cases r1) (auto simp: startup_event_def)
    ultimately show ?thesis using w by simp
  qed
qed

end
