(* ===== verification/Service_Properties.thy ===== *)
theory Service_Properties
  imports Service_Writes Store_Properties
begin

text \<open>
  What holds of the service in every state any sequence of requests can lead to.
\<close>

section \<open>Runs\<close>

text \<open>
  Between two requests other processes may write to the etcd cluster, whatever they like.
\<close>

inductive service_run :: "'c settings \<Rightarrow> 'c service \<Rightarrow> bool" for cfg :: "'c settings" where
  booted: "boot cfg cl = Inr s \<Longrightarrow> service_run cfg s"
| served: "service_run cfg s \<Longrightarrow> serve cfg w req s = (s', r) \<Longrightarrow> service_run cfg s'"
| elsewhere: "service_run cfg s \<Longrightarrow> service_run cfg (s\<lparr>cluster := cl\<rparr>)"

inductive later :: "'c settings \<Rightarrow> 'c service \<Rightarrow> 'c service \<Rightarrow> bool" for cfg :: "'c settings" where
  now: "later cfg s s"
| after: "later cfg s s1 \<Longrightarrow> serve cfg w req s1 = (s2, r) \<Longrightarrow> later cfg s s2"
| meanwhile: "later cfg s s1 \<Longrightarrow> later cfg s (s1\<lparr>cluster := cl\<rparr>)"

lemma boot_facts: "boot cfg cl = Inr s \<Longrightarrow> store s = InMemoryCaseStore \<and> valid_clock (clk s)"
  by (auto simp: boot_def bindR_eq_Inr intro: wire_clock_valid)

lemma advance_valid: "valid_clock ck \<Longrightarrow> advance ck delta = Inr ck' \<Longrightarrow> valid_clock ck'"
  by (cases ck) auto

lemma run_reachable: "service_run cfg s \<Longrightarrow> reachable (store s) \<and> valid_clock (clk s)"
proof (induction rule: service_run.induct)
  case (booted cl s)
  from boot_facts [OF booted] reachable.initial show ?case by simp
next
  case (served s w req s' r)
  then have "store_ok (store s)" using reachable_ok by blast
  note w = serve_writes [OF this served(2)]
  from w have "store_step\<^sup>*\<^sup>* (store s) (store s')" using txs_store_steps [OF _ \<open>store_ok (store s)\<close>] by blast
  with served(3) have "reachable (store s')" using reachable_steps by blast
  moreover have "valid_clock (clk s')" using w served(3) advance_valid by metis
  ultimately show ?case by blast
qed simp

lemma run_store_ok: "service_run cfg s \<Longrightarrow> store_ok (store s)"
  using run_reachable reachable_ok by blast

lemma later_run: "later cfg s s' \<Longrightarrow> service_run cfg s \<Longrightarrow> service_run cfg s'"
  by (induction rule: later.induct) (blast intro: service_run.served service_run.elsewhere)+

lemma serve_txs: "service_run cfg s \<Longrightarrow> serve cfg w req s = (s', r) \<Longrightarrow> (tx cfg (clk s))\<^sup>*\<^sup>* (store s) (store s')"
  using serve_writes run_store_ok by blast

text \<open>An invariant of stores that every write keeps holds in every run; likewise from any point on.\<close>

lemma txs_invariant:
  assumes "(tx cfg ck)\<^sup>*\<^sup>* st st'" and "store_ok st" and "I st"
    and "\<And>st st'. tx cfg ck st st' \<Longrightarrow> store_ok st \<Longrightarrow> I st \<Longrightarrow> I st'"
  shows "I st'"
proof -
  from assms(1) have "store_ok st' \<and> I st'"
    by (induction rule: rtranclp_induct) (use assms tx_ok in blast)+
  then show ?thesis ..
qed

lemma run_invariant_store:
  assumes "service_run cfg s" and "I InMemoryCaseStore"
    and "\<And>ck st st'. tx cfg ck st st' \<Longrightarrow> valid_clock ck \<Longrightarrow> store_ok st \<Longrightarrow> I st \<Longrightarrow> I st'"
  shows "I (store s)"
  using assms(1)
proof (induction rule: service_run.induct)
  case (booted cl s)
  from boot_facts [OF booted] assms(2) show ?case by simp
next
  case (served s w req s' r)
  from serve_txs [OF served(1,2)] run_store_ok [OF served(1)] served(3) run_reachable [OF served(1)] assms(3)
  show ?case by (blast intro: txs_invariant)
qed simp

lemma later_invariant:
  assumes "later cfg s s'" and "service_run cfg s" and "I (store s)"
    and "\<And>ck st st'. tx cfg ck st st' \<Longrightarrow> store_ok st \<Longrightarrow> I st \<Longrightarrow> I st'"
  shows "I (store s')"
  using assms(1-3)
proof (induction rule: later.induct)
  case (after s s1 w req s2 r)
  then have "service_run cfg s1" "I (store s1)" using later_run by blast+
  with serve_txs [OF _ after(2)] run_store_ok assms(4) show ?case by (blast intro: txs_invariant)
qed simp_all

text \<open>Invariants of single cases.\<close>

definition all_cases :: "(recovery_case \<Rightarrow> bool) \<Rightarrow> case_store \<Rightarrow> bool" where
  "all_cases P st \<longleftrightarrow> (\<forall>k c. get_case k st = Inr c \<longrightarrow> P c)"

lemma tx_all_cases:
  assumes "tx cfg ck st st'" and "all_cases P st"
    and "\<And>c c'. P c \<Longrightarrow> case_move cfg ck c c' \<Longrightarrow> P c'"
    and "\<And>ev wall c ev' es d. handle_new_failure ev (config cfg) ck wall = Inr (c, ev', es, d) \<Longrightarrow> P c"
  shows "all_cases P st'"
  using assms(1)
proof cases
  case (opened ev wall c ev' es d)
  from create_case_Inr(3) [OF opened(2)] assms(2) assms(4) [OF opened(1)]
  show ?thesis by (auto simp: all_cases_def get_case_def split: if_splits)
next
  case (moved k c c')
  have "P c'" using assms(2,3) moved(1,2) unfolding all_cases_def by blast
  with update_case_Inr(2) [OF moved(3)] assms(2)
  show ?thesis by (auto simp: all_cases_def get_case_def split: if_splits)
next
  case (failed e c)
  with assms(2) show ?thesis by (auto simp: all_cases_def get_case_def record_failure_def Let_def split: if_splits)
next
  case (decided d)
  with assms(2) show ?thesis by (auto simp: all_cases_def get_case_def record_retry_decision_def split: if_splits)
next
  case (redecided d)
  with assms(2) show ?thesis by (auto simp: all_cases_def get_case_def update_retry_decision_def split: if_splits)
next
  case (audited e)
  with assms(2) show ?thesis by (simp add: all_cases_def get_case_def)
qed

section \<open>The audit log of the service\<close>

text \<open>
  C3. Whatever requests the service has served since it booted, authorised or not, valid or malformed, the
  audit trail of every case verifies: the endpoint finds the chain intact, the explainer's check passes,
  the entries belong to the case and are numbered in increasing order.
\<close>

theorem service_trails_verify:
  assumes "service_run cfg s" and "get_audit_trail cid (store s) \<noteq> []"
  shows "verify_chain_endpoint cid (store s) = Chain_intact
     \<and> verify_chain_integrity (get_audit_trail cid (store s))
     \<and> (\<forall>e \<in> set (get_audit_trail cid (store s)). ae_case_id e = cid)
     \<and> (\<exists>is. map sequence_id (get_audit_trail cid (store s)) = map Some is \<and> sorted_wrt (<) is)"
proof -
  have "log_ok (store s)" using run_store_ok [OF assms(1)] by (simp add: store_ok_def)
  from log_ok_trail [OF this, of cid] assms(2) show ?thesis
    by (auto simp: verify_chain_endpoint_def Let_def check_chain_linked numbered_def verify_chain_integrity_def intro: linked_integrity)
qed

section \<open>Without the quorum\<close>

definition idle :: "recovery_case \<Rightarrow> bool" where
  "idle c \<longleftrightarrow> retries_used c = 0
     \<and> (if is_control_case (case_id c) 20
        then bucket c = Some Control \<and> state c \<in> {CONTROL_HELD, CONTROL_RECOVERED, CONTROL_STILL_FAILED}
        else bucket c = Some Treatment \<and> state c \<in> {NOTICE_PENDING, NOTICE_SENT, RETRY_SCHEDULED, ESCALATED,
               AFA_REQUIRED, RECOVERED, RECOVERED_NATURALLY, RESOLVED_BY_HUMAN})"

lemma idle_failure:
  assumes "handle_existing_failure c ev cfg ck wall = (c', ev', es, d)" and "idle c"
  shows "idle c'"
proof -
  have "state c \<noteq> RETRY_EXECUTED" using assms(2) by (auto simp: idle_def split: if_splits)
  then have "c' = c \<or> state c = CONTROL_HELD \<and> c' = c\<lparr>state := CONTROL_STILL_FAILED, control_outcome := Some Still_failed\<rparr>"
    using assms(1) by (auto simp: handle_existing_failure_def Let_def split: if_splits)
  with assms(2) show ?thesis by (auto simp: idle_def split: if_splits)
qed

lemma idle_success:
  assumes "handle_payment_success c sev ck wall = (c', es, d)" and "idle c"
  shows "idle c'"
proof (cases "bucket c = Some Control")
  case True
  from success_control [OF assms(1) True] assms(2) True show ?thesis by (auto simp: idle_def split: if_splits)
next
  case False
  have "case_id c' = case_id c" "retries_used c' = retries_used c"
    using assms(1) by (auto simp: handle_payment_success_def Let_def split: if_splits)
  with success_treatment [OF assms(1) False] assms(2) False show ?thesis by (auto simp: idle_def split: if_splits)
qed

lemma idle_active: "idle c \<Longrightarrow> state c \<in> {NOTICE_PENDING, RETRY_SCHEDULED, THROTTLED, ESCALATED} \<Longrightarrow>
   st \<in> {NOTICE_SENT, RETRY_SCHEDULED, ESCALATED, RESOLVED_BY_HUMAN} \<Longrightarrow> idle (c\<lparr>state := st\<rparr>)"
  by (auto simp: idle_def split: if_splits)

lemma idle_resolution [simp]: "idle (c\<lparr>resolution_note := n\<rparr>) = idle c"
  by (simp add: idle_def)

lemma idle_move:
  assumes "\<not> use_etcd cfg" and "idle c" and "case_move cfg ck c c'"
  shows "idle c'"
  using assms(3)
proof cases
  case (failure ev wall ev' es d)
  then show ?thesis using assms(2) by (rule idle_failure)
next
  case (success sev wall es d)
  then show ?thesis using assms(2) by (rule idle_success)
next
  case (notice pick wall wall' rcode prev r)
  have "c' = c \<or> state c = NOTICE_PENDING \<and> (c' = c\<lparr>state := NOTICE_SENT\<rparr> \<or> c' = c\<lparr>state := RETRY_SCHEDULED\<rparr>)"
    using notice(2) by (cases r) (auto dest!: mark_notice_sent_Inl mark_notice_sent_Inr)
  with assms(2) show ?thesis by (auto intro: idle_active)
next
  case (released wall es)
  then show ?thesis using assms(2) by (auto simp: release_throttle_def intro: idle_active split: if_splits)
next
  case escalated
  with assms(2) show ?thesis by (auto intro: idle_active)
next
  case (resolved n)
  then have "c' = (c\<lparr>state := RESOLVED_BY_HUMAN\<rparr>)\<lparr>resolution_note := Some n\<rparr>" by simp
  with resolved(2) assms(2) show ?thesis by (simp only: idle_resolution) (auto intro: idle_active)
next
  case applied
  with assms(1) show ?thesis by simp
qed

lemma idle_opened:
  assumes "handle_new_failure ev cfg ck wall = Inr (c, ev', es, d)"
  shows "idle c"
proof -
  obtain mid c0 where c0: "RecoveryCase (fe_case_id ev) mid (fe_instrument_id ev) (fe_amount ev)
      (clock_now ck wall) 0 RECEIVED = Inr c0"
    and rest: "opened_control c0 (clock_now ck wall) c es
        \<or> (\<exists>st rule. opened_treatment c0 (clock_now ck wall) st rule c es \<and> opening_choice cfg ev c0 st rule)"
    using handle_new_failure_cases [OF assms] by blast
  from c0 have "retries_used c0 = 0" by (auto simp: RecoveryCase_def split: if_splits)
  with rest show ?thesis
    by (auto simp: opened_control_def opened_treatment_def opening_choice_def idle_def)
qed

lemma run_idle:
  assumes "service_run cfg s" and "\<not> use_etcd cfg"
  shows "all_cases idle (store s)"
  using assms(1)
proof (rule run_invariant_store)
  show "all_cases idle InMemoryCaseStore" by (simp add: all_cases_def get_case_def InMemoryCaseStore_def)
  fix ck st st' assume "tx cfg ck st st'" "all_cases idle st"
  then show "all_cases idle st'"
    by (rule tx_all_cases) (erule (1) idle_move [OF assms(2)], rule idle_opened)
qed

lemma execute_refused:
  assumes "\<not> use_etcd cfg" and "store_ok (store s)" and "execute_retry cfg w cid s = (s', r)"
  shows "\<exists>e. r = Inl e"
proof -
  have exe: "\<exists>e. snd (execute_decision cfg w cid c d s) = Inl e" for c d
    using assms(1)
    by (simp add: execute_decision_def Let_def commit_effect_def mem_commit_effect_def RetryDecision_def)
  have esc: "\<exists>e. snd (andthen (write_back c es s) (\<lambda>s _. (s, Inl (HTTPException 409) :: response result))) = Inl e" for c es
    by (cases "write_back c es s"; cases "snd (write_back c es s)") auto
  show ?thesis
    using assms(3) exe esc
    by (auto simp: execute_retry_def demo_only_def Let_def split: sum.splits if_splits list.splits) (metis snd_conv)+
qed

text \<open>
  C13. Without etcd no retry is ever executed.  In every state the service reaches, no case is in
  RETRY_EXECUTED or THROTTLED, no case has used a retry, the control cases of the SHA-256 draw are
  still held, recovered naturally or failed again, and every request to execute a retry is answered
  with an error, because the in-memory backend's effect is never a valid decision.
\<close>

theorem no_execution_without_etcd:
  assumes "service_run cfg s" and "\<not> use_etcd cfg" and "get_case cid (store s) = Inr c"
  shows "retries_used c = 0 \<and> state c \<noteq> RETRY_EXECUTED \<and> state c \<noteq> THROTTLED
     \<and> (is_control_case cid 20 \<longrightarrow> bucket c = Some Control \<and> state c \<in> {CONTROL_HELD, CONTROL_RECOVERED, CONTROL_STILL_FAILED})
     \<and> (\<not> is_control_case cid 20 \<longrightarrow> bucket c = Some Treatment)
     \<and> (\<exists>e. snd (serve cfg w (Execute_retry auth cid) s) = Inl e)"
proof -
  have "case_id c = cid" using store_okD(1) [OF run_store_ok [OF assms(1)] assms(3)] .
  moreover have "idle c" using run_idle [OF assms(1,2)] assms(3) by (auto simp: all_cases_def)
  moreover obtain s' r where e: "execute_retry cfg w cid s = (s', r)" by fastforce
  with execute_refused [OF assms(2) run_store_ok [OF assms(1)] e]
  have "\<exists>e. snd (serve cfg w (Execute_retry auth cid) s) = Inl e"
    by (auto simp: guarded_def split: sum.splits)
  ultimately show ?thesis by (auto simp: idle_def split: if_splits)
qed

section \<open>The failure webhook\<close>

text \<open>A recorded failure belongs to a stored case.\<close>

definition failures_stored :: "case_store \<Rightarrow> bool" where
  "failures_stored st \<longleftrightarrow> (\<forall>cid n e. dict_get (failures st) (cid, n) = Some e \<longrightarrow> (\<exists>c. dict_get (cases st) cid = Some c))"

lemma failures_storedD: "failures_stored st \<Longrightarrow> dict_get (failures st) (cid, n) = Some e \<Longrightarrow> \<exists>c. dict_get (cases st) cid = Some c"
  unfolding failures_stored_def by blast

lemma failures_stored_cong: "failures st' = failures st \<Longrightarrow> cases st' = cases st \<Longrightarrow> failures_stored st' = failures_stored st"
  by (simp add: failures_stored_def)

lemma tx_failures_stored:
  assumes "tx cfg ck st st'" and "failures_stored st"
  shows "failures_stored st'"
  using assms(1)
proof cases
  case (opened ev wall c ev' es d)
  with create_case_Inr(3) [OF opened(2)] assms(2) show ?thesis by (simp add: failures_stored_def)
next
  case (moved k c c')
  with update_case_Inr(2) [OF moved(3)] assms(2) show ?thesis by (simp add: failures_stored_def)
next
  case (failed e c)
  then have eq: "failures st' = dict_set (fe_case_id e, attempt_number e) e (failures st)" "cases st' = cases st"
    and c: "dict_get (cases st) (fe_case_id e) = Some c"
    by (auto simp: record_failure_def get_case_def Let_def split: if_splits)
  have "\<exists>c. dict_get (cases st') cid = Some c" if "dict_get (failures st') (cid, n) = Some f" for cid n f
    using that c failures_storedD [OF assms(2)] eq by (cases "cid = fe_case_id e") simp_all
  then show ?thesis unfolding failures_stored_def by blast
next
  case (decided d)
  then have "failures st' = failures st" "cases st' = cases st"
    by (auto simp: record_retry_decision_def split: if_splits)
  from failures_stored_cong [OF this] assms(2) show ?thesis by simp
next
  case (redecided d)
  then have "failures st' = failures st" "cases st' = cases st"
    by (auto simp: update_retry_decision_def split: if_splits)
  from failures_stored_cong [OF this] assms(2) show ?thesis by simp
next
  case (audited e)
  with assms(2) show ?thesis by (simp add: failures_stored_def)
qed

lemma run_failures_stored:
  assumes "service_run cfg s"
  shows "failures_stored (store s)"
  using assms
proof (rule run_invariant_store)
  show "failures_stored InMemoryCaseStore" by (simp add: failures_stored_def InMemoryCaseStore_def)
qed (rule tx_failures_stored)

lemma max_attempt_next: "dict_get (failures st) (cid, get_max_attempt_number cid st + 1) = None"
  using max_attempt_ge [of st cid "get_max_attempt_number cid st + 1"] by fastforce

text \<open>The two ways of reaching the payment agree on a payload the parser accepts.\<close>

lemma get_entity_parsed:
  assumes "parse_payment_failed payload existing n = Inr ev" and "get_entity payload = Inr e"
    and "py_get e ''id'' PNone = Inr v"
  shows "v = PStr (fe_payment_id ev)"
proof -
  obtain d where d: "payment_entity payload = Inr (PDict d)" "dict_get d ''id'' = Some (PStr (fe_payment_id ev))"
    using parse_payment_failed_fields(3) [OF assms(1)] by blast
  from d(1) assms(2) have "e = PDict d"
    by (auto simp: payment_entity_def get_entity_def bindR_eq_Inr py_item_Inr)
  with d(2) assms(3) show ?thesis by simp
qed

lemma persist_failure_succeeds:
  assumes ok: "store_ok (store s)" and fs: "failures_stored (store s)" and stored: "stored_in s existing"
    and h: "handle_payment_failed existing ev (config cfg) (clk s) wall = Inr (c, ev', es, d)"
    and ids: "case existing of None \<Rightarrow> fe_case_id ev = fe_payment_id ev
               | Some c0 \<Rightarrow> fe_case_id ev = case_id c0 \<and> attempt_number ev = get_max_attempt_number (case_id c0) (store s) + 1"
    and fresh: "find_attempt_by_payment_id (fe_payment_id ev) (store s) = None"
    and p: "persist_failure cfg w existing c ev' es d s = (s', Inl e)"
  shows "existing = None \<and> s' = s"
proof -
  note facts = handle_payment_failed_facts [OF h]
  obtain k where ev': "ev' = ev\<lparr>decline_class := k\<rparr>" using facts(1) by blast
  have rest: "\<exists>s2. andthen (with_store (record_failure ev') s1) (\<lambda>s _. record_optional d (append_entries es s)) = (s2, Inr ())"
    if "dict_get (failures (store s1)) (fe_case_id ev, attempt_number ev) = None"
      "payment_attempt_index (store s1) = payment_attempt_index (store s)" for s1
    using that fresh facts(3) ev'
    by (simp add: with_store_def record_failure_def Let_def record_optional_def find_attempt_by_payment_id_def)
  show ?thesis
  proof (cases existing)
    case None
    show ?thesis
    proof (cases "create_case c (store s)")
      case (Inl e')
      with p None show ?thesis by (simp add: persist_failure_def with_store_def)
    next
      case (Inr st)
      have "dict_get (cases (store s)) (fe_case_id ev) = None"
        using create_case_Inr(1) [OF Inr] facts(4) [OF None] by simp
      with fs have "dict_get (failures (store s)) (fe_case_id ev, attempt_number ev) = None"
        using failures_storedD [OF fs] by (cases "dict_get (failures (store s)) (fe_case_id ev, attempt_number ev)") fastforce+
      with rest [of "s\<lparr>store := st\<rparr>"] create_case_Inr(3) [OF Inr] p None Inr show ?thesis
        by (auto simp: persist_failure_def with_store_def)
    qed
  next
    case (Some c0)
    have get: "get_case (case_id c0) (store s) = Inr c0" using stored Some by (simp add: stored_in_def)
    have move: "case_move cfg (clk s) c0 c"
      using h Some by (auto simp: handle_payment_failed_def intro: case_move.failure)
    have "with_store (update_case c) (mutate c s) = (mutate c s, Inr ())"
      using moved_writes(1) [OF ok get move, of "[]"]
      by (auto simp: write_back_def append_entries_def append_all_def with_store_def split: sum.splits)
    moreover have "dict_get (failures (store (mutate c s))) (fe_case_id ev, attempt_number ev) = None"
      using ids Some max_attempt_next by (simp add: mutate_def)
    ultimately have False using rest [of "mutate c s"] p Some by (auto simp: persist_failure_def mutate_def)
    then show ?thesis ..
  qed
qed

lemma process_failure_atomic:
  assumes ok: "store_ok (store s)" and fs: "failures_stored (store s)" and stored: "stored_in s existing"
    and fresh: "\<And>ev n. parse_payment_failed payload existing n = Inr ev \<Longrightarrow> find_attempt_by_payment_id (fe_payment_id ev) (store s) = None"
    and p: "process_failure cfg w payload existing s = (s', Inl e)"
  shows "s' = s"
proof -
  let ?n = "case existing of None \<Rightarrow> None | Some c \<Rightarrow> Some (get_max_attempt_number (case_id c) (store s) + 1)"
  show ?thesis
  proof (cases "parse_payment_failed payload existing ?n")
    case (Inl e)
    with p show ?thesis by (auto simp: process_failure_def raise_as_def)
  next
    case (Inr ev)
    show ?thesis
    proof (cases "handle_payment_failed existing ev (config cfg) (clk s) (w 0)")
      case (Inl e)
      with p Inr show ?thesis by (auto simp: process_failure_def raise_as_def)
    next
      case h: (Inr q)
      obtain c ev' es d where q: "q = (c, ev', es, d)" by (cases q)
      obtain s1 r1 where pf: "persist_failure cfg w existing c ev' es d s = (s1, r1)" by fastforce
      have ids: "case existing of None \<Rightarrow> fe_case_id ev = fe_payment_id ev
               | Some c0 \<Rightarrow> fe_case_id ev = case_id c0 \<and> attempt_number ev = get_max_attempt_number (case_id c0) (store s) + 1"
        using parse_payment_failed_fields(4) [OF Inr] by (simp split: option.splits)
      show ?thesis
      proof (cases r1)
        case (Inl e1)
        with persist_failure_succeeds [OF ok fs stored h [unfolded q] ids fresh [OF Inr]] pf have "s1 = s" by blast
        with p Inr h q pf Inl show ?thesis by (simp add: process_failure_def raise_as_def)
      next
        case r: (Inr u)
        with p Inr h q pf show ?thesis by (simp add: process_failure_def raise_as_def)
      qed
    qed
  qed
qed

text \<open>What the webhook decides before it processes a payment.\<close>

lemma webhook_failed_cases:
  assumes "webhook_payment_failed cfg w raw sig s = (s', r)"
  obtains (refused) e where "s' = s" "r = Inl e"
  | (known) cid pid k where "s' = s" "r = Inr (Duplicate cid pid)" "find_attempt_by_payment_id pid (store s) = Some (cid, k)"
  | (processed) payload en v m existing s1 q where
      "signed_body cfg raw sig = Inr payload" "get_entity payload = Inr en" "py_get en ''id'' PNone = Inr v"
      "lookup_key v (\<lambda>p. find_attempt_by_payment_id p (store s)) = Inr None" "truthy v"
      "case_of_mandate m s = Inr existing" "process_failure cfg w payload existing s = (s1, q)"
      "case q of Inl e \<Rightarrow> s' = s1 \<and> r = Inl e
        | Inr (c, ev) \<Rightarrow> s' = s1 \<and> r = Inr (Recorded (case_id c) (state c) (fe_payment_id ev))"
proof -
  let ?m = "bindR (signed_body cfg raw sig) (\<lambda>payload.
           bindR (get_entity payload) (\<lambda>entity.
           bindR (py_get entity ''id'' PNone) (\<lambda>payment_id.
           if \<not> truthy payment_id then Inl (HTTPException 400)
           else bindR (lookup_key payment_id (\<lambda>p. find_attempt_by_payment_id p (store s))) (\<lambda>attempt.
           case attempt of
             Some (cid, _) \<Rightarrow> bindR (text_field payment_id) (\<lambda>pid. Inr (Inl (Duplicate cid pid)))
           | None \<Rightarrow>
               bindR (get_mandate payload) (\<lambda>mandate.
               bindR (case_of_mandate mandate s) (\<lambda>existing. Inr (Inr (payload, existing))))))))"
  note h = assms [unfolded webhook_payment_failed_def]
  show ?thesis
  proof (cases ?m)
    case (Inl e)
    with h show ?thesis by (intro refused [of e]) simp_all
  next
    case m: (Inr x)
    then obtain payload en v att where
      a: "signed_body cfg raw sig = Inr payload" "get_entity payload = Inr en" "py_get en ''id'' PNone = Inr v"
        "truthy v" "lookup_key v (\<lambda>p. find_attempt_by_payment_id p (store s)) = Inr att"
      by (auto simp: bindR_eq_Inr split: if_splits)
    show ?thesis
    proof (cases att)
      case (Some b)
      obtain cid k where b: "b = (cid, k)" by (cases b)
      from a Some b obtain pid where pid: "v = PStr pid" "find_attempt_by_payment_id pid (store s) = Some (cid, k)"
        by (cases v) auto
      with a Some b h show ?thesis by (intro known [of cid pid k]) auto
    next
      case None
      with a m obtain mv existing where e: "get_mandate payload = Inr mv" "case_of_mandate mv s = Inr existing"
          "x = Inr (payload, existing)"
        by (auto simp: bindR_eq_Inr)
      obtain s1 q where p: "process_failure cfg w payload existing s = (s1, q)" by fastforce
      have "case q of Inl e \<Rightarrow> s' = s1 \<and> r = Inl e
        | Inr (c, ev) \<Rightarrow> s' = s1 \<and> r = Inr (Recorded (case_id c) (state c) (fe_payment_id ev))"
        using h m e p by (cases q) (auto split: prod.splits)
      with a None e p show ?thesis by (intro processed) auto
    qed
  qed
qed


end
