(* ===== verification/Endpoint_Properties.thy ===== *)
theory Endpoint_Properties
  imports Service_Properties
begin

text \<open>
  The endpoints one by one: redelivered webhooks, the production profile, notices and executions.
\<close>

section \<open>Redelivery\<close>

lemma tx_keeps_attempt:
  assumes "tx cfg ck st st'" and "find_attempt_by_payment_id p st = Some k"
  shows "find_attempt_by_payment_id p st' = Some k"
  using assms(1)
proof cases
  case (opened ev wall c ev' es d)
  with create_case_Inr(3) [OF opened(2)] assms(2) show ?thesis by (simp add: find_attempt_by_payment_id_def)
next
  case (moved k c c')
  with update_case_Inr(2) [OF moved(3)] assms(2) show ?thesis by (simp add: find_attempt_by_payment_id_def)
next
  case (failed e c)
  with assms(2) show ?thesis
    by (cases "p = fe_payment_id e")
      (auto simp: find_attempt_by_payment_id_def record_failure_def Let_def split: if_splits)
next
  case (decided d)
  then have "payment_attempt_index st' = payment_attempt_index st"
    by (auto simp: record_retry_decision_def split: if_splits)
  with assms(2) show ?thesis by (simp add: find_attempt_by_payment_id_def)
next
  case (redecided d)
  then have "payment_attempt_index st' = payment_attempt_index st"
    by (auto simp: update_retry_decision_def split: if_splits)
  with assms(2) show ?thesis by (simp add: find_attempt_by_payment_id_def)
next
  case (audited e)
  with assms(2) show ?thesis by (simp add: find_attempt_by_payment_id_def)
qed

lemma later_keeps_attempt:
  assumes "later cfg s s'" and "service_run cfg s" and "find_attempt_by_payment_id p (store s) = Some k"
  shows "find_attempt_by_payment_id p (store s') = Some k"
  by (rule later_invariant [where I = "\<lambda>st. find_attempt_by_payment_id p st = Some k", OF assms]) (rule tx_keeps_attempt)

lemma append_all_index [simp]: "payment_attempt_index (append_all es st) = payment_attempt_index st"
  by (induction es arbitrary: st) (simp_all add: append_all_def)

lemma andthen_InrE:
  assumes "andthen out f = (s2, Inr y)"
  obtains s1 x where "out = (s1, Inr x)" "f s1 x = (s2, Inr y)"
  using assms by (cases out; cases "snd out") auto

lemma processed_is_recorded:
  assumes ok: "store_ok (store s)" and stored: "stored_in s existing"
    and p: "process_failure cfg w payload existing s = (s', Inr (c, ev))"
  shows "\<exists>n. find_attempt_by_payment_id (fe_payment_id ev) (store s') = Some (case_id c, n)"
    and "\<exists>n ev0. parse_payment_failed payload existing n = Inr ev0 \<and> fe_payment_id ev0 = fe_payment_id ev"
proof -
  let ?n = "case existing of None \<Rightarrow> None | Some c \<Rightarrow> Some (get_max_attempt_number (case_id c) (store s) + 1)"
  obtain ev0 where ev0: "parse_payment_failed payload existing ?n = Inr ev0"
    using p by (cases "parse_payment_failed payload existing ?n") (auto simp: process_failure_def raise_as_def)
  obtain es d where h: "handle_payment_failed existing ev0 (config cfg) (clk s) (w 0) = Inr (c, ev, es, d)"
    and pf: "\<exists>s1. persist_failure cfg w existing c ev es d s = (s1, Inr ()) \<and> store s' = store s1"
    using p ev0
    by (cases "handle_payment_failed existing ev0 (config cfg) (clk s) (w 0)")
      (auto simp: process_failure_def raise_as_def split: sum.splits prod.splits if_splits)
  note facts = handle_payment_failed_facts [OF h]
  obtain k where ev: "ev = ev0\<lparr>decline_class := k\<rparr>" using facts(1) by blast
  then show "\<exists>n ev0. parse_payment_failed payload existing n = Inr ev0 \<and> fe_payment_id ev0 = fe_payment_id ev"
    using ev0 by (intro exI [of _ ?n] exI [of _ ev0]) simp
  have "case_id c = fe_case_id ev0"
  proof (cases existing)
    case None
    with facts(4) show ?thesis by simp
  next
    case (Some c0)
    have "case_move cfg (clk s) c0 c"
      using h Some by (auto simp: handle_payment_failed_def intro: case_move.failure)
    from same_keysD(1) [OF case_move_same_keys [OF this]] parse_payment_failed_fields(4) [OF ev0] Some
    show ?thesis by simp
  qed
  with ev have cid: "case_id c = fe_case_id ev" by simp
  from pf obtain s2 where s2: "persist_failure cfg w existing c ev es d s = (s2, Inr ())" "store s' = store s2" by blast
  then obtain s1 s3 x where "with_store (record_failure ev) s1 = (s3, Inr x)" "record_optional d (append_entries es s3) = (s2, Inr ())"
    unfolding persist_failure_def by (elim andthen_InrE) blast
  with s2(2) facts(3) show "\<exists>n. find_attempt_by_payment_id (fe_payment_id ev) (store s') = Some (case_id c, n)"
    by (auto simp: with_store_def record_optional_def find_attempt_by_payment_id_def record_failure_def Let_def cid
        split: sum.splits if_splits)
qed

text \<open>
  C11. A redelivered failure webhook is recognised for ever.  Once a delivery has been recorded, the same
  body with the same signature, delivered again in any state the service reaches later, is answered as a
  duplicate of the same case and payment and changes nothing.
\<close>

theorem redelivery_is_duplicate:
  assumes "service_run cfg s" and "webhook_payment_failed cfg w raw sig s = (s1, Inr (Recorded cid st pid))"
    and "later cfg s1 s2"
  shows "webhook_payment_failed cfg w' raw sig s2 = (s2, Inr (Duplicate cid pid))"
  using assms(2)
proof (cases rule: webhook_failed_cases)
  case (processed payload en v m existing s3 q)
  from processed(8) obtain c ev where q: "q = Inr (c, ev)" "s1 = s3" "cid = case_id c" "pid = fe_payment_id ev"
    by (auto split: sum.splits)
  note ok = run_store_ok [OF assms(1)]
  note st = case_of_mandate_stored [OF ok processed(6)]
  have p: "process_failure cfg w payload existing s = (s1, Inr (c, ev))" using processed(7) q by simp
  note rec = processed_is_recorded [OF ok st p]
  have v: "v = PStr pid" using rec(2) get_entity_parsed [OF _ processed(2,3)] q(4) by metis
  from rec(1) q obtain n where n: "find_attempt_by_payment_id pid (store s1) = Some (cid, n)" by blast
  have "serve cfg w (Payment_failed raw sig) s = (s1, Inr (Recorded cid st pid))" using assms(2) by simp
  with assms(1) have run1: "service_run cfg s1" by (rule service_run.served)
  have "find_attempt_by_payment_id pid (store s2) = Some (cid, n)"
    by (rule later_invariant [where I = "\<lambda>st. find_attempt_by_payment_id pid st = Some (cid, n)", OF assms(3) run1 n])
      (rule tx_keeps_attempt)
  with v processed(1-3,5) show ?thesis by (simp add: webhook_payment_failed_def)
qed simp_all

section \<open>The production profile\<close>

text \<open>The \<^verbatim>\<open>Authorization\<close> header of the requests that need one.\<close>

fun authorization_of :: "request \<Rightarrow> string option" where
  "authorization_of (Simulate_failure auth _ _ _ _ _ _) = Some auth"
| "authorization_of (Simulate_success auth _ _ _) = Some auth"
| "authorization_of (Send_notice auth _ _) = Some auth"
| "authorization_of (Execute_retry auth _) = Some auth"
| "authorization_of (Advance_clock auth _) = Some auth"
| "authorization_of (Release_throttles auth) = Some auth"
| "authorization_of (Resolve_escalation auth _ _) = Some auth"
| "authorization_of (Record_distress auth _) = Some auth"
| "authorization_of _ = None"

text \<open>
  C14. In the production profile the admin endpoints are inert: without the configured token (or with none
  configured) every one of them answers 401 and changes nothing, and with the token all but the recording
  of a distress signal answer 403 and change nothing; no admin request ever changes the store, the commit
  log or the clock.
\<close>

theorem production_admin_inert:
  assumes "config_profile (config cfg) = Prod" and "authorization_of req = Some auth"
  shows "store (fst (serve cfg w req s)) = store s \<and> committed (fst (serve cfg w req s)) = committed s
     \<and> cluster (fst (serve cfg w req s)) = cluster s \<and> clk (fst (serve cfg w req s)) = clk s
     \<and> (admin_token cfg = [] \<or> auth \<noteq> ''Bearer '' @ admin_token cfg \<longrightarrow>
          serve cfg w req s = (s, Inl (HTTPException 401)))
     \<and> (admin_token cfg \<noteq> [] \<and> auth = ''Bearer '' @ admin_token cfg \<and> (\<forall>i. req \<noteq> Record_distress auth i) \<longrightarrow>
          serve cfg w req s = (s, Inl (HTTPException 403)))"
proof -
  have demo: "demo_only cfg out s = (s, Inl (HTTPException 403))" for out :: "('a, response) outcome"
    using assms(1) by (simp add: demo_only_def)
  note defs = guarded_def require_admin_token_def assms(1) demo simulate_failure_def simulate_success_def send_notice_def
    execute_retry_def advance_clock_def release_throttles_def resolve_escalation_def admin_record_failure_def Let_def
  show ?thesis using assms(2) by (cases req) (auto simp: defs)
qed

section \<open>Notices\<close>

lemma append_all_trail:
  "\<forall>e \<in> set es. ae_case_id e = cid \<Longrightarrow>
   \<exists>fs. get_audit_trail cid (append_all es st) = get_audit_trail cid st @ fs \<and> map to_state fs = map to_state es"
proof (induction es arbitrary: st)
  case Nil
  then show ?case by (simp add: append_all_def)
next
  case (Cons e es)
  let ?f = "seal (get_audit_trail cid st) (next_sequence st) e"
  have e: "get_audit_trail cid (append_audit e st) = get_audit_trail cid st @ [?f]"
    using trail_append_same [of e st] Cons.prems by simp
  obtain fs where "get_audit_trail cid (append_all es (append_audit e st)) = get_audit_trail cid (append_audit e st) @ fs"
      "map to_state fs = map to_state es"
    using Cons.IH [of "append_audit e st"] Cons.prems by auto
  with e show ?case by (intro exI [of _ "?f # fs"]) (simp add: append_all_def)
qed

lemma send_notice_delivers:
  assumes "service_run cfg s" and "config_profile (config cfg) = Demo" and "schedule_ready (config cfg)"
    and "\<not> is_dnd_hour (clock_now (clk s) (w 0))" and "get_case cid (store s) = Inr c" and "state c = NOTICE_PENDING"
    and "dict_get (decisions (store s)) (cid, retries_used c + 1) = None"
  obtains s' d es where "send_notice cfg w draw cid s = (s', Inr (Case_status cid RETRY_SCHEDULED))"
    and "get_case cid (store s') = Inr (c\<lparr>state := RETRY_SCHEDULED\<rparr>)"
    and "decisions (store s') = dict_set (cid, retries_used c + 1) d (decisions (store s))"
    and "decision_key d = (cid, retries_used c + 1)" and "outcome d = Pending"
    and "distress s' = distress s" and "cluster s' = cluster s" and "clk s' = clk s"
    and "\<not> in_blackout (config cfg) (rd_scheduled_at d)"
    and "clock_now (clk s) (w 2) + notice_lead_time (npci (config cfg)) \<le> rd_scheduled_at d"
    and "rd_scheduled_at d < schedule_floor (config cfg) (retries_used c) (clock_now (clk s) (w 2)) None
           + max_schedule_window (self_imposed (config cfg)) + usec_per_day"
    and "get_audit_trail cid (store s') = get_audit_trail cid (store s) @ es"
    and "map to_state es = [NOTICE_SENT, RETRY_SCHEDULED]"
proof -
  note ok = run_store_ok [OF assms(1)]
  have valid: "valid_clock (clk s)" using run_reachable [OF assms(1)] by simp
  have id: "case_id c = cid" and used: "0 \<le> retries_used c"
    using store_okD(1,2) [OF ok assms(5)] by (auto simp: recovery_case_ok_def)
  let ?pick = "Some (suggest_from (bandit s) draw)"
  let ?c = "c\<lparr>state := RETRY_SCHEDULED\<rparr>"
  obtain sched why where
    sched: "compute_scheduled_at (config cfg) (clk s) (retries_used c) None (clock_now (clk s) (w 2)) None ?pick = Inr (sched, why)"
    and m: "mark_notice_sent c (config cfg) (clk s) (w 1) (w 2) None None ?pick =
        (?c, Inr ([agent_entry c NOTICE_PENDING NOTICE_SENT ''notice_sent'' (clock_now (clk s) (w 1)),
               (agent_entry c NOTICE_SENT RETRY_SCHEDULED ''schedule_retry'' (clock_now (clk s) (w 1)))
                  \<lparr>ae_scheduled_at := Some sched\<rparr>],
              \<lparr>rd_case_id = case_id c, rd_attempt_number = retries_used c + 1, rd_scheduled_at = sched,
               reasoning = why, rd_commit_backend = Postgres_outbox,
               commit_ref = ''retry-'' @ case_id c @ ''-'' @ py_str_int (retries_used c + 1),
               executed_at = None, outcome = Pending\<rparr>))" (is "_ = (_, Inr (?es, ?d))")
    using mark_notice_sent_ok [OF assms(6) used assms(3) valid chooser_ok_suggest, of None "w 2" None "bandit s" draw "w 1"]
    by blast
  have legal: "\<not> in_blackout (config cfg) sched" "clock_now (clk s) (w 2) + notice_lead_time (npci (config cfg)) \<le> sched"
    "sched < schedule_floor (config cfg) (retries_used c) (clock_now (clk s) (w 2)) None
       + max_schedule_window (self_imposed (config cfg)) + usec_per_day"
    using compute_scheduled_at_legal [OF assms(3) valid used chooser_ok_suggest, of None "clock_now (clk s) (w 2)" None "bandit s" draw]
      schedule_floor_ge(1) [OF assms(3), of "clock_now (clk s) (w 2)" "retries_used c" None]
      sched by auto
  have "unsealed ?es" by simp
  note wb = moved_writes(1) [OF ok assms(5) case_move.notice [OF chooser_ok_suggest m] this]
  let ?s1 = "append_entries ?es (mutate ?c s)"
  have fresh: "dict_get (decisions (store ?s1)) (decision_key ?d) = None"
    using assms(7) id by (simp add: decision_key_def mutate_def append_all_def append_audit_def Let_def)
  define s2 where "s2 = ?s1\<lparr>store := (store ?s1)\<lparr>decisions := dict_set (decision_key ?d) ?d (decisions (store ?s1))\<rparr>\<rparr>"
  have ro: "record_optional (Some ?d) ?s1 = (s2, Inr ())"
    using fresh by (simp add: record_optional_def with_store_def record_retry_decision_def s2_def del: append_entries_sel)
  have done_: "send_notice cfg w draw cid s = (s2, Inr (Case_status cid RETRY_SCHEDULED))"
    using assms(2,4-6) m wb ro id by (simp add: send_notice_def demo_only_def del: append_entries_sel)
  have dec: "decisions (store s2) = dict_set (cid, retries_used c + 1) ?d (decisions (store s))"
    using id by (simp add: s2_def decision_key_def mutate_def append_all_def append_audit_def Let_def)
  have frame: "distress s2 = distress s" "cluster s2 = cluster s" "clk s2 = clk s"
    by (simp_all add: s2_def mutate_def append_entries_def)
  have stored: "get_case cid (store s2) = Inr ?c"
    using id by (simp add: s2_def get_case_def mutate_def)
  have "get_audit_trail cid (store s2) = get_audit_trail cid (append_all ?es (store s))"
    by (simp add: s2_def get_audit_trail_def mutate_def append_all_def append_audit_def Let_def)
  moreover have "\<exists>fs. get_audit_trail cid (append_all ?es (store s)) = get_audit_trail cid (store s) @ fs
      \<and> map to_state fs = [NOTICE_SENT, RETRY_SCHEDULED]"
    using append_all_trail [of ?es cid "store s"] id by simp
  ultimately obtain fs where "get_audit_trail cid (store s2) = get_audit_trail cid (store s) @ fs"
      "map to_state fs = [NOTICE_SENT, RETRY_SCHEDULED]" by auto
  from this show ?thesis
    using id by (intro that [OF done_ stored dec _ _ frame]) (simp_all add: decision_key_def legal)
qed

text \<open>
  C12. The notice endpoint delivers.  In the demo profile, outside the do-not-disturb hours, for a stored
  case whose notice is pending and whose next attempt has no decision yet, under a well-formed
  configuration, the request always succeeds: the case is stored as scheduled, the decision is stored
  under the next attempt, its instant is outside the blackout and at least the lead time after the
  reading at which it was computed, and the two steps are appended to the trail.
\<close>

theorem notice_endpoint_delivers:
  assumes "service_run cfg s" and "config_profile (config cfg) = Demo" and "schedule_ready (config cfg)"
    and "\<not> is_dnd_hour (clock_now (clk s) (w 0))" and "get_case cid (store s) = Inr c" and "state c = NOTICE_PENDING"
    and "dict_get (decisions (store s)) (cid, retries_used c + 1) = None"
  shows "\<exists>s' d es. send_notice cfg w draw cid s = (s', Inr (Case_status cid RETRY_SCHEDULED))
     \<and> get_case cid (store s') = Inr (c\<lparr>state := RETRY_SCHEDULED\<rparr>)
     \<and> get_retry_decision cid (retries_used c + 1) (store s') = Inr d
     \<and> \<not> in_blackout (config cfg) (rd_scheduled_at d)
     \<and> clock_now (clk s) (w 2) + notice_lead_time (npci (config cfg)) \<le> rd_scheduled_at d
     \<and> get_audit_trail cid (store s') = get_audit_trail cid (store s) @ es
     \<and> map to_state es = [NOTICE_SENT, RETRY_SCHEDULED]"
  by (rule send_notice_delivers [where w = w and draw = draw, OF assms]) (fastforce simp: get_retry_decision_def)

section \<open>Executions\<close>

lemma apply_effect_executes:
  fixes cfg :: "'c settings" and s :: "'c service"
  assumes "store_ok (store s)" and "get_case cid (store s) = Inr c" and "use_etcd cfg" and "state c \<noteq> RETRY_EXECUTED"
  shows "\<exists>s'. apply_effect wall c (effect_value cid n t) s = (s', Inr (c\<lparr>state := RETRY_EXECUTED\<rparr>))
     \<and> s' = append_entries [effect_entry (c\<lparr>state := RETRY_EXECUTED\<rparr>) (clock_now (clk s) wall)] (mutate (c\<lparr>state := RETRY_EXECUTED\<rparr>) s)"
proof -
  have "state_name (state c) \<noteq> ''RETRY_EXECUTED''" using assms(4) by (cases "state c") simp_all
  moreover have "state_of_value (PStr ''RETRY_EXECUTED'') = Inr RETRY_EXECUTED" by (simp add: enum_case_state_def)
  moreover have "unsealed [effect_entry (c\<lparr>state := RETRY_EXECUTED\<rparr>) (clock_now (clk s) wall)]" by (simp add: effect_entry_def)
  note moved_writes(1) [OF assms(1,2) case_move.applied [OF assms(3)] this]
  ultimately show ?thesis by (simp add: apply_effect_def effect_value_def Let_def)
qed

text \<open>
  C4. An execution that succeeds was due and approved: the case was scheduled, its instrument not in
  distress, the decision is the first pending one of the case and its instant had come, and the etcd
  transaction for the attempt's key won; afterwards the case is stored as executed.
\<close>

theorem execution_was_due_and_approved:
  assumes "service_run cfg s" and "execute_retry cfg w cid s = (s', Inr resp)"
  shows "\<exists>c d ds. get_case cid (store s) = Inr c \<and> state c = RETRY_SCHEDULED
     \<and> \<not> is_distressed (distress s) (instrument_id c) (clock_now (clk s) (w 0))
     \<and> filter (\<lambda>d. rd_case_id d = cid) (get_pending_retries (store s)) = d # ds
     \<and> rd_scheduled_at d \<le> clock_now (clk s) (w 1)
     \<and> use_etcd cfg
     \<and> (\<exists>value. etcd_transaction cfg (cluster s) (key_for (cid, rd_attempt_number d)) value = (cluster s', Inr True))
     \<and> resp = Case_status cid RETRY_EXECUTED
     \<and> get_case cid (store s') = Inr (c\<lparr>state := RETRY_EXECUTED\<rparr>)"
proof -
  note ok = run_store_ok [OF assms(1)]
  obtain c where c: "get_case cid (store s) = Inr c" "state c = RETRY_SCHEDULED"
      "\<not> is_distressed (distress s) (instrument_id c) (clock_now (clk s) (w 0))"
    and rest: "(case filter (\<lambda>d. rd_case_id d = cid) (get_pending_retries (store s)) of
                    [] \<Rightarrow> (s, Inl (HTTPException 409))
                  | decision # _ \<Rightarrow>
                      if clock_now (clk s) (w 1) < rd_scheduled_at decision then (s, Inl (HTTPException 409))
                      else execute_decision cfg w cid c decision s) = (s', Inr resp)"
    using assms(2)
    by (cases "get_case cid (store s)")
      (auto simp: execute_retry_def demo_only_def Let_def split: if_splits elim!: andthen_InrE)
  from rest obtain d ds where d: "filter (\<lambda>d. rd_case_id d = cid) (get_pending_retries (store s)) = d # ds"
      "rd_scheduled_at d \<le> clock_now (clk s) (w 1)" "execute_decision cfg w cid c d s = (s', Inr resp)"
    by (auto split: list.splits if_splits)
  have id: "case_id c = cid" by (rule store_okD(1) [OF ok c(1)])
  let ?t = "clock_now (clk s) (w 2)" and ?n = "rd_attempt_number d"
  from d(3) obtain s1 won where ce: "commit_effect cfg (w 3) cid ?n ?t s = (s1, Inr won)"
    and after: "(if \<not> won
         then andthen (reconcile_case cfg (\<lambda>k. w (k + 4)) cid s1) (\<lambda>s _. (s, Inl (HTTPException 409)))
         else andthen (apply_effect (w 4) c (effect_value cid ?n ?t) s1) (\<lambda>s c.
              andthen (with_store (update_retry_decision d) s) (\<lambda>s _.
                (s, Inr (Case_status (case_id c) (state c)))))) = (s', Inr resp)"
    unfolding execute_decision_def Let_def by (elim andthen_InrE) simp
  have won: won using after by (auto elim!: andthen_InrE split: if_splits)
  note f = commit_effect_frame [OF ce]
  from won f(3) have etcd: "use_etcd cfg" by simp
  from ok f(1) c(1) have "store_ok (store s1)" "get_case cid (store s1) = Inr c" by simp_all
  from apply_effect_executes [OF this etcd, of "w 4" ?n ?t] c(2) obtain s2 where
    ae: "apply_effect (w 4) c (effect_value cid ?n ?t) s1 = (s2, Inr (c\<lparr>state := RETRY_EXECUTED\<rparr>))"
    and s2: "get_case cid (store s2) = Inr (c\<lparr>state := RETRY_EXECUTED\<rparr>)" "cluster s2 = cluster s1"
    using id by auto
  from after won ae have upd: "with_store (update_retry_decision d) s2 = (s', Inr ())" and resp: "resp = Case_status cid RETRY_EXECUTED"
    using id by (auto elim!: andthen_InrE)
  then have "get_case cid (store s') = Inr (c\<lparr>state := RETRY_EXECUTED\<rparr>)" "cluster s' = cluster s1"
    using s2 by (auto simp: with_store_def update_retry_decision_def get_case_def split: sum.splits if_splits)
  moreover from ce won etcd have "etcd_transaction cfg (cluster s) (key_for (cid, ?n)) (effect_text cid ?n ?t) = (cluster s1, Inr True)"
    by (auto simp: commit_effect_def etcd_commit_effect_def split: prod.splits)
  ultimately show ?thesis using c d(1,2) etcd resp
    by (intro exI [of _ c] exI [of _ d] exI [of _ ds]) auto
qed

lemma scheduled_retry_executes:
  assumes "service_run cfg s" and "config_profile (config cfg) = Demo" and "use_etcd cfg"
    and "get_case cid (store s) = Inr c" and "state c = RETRY_SCHEDULED"
    and "\<not> is_distressed (distress s) (instrument_id c) (clock_now (clk s) (w 0))"
    and "filter (\<lambda>d. rd_case_id d = cid) (get_pending_retries (store s)) = d # ds"
    and "rd_scheduled_at d \<le> clock_now (clk s) (w 1)"
    and "etcd_transaction cfg (cluster s) (key_for (cid, rd_attempt_number d))
           (effect_text cid (rd_attempt_number d) (clock_now (clk s) (w 2))) = (cl, Inr True)"
  obtains s' e where "execute_retry cfg w cid s = (s', Inr (Case_status cid RETRY_EXECUTED))" and "cluster s' = cl"
    and "get_case cid (store s') = Inr (c\<lparr>state := RETRY_EXECUTED\<rparr>)"
    and "get_audit_trail cid (store s') = get_audit_trail cid (store s) @ [e]" and "to_state e = RETRY_EXECUTED"
proof -
  note ok = run_store_ok [OF assms(1)]
  have id: "case_id c = cid" by (rule store_okD(1) [OF ok assms(4)])
  let ?t = "clock_now (clk s) (w 2)" and ?n = "rd_attempt_number d" and ?c = "c\<lparr>state := RETRY_EXECUTED\<rparr>"
  let ?s1 = "s\<lparr>cluster := cl\<rparr>"
  let ?e = "effect_entry ?c (clock_now (clk s) (w 4))"
  have ce: "commit_effect cfg (w 3) cid ?n ?t s = (?s1, Inr True)"
    using assms(3,9) by (simp add: commit_effect_def etcd_commit_effect_def)
  define s2 where "s2 = append_entries [?e] (mutate ?c ?s1)"
  have ae: "apply_effect (w 4) c (effect_value cid ?n ?t) ?s1 = (s2, Inr ?c)"
    using apply_effect_executes [of ?s1 cid c cfg "w 4" ?n ?t] ok assms(3-5) by (simp add: s2_def)
  have "decisions (store s2) = decisions (store s)"
    by (simp add: s2_def mutate_def append_all_def append_audit_def Let_def)
  then obtain st where st: "update_retry_decision d (store s2) = Inr st" and same: "cases st = cases (store s2)"
      "audit_logs st = audit_logs (store s2)"
    using pending_is_stored [OF ok assms(7)] by (simp add: update_retry_decision_def)
  have "execute_decision cfg w cid c d s = (s2\<lparr>store := st\<rparr>, Inr (Case_status cid RETRY_EXECUTED))"
    using ce ae st id by (simp add: execute_decision_def Let_def with_store_def)
  with assms(2,4-8) have exe: "execute_retry cfg w cid s = (s2\<lparr>store := st\<rparr>, Inr (Case_status cid RETRY_EXECUTED))"
    by (simp add: execute_retry_def demo_only_def)
  have "get_case cid st = Inr ?c" using same(1) id by (simp add: s2_def get_case_def mutate_def append_all_def append_audit_def Let_def)
  moreover have "get_audit_trail cid st = get_audit_trail cid (store s2)" using same(2) by (simp add: get_audit_trail_def)
  moreover have "get_audit_trail cid (store (mutate ?c ?s1)) = get_audit_trail cid (store s)"
    by (simp add: mutate_def get_audit_trail_def)
  then have "get_audit_trail cid (store s2) = get_audit_trail cid (store s)
      @ [seal (get_audit_trail cid (store s)) (next_sequence (store (mutate ?c ?s1))) ?e]"
    using trail_append_same [of ?e "store (mutate ?c ?s1)"] id by (simp add: s2_def append_all_def effect_entry_def)
  moreover have "to_state (seal (get_audit_trail cid (store s)) (next_sequence (store (mutate ?c ?s1))) ?e) = RETRY_EXECUTED"
    by (simp add: effect_entry_def)
  moreover have "cluster s2 = cl" by (simp add: s2_def mutate_def append_entries_def)
  ultimately show ?thesis using exe by (intro that [OF exe, where e = "seal (get_audit_trail cid (store s)) (next_sequence (store (mutate ?c ?s1))) ?e"]) simp_all
qed

text \<open>
  C5. A due retry gets executed.  In the demo profile with etcd, for a stored case that is scheduled and
  whose instrument is not in distress, if the first pending decision of the case is due and the etcd
  transaction on its attempt's key succeeds, the request answers with RETRY_EXECUTED, the case is stored
  in that state, one entry is appended to its trail, and the cluster is the one the transaction left.
\<close>

theorem due_retry_executes:
  assumes "service_run cfg s" and "config_profile (config cfg) = Demo" and "use_etcd cfg"
    and "get_case cid (store s) = Inr c" and "state c = RETRY_SCHEDULED"
    and "\<not> is_distressed (distress s) (instrument_id c) (clock_now (clk s) (w 0))"
    and "filter (\<lambda>d. rd_case_id d = cid) (get_pending_retries (store s)) = d # ds"
    and "rd_scheduled_at d \<le> clock_now (clk s) (w 1)"
    and "etcd_transaction cfg (cluster s) (key_for (cid, rd_attempt_number d))
           (effect_text cid (rd_attempt_number d) (clock_now (clk s) (w 2))) = (cl, Inr True)"
  shows "\<exists>s' e. execute_retry cfg w cid s = (s', Inr (Case_status cid RETRY_EXECUTED)) \<and> cluster s' = cl
     \<and> get_case cid (store s') = Inr (c\<lparr>state := RETRY_EXECUTED\<rparr>)
     \<and> get_audit_trail cid (store s') = get_audit_trail cid (store s) @ [e] \<and> to_state e = RETRY_EXECUTED"
  by (rule scheduled_retry_executes [where w = w, OF assms]) blast

end
