(* ===== verification/Queries.thy ===== *)
theory Queries
  imports Endpoint_Properties Export_Verifier Verifier
begin

text \<open>
  The endpoints of \<^verbatim>\<open>app/main.py\<close> that only read: case listing, receipt, compliance verdicts, explanations,
  the public compliance oracle and the dashboard.  Rates are exact quotients.
\<close>

section \<open>Cases\<close>

record case_row =
  row_case_id :: string
  row_mandate_id :: string
  row_state :: case_state
  row_bucket :: "bucket_name option"
  row_amount :: int
  row_retries :: int

definition list_cases_endpoint :: "'c service \<Rightarrow> case_row list" where
  "list_cases_endpoint s =
     map (\<lambda>c. \<lparr>row_case_id = case_id c, row_mandate_id = mandate_id c, row_state = state c, row_bucket = bucket c,
              row_amount = original_amount c, row_retries = retries_used c\<rparr>)
       (Case_Store.list_cases (store s))"

definition case_receipt ::
  "string \<Rightarrow> 'c service \<Rightarrow> (string \<times> case_state \<times> bucket_name option \<times> int \<times> (string \<times> pyval) list list) result" where
  "case_receipt cid s =
     bindR (get_case cid (store s)) (\<lambda>c.
       Inr (case_id c, state c, bucket c, original_amount c, map receipt_row (get_audit_trail cid (store s))))"

definition verify_case :: "'c settings \<Rightarrow> string \<Rightarrow> 'c service \<Rightarrow> (verification_result list \<times> bool) result" where
  "verify_case cfg cid s =
     bindR (get_case cid (store s)) (\<lambda>c.
     bindR (verify_case_compliance c (get_audit_trail cid (store s)) (config cfg)) (\<lambda>results.
       Inr (results, list_all snd results)))"

section \<open>Explanations\<close>

text \<open>
  \<open>llm\<close> is the configured language model, which answers a prompt with a text or with nothing (also when
  the call fails or none is configured).  The arrow between the states is the Unicode arrow of the source,
  here passed as \<open>arrow\<close>.
\<close>

definition prompt_line :: "audit_entry \<Rightarrow> string" where
  "prompt_line e =
     (case sequence_id e of None \<Rightarrow> ''None'' | Some n \<Rightarrow> py_str_int n) @ '': '' @ isoformat (timestamp e) @ '' ''
     @ state_name (from_state e) @ ''->'' @ state_name (to_state e)
     @ '' rule='' @ rule_fired e @ '' v'' @ py_str_int (rule_version e)"

fun newline_join :: "string list \<Rightarrow> string" where
  "newline_join [] = []"
| "newline_join [l] = l"
| "newline_join (l # ls) = l @ CHR 0x0A # newline_join ls"

definition build_prompt :: "audit_entry list \<Rightarrow> string" where
  "build_prompt es =
     newline_join (''Explain the following payment recovery case based only on the audit trail:'' # map prompt_line es)"

definition explain_entries :: "string \<Rightarrow> (string \<Rightarrow> string option) \<Rightarrow> audit_entry list \<Rightarrow> string" where
  "explain_entries arrow llm es =
     (if \<not> verify_chain_integrity es then ''Cannot explain: audit trail failed integrity verification.''
      else case llm (build_prompt es) of
        Some (c # cs) \<Rightarrow> c # cs
      | _ \<Rightarrow> newline_join (''Case audit summary:''
               # map (\<lambda>e. state_name (from_state e) @ '' '' @ arrow @ '' '' @ state_name (to_state e)
                          @ '' because of '' @ rule_fired e) es))"

definition explain_endpoint :: "string \<Rightarrow> (string \<Rightarrow> string option) \<Rightarrow> string \<Rightarrow> 'c service \<Rightarrow> string" where
  "explain_endpoint arrow llm cid s =
     (let es = get_audit_trail cid (store s)
      in if es = [] then ''No audit entries available.'' else explain_entries arrow llm es)"

section \<open>The compliance oracle\<close>

text \<open>\<^verbatim>\<open>max(config.rails, key=...)\<close>: the first key with the largest value; an empty dictionary raises.\<close>

fun max_key :: "string \<Rightarrow> rat \<Rightarrow> (string, rat) dict \<Rightarrow> string" where
  "max_key best v [] = best"
| "max_key best v ((k, u) # rs) = (if u > v then max_key k u rs else max_key best v rs)"

definition best_rail :: "(string, rat) dict \<Rightarrow> string result" where
  "best_rail rs = (case rs of [] \<Rightarrow> Inl ValueError | (k, v) # rest \<Rightarrow> Inr (max_key k v rest))"

record compliance_answer =
  allowed :: bool
  answer_class :: decline_class
  advisory_technical_probability :: rat
  suggested_rail :: string
  next_eligible_at :: "datetime option"

definition compliance_check ::
  "'c settings \<Rightarrow> datetime \<Rightarrow> string \<Rightarrow> string option \<Rightarrow> 'c service \<Rightarrow> compliance_answer result" where
  "compliance_check cfg wall rcode ereason s =
     (let (cls, retryable) = classify_failure (config cfg) (Some rcode) ereason;
          now = clock_now (clk s) wall
      in bindR (best_rail (rails (config cfg))) (\<lambda>rail.
           Inr \<lparr>allowed = retryable, answer_class = cls,
                advisory_technical_probability = (if cls = Technical then 8 / 10 else 1 / 10),
                suggested_rail = rail,
                next_eligible_at = (if retryable then Some (now + notice_lead_time (npci (config cfg))) else None)\<rparr>))"

definition bandit_suggest :: "rat \<times> nat \<Rightarrow> 'c service \<Rightarrow> (string \<times> rat) result" where
  "bandit_suggest draw s =
     bindR (suggest (bandit s) draw) (\<lambda>slot. Inr (slot, estimated_success_rate (bandit s) slot))"

section \<open>The dashboard\<close>

record metrics =
  agent_recovered_count :: int
  agent_recovered_paise :: int
  human_recovered_count :: int
  human_recovered_paise :: int
  control_recovered_count :: int
  control_recovered_paise :: int
  control_still_failed_count :: int
  at_risk_count :: int
  escalated_count :: int
  treatment_recovery_rate :: rat
  control_recovery_rate :: rat
  incremental_recovery_rate :: rat

definition count_if :: "(recovery_case \<Rightarrow> bool) \<Rightarrow> recovery_case list \<Rightarrow> int" where
  "count_if P cs = int (length (filter P cs))"

definition paise_if :: "(recovery_case \<Rightarrow> bool) \<Rightarrow> recovery_case list \<Rightarrow> int" where
  "paise_if P cs = sum_list (map original_amount (filter P cs))"

definition agent_recovered :: "recovery_case \<Rightarrow> bool" where
  "agent_recovered c \<longleftrightarrow> bucket c = Some Treatment \<and> state c = RECOVERED"

definition human_recovered :: "recovery_case \<Rightarrow> bool" where
  "human_recovered c \<longleftrightarrow> resolution_note c = Some Recovered_manually"

definition control_recovered :: "recovery_case \<Rightarrow> bool" where
  "control_recovered c \<longleftrightarrow> bucket c = Some Control \<and> control_outcome c = Some Recovered_naturally"

definition control_failed :: "recovery_case \<Rightarrow> bool" where
  "control_failed c \<longleftrightarrow> bucket c = Some Control \<and> control_outcome c = Some Still_failed"

definition at_risk :: "recovery_case \<Rightarrow> bool" where
  "at_risk c \<longleftrightarrow> state c \<in> {NOTICE_PENDING, RETRY_SCHEDULED, THROTTLED}"

definition rate_over :: "int \<Rightarrow> int \<Rightarrow> rat" where
  "rate_over n m = (if m = 0 then 0 else of_int n / of_int m)"

definition dashboard_metrics :: "'c service \<Rightarrow> metrics" where
  "dashboard_metrics s =
     (let cs = Case_Store.list_cases (store s);
          treatment_rate = rate_over (count_if agent_recovered cs) (count_if (\<lambda>c. bucket c = Some Treatment) cs);
          control_rate = rate_over (count_if control_recovered cs) (count_if (\<lambda>c. bucket c = Some Control) cs)
      in \<lparr>agent_recovered_count = count_if agent_recovered cs, agent_recovered_paise = paise_if agent_recovered cs,
          human_recovered_count = count_if human_recovered cs, human_recovered_paise = paise_if human_recovered cs,
          control_recovered_count = count_if control_recovered cs, control_recovered_paise = paise_if control_recovered cs,
          control_still_failed_count = count_if control_failed cs,
          at_risk_count = count_if at_risk cs, escalated_count = count_if (\<lambda>c. state c = ESCALATED) cs,
          treatment_recovery_rate = treatment_rate, control_recovery_rate = control_rate,
          incremental_recovery_rate = treatment_rate - control_rate\<rparr>)"

section \<open>What the dashboard counts\<close>

text \<open>The outcome fields agree with the state.\<close>

definition booked :: "recovery_case \<Rightarrow> bool" where
  "booked c \<longleftrightarrow> idle c
     \<and> (resolution_note c \<noteq> None \<longrightarrow> state c = RESOLVED_BY_HUMAN)
     \<and> control_outcome c = (case state c of CONTROL_HELD \<Rightarrow> Some Unknown | CONTROL_RECOVERED \<Rightarrow> Some Recovered_naturally
          | CONTROL_STILL_FAILED \<Rightarrow> Some Still_failed | _ \<Rightarrow> None)"

lemma booked_treatment: "booked c \<Longrightarrow> bucket c \<noteq> Some Control \<Longrightarrow> control_outcome c = None"
  by (cases "state c") (auto simp: booked_def idle_def split: if_splits)

lemma booked_move:
  assumes "\<not> use_etcd cfg" and "booked c" and "case_move cfg ck c c'"
  shows "booked c'"
proof -
  have i: "idle c'" using idle_move [OF assms(1) _ assms(3)] assms(2) by (simp add: booked_def)
  have c: "idle c" using assms(2) by (simp add: booked_def)
  from assms(3) show ?thesis
  proof cases
    case (failure ev wall ev' es d)
    with i c assms(2) show ?thesis
      by (auto simp: booked_def idle_def handle_existing_failure_def Let_def split: if_splits)
  next
    case (success sev wall es d)
    show ?thesis
    proof (cases "bucket c = Some Control")
      case True
      from success_control [OF success True] i assms(2) True c show ?thesis
        by (auto simp: booked_def idle_def split: if_splits)
    next
      case False
      have "resolution_note c' = resolution_note c \<and> (state c = RESOLVED_BY_HUMAN \<longrightarrow> c' = c)"
        using success by (auto simp: handle_payment_success_def Let_def split: if_splits)
      then consider "c' = c" | "resolution_note c = None" "resolution_note c' = None" using assms(2) by (auto simp: booked_def)
      then show ?thesis
      proof cases
        case 1
        with assms(2) show ?thesis by simp
      next
        case 2
        note t = success_treatment [OF success False]
        from t booked_treatment [OF assms(2) False] have "control_outcome c' = None" "control_outcome c = None" by simp_all
        with t 2 i assms(2) show ?thesis by (elim conjE disjE) (simp_all add: booked_def)
      qed
    qed
  next
    case (notice pick wall wall' rcode prev r)
    have "c' = c \<or> state c = NOTICE_PENDING \<and> (c' = c\<lparr>state := NOTICE_SENT\<rparr> \<or> c' = c\<lparr>state := RETRY_SCHEDULED\<rparr>)"
      using notice(2) by (cases r) (auto dest!: mark_notice_sent_Inl mark_notice_sent_Inr)
    with i assms(2) show ?thesis by (auto simp: booked_def)
  next
    case (released wall es)
    with i assms(2) show ?thesis by (auto simp: booked_def release_throttle_def split: if_splits)
  next
    case escalated
    with i assms(2) show ?thesis by (auto simp: booked_def)
  next
    case (resolved n)
    with i assms(2) show ?thesis by (auto simp: booked_def)
  next
    case applied
    with assms(1) show ?thesis by simp
  qed
qed

lemma booked_opened:
  assumes "handle_new_failure ev cfg ck wall = Inr (c, ev', es, d)"
  shows "booked c"
proof -
  obtain mid c0 where c0: "RecoveryCase (fe_case_id ev) mid (fe_instrument_id ev) (fe_amount ev)
      (clock_now ck wall) 0 RECEIVED = Inr c0"
    and rest: "opened_control c0 (clock_now ck wall) c es
        \<or> (\<exists>st rule. opened_treatment c0 (clock_now ck wall) st rule c es \<and> opening_choice cfg ev c0 st rule)"
    using handle_new_failure_cases [OF assms] by blast
  from c0 have "resolution_note c0 = None" "control_outcome c0 = None" by (auto simp: RecoveryCase_def split: if_splits)
  with rest idle_opened [OF assms] show ?thesis
    by (auto simp: opened_control_def opened_treatment_def opening_choice_def booked_def)
qed

lemma run_booked:
  assumes "service_run cfg s" and "\<not> use_etcd cfg"
  shows "all_cases booked (store s)"
  using assms(1)
proof (rule run_invariant_store)
  show "all_cases booked InMemoryCaseStore" by (simp add: all_cases_def get_case_def InMemoryCaseStore_def)
  fix ck st st' assume "tx cfg ck st st'" "all_cases booked st"
  then show "all_cases booked st'"
    by (rule tx_all_cases) (erule (1) booked_move [OF assms(2)], rule booked_opened)
qed

lemma listed_invariant: "store_ok st \<Longrightarrow> all_cases P st \<Longrightarrow> c \<in> set (Case_Store.list_cases st) \<Longrightarrow> P c"
  using listed_cases(1) by (fastforce simp: all_cases_def)

lemma count_if_Nil [simp]: "count_if P [] = 0"
  by (simp add: count_if_def)

lemma count_if_Cons [simp]: "count_if P (c # cs) = of_bool (P c) + count_if P cs"
  by (simp add: count_if_def)

lemma count_if_sum:
  "\<forall>c \<in> set cs. (\<Sum>P \<leftarrow> Ps. of_bool (P c)) \<le> (1 :: int) \<Longrightarrow> (\<Sum>P \<leftarrow> Ps. count_if P cs) \<le> int (length cs)"
proof (induction cs)
  case Nil
  then show ?case by (simp add: sum_list_0)
next
  case (Cons c cs)
  then show ?case by (simp add: sum_list_addf)
qed

lemma count_if_mono: "(\<And>c. P c \<Longrightarrow> Q c) \<Longrightarrow> 0 \<le> count_if P cs \<and> count_if P cs \<le> count_if Q cs"
  by (induction cs) (auto simp: of_bool_def)

lemma rate_over_unit: "0 \<le> n \<Longrightarrow> n \<le> m \<Longrightarrow> 0 \<le> rate_over n m \<and> rate_over n m \<le> 1"
  by (auto simp: rate_over_def divide_le_eq)

lemma paise_if_ge: "\<forall>c \<in> set cs. 0 < original_amount c \<Longrightarrow> count_if P cs \<le> paise_if P cs"
  by (induction cs) (auto simp: paise_if_def of_bool_def)

text \<open>
  C23. The dashboard books every case at most once.  In every state the service reaches without etcd, the
  recovered, escalated, at-risk and control counts together never exceed the number of stored cases, both
  recovery rates lie between 0 and 1, and every recovered case counts with at least one paisa.
\<close>

theorem dashboard_books_each_case_once:
  assumes "service_run cfg s" and "\<not> use_etcd cfg"
  shows "agent_recovered_count (dashboard_metrics s) + human_recovered_count (dashboard_metrics s)
       + control_recovered_count (dashboard_metrics s) + control_still_failed_count (dashboard_metrics s)
       + at_risk_count (dashboard_metrics s) + escalated_count (dashboard_metrics s)
       \<le> int (length (Case_Store.list_cases (store s)))
     \<and> 0 \<le> treatment_recovery_rate (dashboard_metrics s) \<and> treatment_recovery_rate (dashboard_metrics s) \<le> 1
     \<and> 0 \<le> control_recovery_rate (dashboard_metrics s) \<and> control_recovery_rate (dashboard_metrics s) \<le> 1
     \<and> agent_recovered_count (dashboard_metrics s) \<le> agent_recovered_paise (dashboard_metrics s)
     \<and> human_recovered_count (dashboard_metrics s) \<le> human_recovered_paise (dashboard_metrics s)
     \<and> control_recovered_count (dashboard_metrics s) \<le> control_recovered_paise (dashboard_metrics s)"
proof -
  let ?cs = "Case_Store.list_cases (store s)"
  note ok = run_store_ok [OF assms(1)]
  have booked: "booked c" if "c \<in> set ?cs" for c by (rule listed_invariant [OF ok run_booked [OF assms] that])
  let ?Ps = "[agent_recovered, human_recovered, control_recovered, control_failed, at_risk, \<lambda>c. state c = ESCALATED]"
  have "(\<Sum>P \<leftarrow> ?Ps. of_bool (P c)) \<le> (1 :: int)" if "c \<in> set ?cs" for c
    using booked [OF that]
    by (cases "state c")
      (auto simp: booked_def idle_def agent_recovered_def human_recovered_def control_recovered_def control_failed_def
        at_risk_def of_bool_def split: if_splits)
  then have "(\<Sum>P \<leftarrow> ?Ps. count_if P ?cs) \<le> int (length ?cs)" by (intro count_if_sum) blast
  moreover have "\<forall>c \<in> set ?cs. 0 < original_amount c"
    using listed_cases(1) [OF ok] store_okD(2) [OF ok] by (auto simp: recovery_case_ok_def)
  moreover have "0 \<le> count_if agent_recovered ?cs \<and> count_if agent_recovered ?cs \<le> count_if (\<lambda>c. bucket c = Some Treatment) ?cs"
    "0 \<le> count_if control_recovered ?cs \<and> count_if control_recovered ?cs \<le> count_if (\<lambda>c. bucket c = Some Control) ?cs"
    by (rule count_if_mono; simp add: agent_recovered_def control_recovered_def)+
  ultimately show ?thesis
    using rate_over_unit paise_if_ge by (simp add: dashboard_metrics_def Let_def)
qed

end
