(* ===== verification/Reconciliation.thy ===== *)
theory Reconciliation
  imports Endpoint_Properties
begin

text \<open>
  The commit log and the reconciliation with it.  The log keeps every effect ever committed, and the
  reconciliation applies an effect whenever the case's state differs from the effect's, whatever happened
  to the case since.
\<close>

text \<open>An entry of the log for a case, as the service wrote it.\<close>

definition logged_effect :: "'c settings \<Rightarrow> string \<Rightarrow> string \<Rightarrow> bool" where
  "logged_effect cfg cid v \<longleftrightarrow> (\<exists>n t. json_loads cfg v = Inr (effect_value cid n t))"

lemma reconcile_values_executes:
  fixes cfg :: "'c settings" and s :: "'c service"
  assumes "store_ok (store s)" and "use_etcd cfg" and "get_case cid (store s) = Inr c"
    and "vs \<noteq> []" and "\<forall>v \<in> set vs. logged_effect cfg cid v"
  shows "\<exists>s'. reconcile_values cfg w cid vs s = (s', Inr ()) \<and> cluster s' = cluster s
     \<and> get_case cid (store s') = Inr (c\<lparr>state := RETRY_EXECUTED\<rparr>)"
  using assms
proof (induction vs arbitrary: s c w)
  case Nil
  then show ?case by simp
next
  case (Cons v vs)
  from Cons.prems(5) obtain n t where v: "json_loads cfg v = Inr (effect_value cid n t)" by (auto simp: logged_effect_def)
  have id: "case_id c = cid" by (rule store_okD(1) [OF Cons.prems(1,3)])
  have "\<exists>s1 c1. apply_effect (w 0) c (effect_value cid n t) s = (s1, Inr c1) \<and> cluster s1 = cluster s
      \<and> get_case cid (store s1) = Inr (c\<lparr>state := RETRY_EXECUTED\<rparr>)"
  proof (cases "state c = RETRY_EXECUTED")
    case True
    then have "c\<lparr>state := RETRY_EXECUTED\<rparr> = c" by simp
    with True Cons.prems(3) show ?thesis by (simp add: apply_effect_def effect_value_def)
  next
    case False
    from apply_effect_executes [OF Cons.prems(1,3,2) False, of "w 0" n t] id show ?thesis by auto
  qed
  then obtain s1 c1 where a: "apply_effect (w 0) c (effect_value cid n t) s = (s1, Inr c1)" "cluster s1 = cluster s"
      "get_case cid (store s1) = Inr (c\<lparr>state := RETRY_EXECUTED\<rparr>)" by blast
  have head: "reconcile_values cfg w cid (v # vs) s = reconcile_values cfg (\<lambda>k. w (k + 1)) cid vs s1"
    using v Cons.prems(3) a(1) by simp
  show ?case
  proof (cases vs)
    case Nil
    with head a show ?thesis by simp
  next
    case (Cons v' vs')
    have "store_ok (store s1)" by (rule writes_ok [OF apply_effect_writes [OF Cons.prems(1,3,2) a(1)] Cons.prems(1)])
    from Cons.IH [OF this Cons.prems(2) a(3), of "\<lambda>k. w (k + 1)"] Cons Cons.prems(5)
    have "\<exists>s'. reconcile_values cfg (\<lambda>k. w (k + 1)) cid vs s1 = (s', Inr ()) \<and> cluster s' = cluster s1
       \<and> get_case cid (store s') = Inr ((c\<lparr>state := RETRY_EXECUTED\<rparr>)\<lparr>state := RETRY_EXECUTED\<rparr>)" by simp
    with head a(2) show ?thesis by simp
  qed
qed

text \<open>
  C21. A refused second retry is executed all the same.  When the first pending decision of a scheduled case
  has already been committed (which it has for ever, since no decision is ever closed), the request is
  answered 409, no new commit is made, and yet the reconciliation that follows marks the case as executed,
  on the strength of the effect committed for the earlier attempt.
\<close>

theorem refused_retry_is_executed:
  assumes "service_run cfg s" and "config_profile (config cfg) = Demo" and "use_etcd cfg"
    and "get_case cid (store s) = Inr c" and "state c = RETRY_SCHEDULED"
    and "\<not> is_distressed (distress s) (instrument_id c) (clock_now (clk s) (w 0))"
    and "filter (\<lambda>d. rd_case_id d = cid) (get_pending_retries (store s)) = d # ds"
    and "rd_scheduled_at d \<le> clock_now (clk s) (w 1)"
    and "\<And>v. etcd_transaction cfg (cluster s) (key_for (cid, rd_attempt_number d)) v = (cluster s, Inr False)"
    and "etcd_get_prefix cfg (cluster s) (commit_prefix @ cid @ ''/'') = Inr vs" and "vs \<noteq> []"
    and "\<forall>v \<in> set vs. logged_effect cfg cid v"
  shows "\<exists>s'. execute_retry cfg w cid s = (s', Inl (HTTPException 409)) \<and> cluster s' = cluster s
     \<and> get_case cid (store s') = Inr (c\<lparr>state := RETRY_EXECUTED\<rparr>)"
proof -
  note ok = run_store_ok [OF assms(1)]
  have ce: "commit_effect cfg (w 3) cid (rd_attempt_number d) (clock_now (clk s) (w 2)) s = (s, Inr False)"
    using assms(3,9) by (simp add: commit_effect_def etcd_commit_effect_def)
  obtain s' where r: "reconcile_values cfg (\<lambda>k. w (k + 4)) cid vs s = (s', Inr ())" "cluster s' = cluster s"
      "get_case cid (store s') = Inr (c\<lparr>state := RETRY_EXECUTED\<rparr>)"
    using reconcile_values_executes [OF ok assms(3,4,11,12)] by blast
  have "reconcile_case cfg (\<lambda>k. w (k + 4)) cid s = (s', Inr ())"
    using assms(3,10) r(1) by (simp add: reconcile_case_def swallow_def)
  with ce have "execute_decision cfg w cid c d s = (s', Inl (HTTPException 409))"
    by (simp add: execute_decision_def Let_def)
  with assms(2,4-8) r show ?thesis
    by (auto simp: execute_retry_def demo_only_def)
qed


end
