(* ===== verification/Simulation.thy ===== *)
theory Simulation
  imports Endpoint_Properties
begin

text \<open>
  The simulation endpoint has no check for payments it has already recorded.  Where the failure webhook is
  atomic, a repeated simulation is refused only after it has moved the stored case on.
\<close>

lemma parsed_simulation:
  assumes "pid \<noteq> []" and "vpa \<noteq> []" and "0 < amount" and "dict_get ns ''mandate_id'' = Some (PStr m)"
    and "0 \<le> created" and "created \<le> 253402300799" and "1 \<le> n" and "case_id c \<noteq> []"
  shows "\<exists>ev. parse_payment_failed (simulated_payload pid amount vpa code reason (Some ns) created) (Some c) (Some n) = Inr ev
     \<and> fe_payment_id ev = pid \<and> fe_case_id ev = case_id c \<and> attempt_number ev = n"
proof -
  have stamp: "fromtimestamp created = Inr (created * usec_per_second)"
    using assms(5,6) by (simp add: fromtimestamp_def)
  have ns: "py_or (PDict ns) (PDict []) = PDict ns" by (simp add: py_or_def)
  show ?thesis
    using assms(1-4,7,8)
    by (simp add: parse_payment_failed_def simulated_payload_entity positive_amount_def timestamp_of_def stamp
        resolve_attempt_def Let_def ns PaymentFailureEvent_def opt_text_field_of [of "Some m", simplified])
qed

lemma executed_case_moves:
  assumes "state c = RETRY_EXECUTED" and "handle_existing_failure c ev cfg ck wall = (c', ev', es, d)"
  shows "retries_used c' = retries_used c + 1" and "state c' \<in> {ESCALATED, NOTICE_PENDING}" and "case_id c' = case_id c"
    and "fe_payment_id ev' = fe_payment_id ev" and "\<exists>k. ev' = ev\<lparr>decline_class := k\<rparr>"
  using assms by (auto simp: handle_existing_failure_def Let_def split: if_splits)

text \<open>
  C24. A refused simulation uses up a retry.  In the demo profile, for a stored case whose retry has been
  executed, simulating a failure with a payment id that is already recorded answers 409; yet the stored
  case has used one more retry and has left the executed state, while neither its audit trail nor the
  recorded failures have changed.
\<close>

theorem refused_simulation_uses_retry:
  assumes "service_run cfg s" and "config_profile (config cfg) = Demo"
    and "pid \<noteq> []" and "vpa \<noteq> []" and "0 < amount" and "dict_get ns ''mandate_id'' = Some (PStr m)" and "m \<noteq> []"
    and "0 \<le> w 0 div usec_per_second" and "w 0 div usec_per_second \<le> 253402300799"
    and "find_case_by_mandate m (store s) = Some c" and "state c = RETRY_EXECUTED"
    and "find_attempt_by_payment_id pid (store s) = Some k"
  shows "\<exists>s' c'. simulate_failure cfg w pid amount vpa code reason (Some ns) s = (s', Inl (HTTPException 409))
     \<and> get_case (case_id c) (store s') = Inr c' \<and> retries_used c' = retries_used c + 1
     \<and> state c' \<in> {ESCALATED, NOTICE_PENDING}
     \<and> get_audit_trail (case_id c) (store s') = get_audit_trail (case_id c) (store s)
     \<and> failures (store s') = failures (store s)"
proof -
  note ok = run_store_ok [OF assms(1)]
  have get: "get_case (case_id c) (store s) = Inr c" by (rule find_case_stored [OF ok assms(10)])
  have "case_id c \<noteq> []" using store_okD(2) [OF ok get] by (simp add: recovery_case_ok_def)
  let ?n = "get_max_attempt_number (case_id c) (store s) + 1"
  let ?p = "simulated_payload pid amount vpa code reason (Some ns) (w 0 div usec_per_second)"
  have "1 \<le> ?n" 
    using max_attempt_bound [of 0 "case_id c" "map fst (failures (store s))"] by (simp add: get_max_attempt_number_def)
  from parsed_simulation [OF assms(3-6,8,9) this \<open>case_id c \<noteq> []\<close>, of code reason] obtain ev where
    ev: "parse_payment_failed ?p (Some c) (Some ?n) = Inr ev" "fe_payment_id ev = pid" "fe_case_id ev = case_id c"
    "attempt_number ev = ?n" by blast
  obtain c' ev' es d where h: "handle_existing_failure c ev (config cfg) (clk s) (w 1) = (c', ev', es, d)"
    by (cases "handle_existing_failure c ev (config cfg) (clk s) (w 1)") blast
  note moved = executed_case_moves [OF assms(11) h]
  have known: "with_store (update_case c') (mutate c' s) = (mutate c' s, Inr ())"
    using moved_writes(1) [OF ok get case_move.failure [OF h], of "[]"]
    by (auto simp: write_back_def append_entries_def append_all_def with_store_def split: sum.splits)
  have "record_failure ev' (store (mutate c' s)) = Inl FailureAlreadyRecordedError"
    using assms(12) moved(4) ev(2) by (simp add: record_failure_def Let_def mutate_def find_attempt_by_payment_id_def)
  then have "persist_failure cfg w' (Some c) c' ev' es d s = (mutate c' s, Inl FailureAlreadyRecordedError)" for w'
    using known by (simp add: persist_failure_def) (simp add: with_store_def)
  then have "process_failure cfg (\<lambda>k. w (k + 1)) ?p (Some c) s = (mutate c' s, Inl (HTTPException 409))"
    using ev(1) h by (simp add: process_failure_def handle_payment_failed_def raise_as_def is_store_error_def)
  then have "simulate_failure cfg w pid amount vpa code reason (Some ns) s = (mutate c' s, Inl (HTTPException 409))"
    using assms(2,6,7,10) by (simp add: simulate_failure_def demo_only_def Let_def case_of_mandate_def)
  moreover have "get_case (case_id c) (store (mutate c' s)) = Inr c'" using moved(3) by (simp add: mutate_def get_case_def)
  moreover have "get_audit_trail (case_id c) (store (mutate c' s)) = get_audit_trail (case_id c) (store s)"
    "failures (store (mutate c' s)) = failures (store s)"
    by (simp_all add: mutate_def get_audit_trail_def)
  ultimately show ?thesis using moved(1,2) by blast
qed

end
