(* ===== verification/Survival.thy ===== *)
theory Survival
  imports Complex_Main Prelude
begin

text \<open>
  The advisory estimator of \<^verbatim>\<open>app/core/survival.py\<close>.  Hours are floating-point numbers, represented by
  their exact values; the results of the float operations are rounded, so the sum of two floats is
  \<open>fl (x + y)\<close> and the quotient \<open>fl (x / y)\<close> for the rounding \<open>fl\<close> of the machine, and \<open>round1\<close> is the
  built-in \<^verbatim>\<open>round(x, 1)\<close>.
\<close>

definition recovery_times :: "(string \<times> rat list) list" where
  "recovery_times =
     [(''bank_server_down'', [2, 5, 8, 12, 24, 30, 48, 72, 100]),
      (''network_timeout'', [1, 3, 6, 10, 24, 36, 50, 72]),
      (''upi_timeout'', [2, 4, 7, 12, 24, 40, 60, 80]),
      (''insufficient_funds'', [24, 48, 72, 120, 168, 240, 336]),
      (''issuer_unavailable'', [1, 2, 4, 8, 24, 48, 72]),
      (''generic'', [5, 10, 20, 30, 50, 80, 120])]"

definition times_for :: "string \<Rightarrow> rat list" where
  "times_for rcode =
     (case dict_get recovery_times rcode of Some ts \<Rightarrow> ts | None \<Rightarrow> the (dict_get recovery_times ''generic''))"

definition estimate_recovery_probability :: "(rat \<Rightarrow> rat) \<Rightarrow> string \<Rightarrow> rat \<Rightarrow> rat" where
  "estimate_recovery_probability fl rcode elapsed_hours =
     (let ts = times_for rcode
      in fl (of_nat (length (filter (\<lambda>t. t \<le> elapsed_hours) ts)) / of_nat (length ts)))"

text \<open>The \<^verbatim>\<open>while\<close> loop, which need not end: no result is the value \<open>None\<close>.\<close>

partial_function (option) curve_loop ::
  "(rat \<Rightarrow> rat) \<Rightarrow> (rat \<Rightarrow> rat) \<Rightarrow> string \<Rightarrow> rat \<Rightarrow> rat \<Rightarrow> rat \<Rightarrow> (rat \<times> rat) list option" where
  "curve_loop fl round1 rcode max_hours step elapsed =
     (if elapsed \<le> max_hours
      then Option.bind (curve_loop fl round1 rcode max_hours step (fl (elapsed + step))) (\<lambda>points.
             Some ((round1 elapsed, estimate_recovery_probability fl rcode elapsed) # points))
      else Some [])"

definition survival_curve ::
  "(rat \<Rightarrow> rat) \<Rightarrow> (rat \<Rightarrow> rat) \<Rightarrow> string \<Rightarrow> rat \<Rightarrow> (rat \<times> rat) list option" where
  "survival_curve fl round1 rcode max_hours = curve_loop fl round1 rcode max_hours (fl (max_hours / 20)) 0"

section \<open>The estimate\<close>

lemma times_for_nonempty: "times_for rcode \<noteq> []"
proof -
  have listed: "\<forall>(k, ts) \<in> set recovery_times. ts \<noteq> []" by (simp add: recovery_times_def)
  have generic: "dict_get recovery_times ''generic'' = Some [5, 10, 20, 30, 50, 80, 120]" by (simp add: recovery_times_def)
  show ?thesis
  proof (cases "dict_get recovery_times rcode")
    case None
    with generic show ?thesis by (simp add: times_for_def)
  next
    case (Some ts)
    then have "(rcode, ts) \<in> set recovery_times" by (rule map_of_SomeD)
    with Some listed show ?thesis by (auto simp: times_for_def)
  qed
qed

lemma filter_le_mono: "x \<le> y \<Longrightarrow> length (filter (\<lambda>t. t \<le> x) ts) \<le> length (filter (\<lambda>t. t \<le> (y :: rat)) ts)"
  by (induction ts) auto

lemma estimate_bounds:
  assumes "mono fl" and "fl 0 = 0" and "fl 1 = 1"
  shows "0 \<le> estimate_recovery_probability fl rcode x" and "estimate_recovery_probability fl rcode x \<le> 1"
proof -
  let ?ts = "times_for rcode"
  let ?q = "of_nat (length (filter (\<lambda>t. t \<le> x) ?ts)) / of_nat (length ?ts) :: rat"
  have "of_nat (length (filter (\<lambda>t. t \<le> x) ?ts)) \<le> (of_nat (length ?ts) :: rat)" by simp
  moreover have "(0 :: rat) < of_nat (length ?ts)" using times_for_nonempty [of rcode] by simp
  ultimately have "?q \<le> 1" by (simp only: divide_le_eq_1_pos)
  moreover have "0 \<le> ?q" by simp
  ultimately have "0 \<le> ?q" "?q \<le> 1" by blast+
  then have "fl 0 \<le> fl ?q" "fl ?q \<le> fl 1" by (simp_all only: monoD [OF assms(1)])
  with assms(2,3) show "0 \<le> estimate_recovery_probability fl rcode x" "estimate_recovery_probability fl rcode x \<le> 1"
    by (simp_all add: estimate_recovery_probability_def Let_def)
qed

lemma estimate_mono:
  assumes "mono fl" and "x \<le> y"
  shows "estimate_recovery_probability fl rcode x \<le> estimate_recovery_probability fl rcode y"
proof -
  have "of_nat (length (filter (\<lambda>t. t \<le> x) (times_for rcode))) / of_nat (length (times_for rcode))
      \<le> (of_nat (length (filter (\<lambda>t. t \<le> y) (times_for rcode))) / of_nat (length (times_for rcode)) :: rat)"
    using filter_le_mono [OF assms(2)] by (intro divide_right_mono) (simp_all)
  with assms(1) show ?thesis by (simp add: estimate_recovery_probability_def Let_def monoD)
qed

section \<open>The curve\<close>

text \<open>
  While every addition makes progress of at least \<open>d\<close>, the loop ends within \<open>(max_hours - elapsed) / d\<close> rounds,
  and the points it lists are in order.
\<close>

lemma curve_loop_ends:
  assumes fl: "mono fl" "fl 0 = 0" "fl 1 = 1"
    and step: "0 < d" "\<And>x. 0 \<le> x \<Longrightarrow> x \<le> m \<Longrightarrow> x + d \<le> fl (x + step)"
    and "0 \<le> x" and "m < x + of_nat n * d"
  shows "\<exists>ps. curve_loop fl round1 rcode m step x = Some ps \<and> sorted (map snd ps)
     \<and> (\<forall>p \<in> set ps. estimate_recovery_probability fl rcode x \<le> snd p \<and> snd p \<le> 1)"
  using assms(6,7)
proof (induction n arbitrary: x)
  case 0
  then show ?case by (simp add: curve_loop.simps)
next
  case (Suc n)
  show ?case
  proof (cases "x \<le> m")
    case False
    then show ?thesis by (simp add: curve_loop.simps)
  next
    case True
    let ?y = "fl (x + step)" and ?p = "estimate_recovery_probability fl rcode"
    from True step(2) Suc.prems(1) have y: "x + d \<le> ?y" by blast
    then have "0 \<le> ?y" "x \<le> ?y" using step(1) Suc.prems(1) by linarith+
    moreover have "m < ?y + of_nat n * d"
      using Suc.prems(2) y by (simp add: algebra_simps)
    ultimately obtain ps where ps: "curve_loop fl round1 rcode m step ?y = Some ps" "sorted (map snd ps)"
        "\<forall>p \<in> set ps. ?p ?y \<le> snd p \<and> snd p \<le> 1"
      using Suc.IH by blast
    from True ps(1) have "curve_loop fl round1 rcode m step x = Some ((round1 x, ?p x) # ps)"
      by (subst curve_loop.simps) simp
    moreover have "?p x \<le> ?p ?y" by (rule estimate_mono [OF fl(1) \<open>x \<le> ?y\<close>])
    ultimately show ?thesis using ps(2,3) estimate_bounds(2) [OF fl, of rcode x] by force
  qed
qed

lemma curve_loop_stuck:
  assumes "x \<le> m" and "fl (x + step) = x"
  shows "curve_loop fl round1 rcode m step x = None"
proof (cases "curve_loop fl round1 rcode m step x")
  case (Some ps)
  then have "Option.bind (curve_loop fl round1 rcode m step x) (\<lambda>points.
      Some ((round1 x, estimate_recovery_probability fl rcode x) # points)) = Some ps"
    using assms by (subst (asm) curve_loop.simps) simp
  with Some show ?thesis by simp
qed



end
