(* ===== verification/Service_Samples.thy ===== *)
theory Service_Samples
  imports Endpoint_Properties Samples
begin

text \<open>
  A concrete service for the witnesses: the shipped configuration in the demo profile, a dictionary as the
  etcd cluster, and a body that parses to one simulated payload.  It receives one signed failure webhook.
\<close>

section \<open>A signed webhook\<close>

lemma ascii_hexdigest: "ascii (hexdigest bs)"
proof -
  have "ord_of (hex_digit n) < 128" if "n < 16" for n
    using that by (auto simp: hex_digit_def ord_of_def)
  moreover have "nat (uint b div 16) < 16" "nat (uint b mod 16) < 16" for b :: byte
    using uint_bounded [of b] by (simp_all add: nat_less_iff)
  ultimately show ?thesis
    by (auto simp: ascii_def hexdigest_def list_all_iff)
qed

definition signature_of :: "string \<Rightarrow> byte list \<Rightarrow> string option" where
  "signature_of secret body = Some (hexdigest (hmac_sha256 (utf8 secret) body))"

lemma own_signature_accepted:
  assumes "secret \<noteq> []"
  shows "verify_webhook_signature body (signature_of secret body) secret = Inr True"
proof -
  have "length (hexdigest (hmac_sha256 (utf8 secret) body)) = 64" by (simp add: hmac_sha256_def Let_def)
  then have "hexdigest (hmac_sha256 (utf8 secret) body) \<noteq> []" by (metis list.size(3) zero_neq_numeral)
  with assms show ?thesis
    by (simp add: verify_webhook_signature_def signature_of_def compare_digest_def ascii_hexdigest)
qed

definition sample_payload :: pyval where
  "sample_payload = simulated_payload ''p2'' 50000 ''a@upi'' ''network_timeout'' None (Some [(''mandate_id'', PStr ''m1'')]) 7"

definition sample_settings :: "profile_name \<Rightarrow> bool \<Rightarrow> (string, string) dict settings" where
  "sample_settings profile etcd =
     \<lparr>config = shipped_config profile, webhook_secret = ''s'', admin_token = ''t'', use_etcd = etcd,
      etcd_transaction = dict_txn,
      etcd_get_prefix = (\<lambda>cl p. Inr (map snd (filter (\<lambda>(k, v). py_startswith p k \<and> dict_get cl k = Some v) cl))),
      body_loads = (\<lambda>_. Inr sample_payload),
      json_loads = (\<lambda>t. if t = effect_text ''p2'' 1 (hours 400) then Inr (effect_value ''p2'' 1 (hours 400)) else Inl JSONDecodeError)\<rparr>"

definition sample_service :: "(string, string) dict \<Rightarrow> (string, string) dict service" where
  "sample_service cl =
     \<lparr>store = InMemoryCaseStore, committed = [], cluster = cl, distress = DistressDetector (hours 24) 3,
      bandit = RetrySlotBandit [''immediate'', ''24h'', ''72h''] (1 / 10), clk = AcceleratedClock 3600 0\<rparr>"

lemma sample_boot: "boot (sample_settings Demo etcd) cl = Inr (sample_service cl)"
  by (simp add: boot_def sample_settings_def wire_clock_def shipped_config_def mk_AcceleratedClock_def sample_service_def)

definition opened_case :: recovery_case where
  "opened_case =
     \<lparr>case_id = ''p2'', mandate_id = ''m1'', instrument_id = sha256_hex ''a@upi'', original_amount = 50000, opened_at = 0,
      retries_used = 0, state = NOTICE_PENDING, bucket = Some Treatment, control_outcome = None,
      control_observation_deadline = None, resolution_note = None\<rparr>"

definition opened_failure :: failure_event where
  "opened_failure =
     \<lparr>fe_case_id = ''p2'', fe_payment_id = ''p2'', attempt_number = 1, reason_code = Some ''network_timeout'',
      decline_class = Technical, fe_amount = 50000, received_at = 7000000, fe_mandate_id = Some ''m1'',
      fe_instrument_id = sha256_hex ''a@upi'', error_reason = None, error_source = Some ''issuer'',
      error_step = Some ''payment_authorization'', fe_notes = Some [(''mandate_id'', PStr ''m1'')]\<rparr>"

lemma sample_parses:
  "parse_payment_failed sample_payload None None = Inr (opened_failure\<lparr>decline_class := Unclassified\<rparr>)"
  by (simp add: parse_payment_failed_def sample_payload_def simulated_payload_entity positive_amount_def timestamp_of_def
      fromtimestamp_def resolve_attempt_def Let_def py_or_def PaymentFailureEvent_def opened_failure_def usec_per_second_def)

lemma sample_handled:
  "\<exists>es. handle_new_failure (opened_failure\<lparr>decline_class := Unclassified\<rparr>) (shipped_config Demo) (AcceleratedClock 3600 0) 0
     = Inr (opened_case, opened_failure, es, None) \<and> es \<noteq> [] \<and> (\<forall>e \<in> set es. ae_case_id e = ''p2'')"
proof -
  have cls: "classify_failure (shipped_config Demo) (Some ''network_timeout'') None = (Technical, True)" by code_simp
  have ceil: "afa_ceiling (shipped_config Demo) opened_failure = Inr 1500000"
    by (simp add: afa_ceiling_def shipped_config_def opened_failure_def)
  show ?thesis
    by (simp add: handle_new_failure_def sample_digest cls ceil [unfolded opened_failure_def] opened_failure_def opened_case_def
        RecoveryCase_def assign_bucket_def Let_def)
qed

text \<open>The webhook opens the case.\<close>

definition opened_store :: "audit_entry list \<Rightarrow> case_store" where
  "opened_store es = append_all es (InMemoryCaseStore
     \<lparr>cases := [(''p2'', opened_case)], mandate_index := [(''m1'', ''p2'')], payment_index := [(''p2'', ''p2'')],
      failures := [((''p2'', 1), opened_failure)], payment_attempt_index := [(''p2'', (''p2'', 1))]\<rparr>)"

definition opened_service :: "(string, string) dict \<Rightarrow> audit_entry list \<Rightarrow> (string, string) dict service" where
  "opened_service cl es = (sample_service cl)\<lparr>store := opened_store es,
     distress := record_failure_at (DistressDetector (hours 24) 3) (instrument_id opened_case) 0\<rparr>"

lemma sample_webhook:
  obtains es where "webhook_payment_failed (sample_settings Demo etcd) (\<lambda>_. 0) [] (signature_of ''s'' []) (sample_service cl)
     = (opened_service cl es, Inr (Recorded ''p2'' NOTICE_PENDING ''p2''))"
    and "es \<noteq> []" and "\<forall>e \<in> set es. ae_case_id e = ''p2''"
proof -
  obtain es where h: "handle_new_failure (opened_failure\<lparr>decline_class := Unclassified\<rparr>) (shipped_config Demo) (AcceleratedClock 3600 0) 0
     = Inr (opened_case, opened_failure, es, None)"
    and es: "es \<noteq> []" "\<forall>e \<in> set es. ae_case_id e = ''p2''" using sample_handled by blast
  have body: "signed_body (sample_settings Demo etcd) [] (signature_of ''s'' []) = Inr sample_payload"
    by (simp add: signed_body_def sample_settings_def own_signature_accepted raise_as_def)
  have entity: "\<exists>d. get_entity sample_payload = Inr (PDict d) \<and> dict_get d ''id'' = Some (PStr ''p2'')
      \<and> dict_get d ''notes'' = Some (PDict [(''mandate_id'', PStr ''m1'')])"
    by (simp add: get_entity_def sample_payload_def simulated_payload_def)
  have create: "create_case opened_case InMemoryCaseStore = Inr (InMemoryCaseStore
     \<lparr>cases := [(''p2'', opened_case)], mandate_index := [(''m1'', ''p2'')], payment_index := [(''p2'', ''p2'')]\<rparr>)"
    by (simp add: create_case_def Let_def index_mandate_def InMemoryCaseStore_def opened_case_def)
  have rec: "record_failure opened_failure (InMemoryCaseStore
     \<lparr>cases := [(''p2'', opened_case)], mandate_index := [(''m1'', ''p2'')], payment_index := [(''p2'', ''p2'')]\<rparr>)
     = Inr (InMemoryCaseStore
     \<lparr>cases := [(''p2'', opened_case)], mandate_index := [(''m1'', ''p2'')], payment_index := [(''p2'', ''p2'')],
      failures := [((''p2'', 1), opened_failure)], payment_attempt_index := [(''p2'', (''p2'', 1))]\<rparr>)"
    by (simp add: record_failure_def Let_def InMemoryCaseStore_def opened_failure_def)
  have persist: "persist_failure (sample_settings Demo etcd) (\<lambda>_. 0) None opened_case opened_failure es None (sample_service cl)
      = ((sample_service cl)\<lparr>store := opened_store es\<rparr>, Inr ())"
    by (simp add: persist_failure_def with_store_def create rec sample_service_def record_optional_def append_entries_def
        opened_store_def)
  have proc: "process_failure (sample_settings Demo etcd) (\<lambda>_. 0) sample_payload None (sample_service cl)
      = ((sample_service cl)\<lparr>store := opened_store es, distress := record_failure_at (distress (sample_service cl))
           (instrument_id opened_case) 0\<rparr>, Inr (opened_case, opened_failure))"
    using h persist
    by (simp add: process_failure_def sample_parses raise_as_def handle_payment_failed_def sample_settings_def)
      (simp add: sample_service_def)
  from entity obtain d where d: "get_entity sample_payload = Inr (PDict d)" "dict_get d ''id'' = Some (PStr ''p2'')"
      "dict_get d ''notes'' = Some (PDict [(''mandate_id'', PStr ''m1'')])" by blast
  then have m: "get_mandate sample_payload = Inr (PStr ''m1'')" by (simp add: get_mandate_def py_or_def)
  have fresh: "find_attempt_by_payment_id ''p2'' (store (sample_service cl)) = None"
    "case_of_mandate (PStr ''m1'') (sample_service cl) = Inr None"
    by (simp_all add: find_attempt_by_payment_id_def case_of_mandate_def find_case_by_mandate_def find_indexed_def
        sample_service_def InMemoryCaseStore_def)
  have fields: "case_id opened_case = ''p2''" "state opened_case = NOTICE_PENDING" "fe_payment_id opened_failure = ''p2''"
    by (simp_all add: opened_case_def opened_failure_def)
  have "webhook_payment_failed (sample_settings Demo etcd) (\<lambda>_. 0) [] (signature_of ''s'' []) (sample_service cl)
     = (opened_service cl es, Inr (Recorded ''p2'' NOTICE_PENDING ''p2''))"
    by (simp add: webhook_payment_failed_def body d(1,2) m fresh proc fields opened_service_def) (simp add: sample_service_def)
  with es show ?thesis by (rule that [rotated 1])
qed

section \<open>A run of the service\<close>

text \<open>The case of the webhook, pending its notice; the notice goes out six hours later.\<close>

lemma sample_run:
  obtains es where "service_run (sample_settings Demo etcd) (opened_service cl es)"
    and "webhook_payment_failed (sample_settings Demo etcd) (\<lambda>_. 0) [] (signature_of ''s'' []) (sample_service cl)
     = (opened_service cl es, Inr (Recorded ''p2'' NOTICE_PENDING ''p2''))"
    and "es \<noteq> []" and "\<forall>e \<in> set es. ae_case_id e = ''p2''"
proof (rule sample_webhook [of etcd cl])
  fix es
  assume h: "webhook_payment_failed (sample_settings Demo etcd) (\<lambda>_. 0) [] (signature_of ''s'' []) (sample_service cl)
     = (opened_service cl es, Inr (Recorded ''p2'' NOTICE_PENDING ''p2''))"
    and es: "es \<noteq> []" "\<forall>e \<in> set es. ae_case_id e = ''p2''"
  have "serve (sample_settings Demo etcd) (\<lambda>_. 0) (Payment_failed [] (signature_of ''s'' [])) (sample_service cl)
     = (opened_service cl es, Inr (Recorded ''p2'' NOTICE_PENDING ''p2''))" using h by simp
  then have "service_run (sample_settings Demo etcd) (opened_service cl es)"
    by (rule service_run.served [OF service_run.booted [OF sample_boot]])
  from this h es show thesis by (rule that)
qed

lemma append_all_fields [simp]:
  "cases (append_all es st) = cases st" "decisions (append_all es st) = decisions st"
  by (induction es arbitrary: st) (simp_all add: append_all_def append_audit_def Let_def)

lemma opened_service_sel [simp]:
  "store (opened_service cl es) = opened_store es" "cluster (opened_service cl es) = cl"
  "clk (opened_service cl es) = AcceleratedClock 3600 0"
  "get_case ''p2'' (opened_store es) = Inr opened_case" "decisions (opened_store es) = []"
  "state opened_case = NOTICE_PENDING" "retries_used opened_case = 0"
  by (simp_all add: opened_service_def sample_service_def opened_store_def get_case_def opened_case_def InMemoryCaseStore_def)

lemma sample_settings_sel [simp]:
  "config (sample_settings profile etcd) = shipped_config profile" "use_etcd (sample_settings profile etcd) = etcd"
  "config_profile (shipped_config profile) = profile"
  by (simp_all add: sample_settings_def shipped_config_def)

lemma daytime: "\<not> is_dnd_hour (hours 6)"
  by code_simp

end
