(* ===== verification/Service_Witnesses.thy ===== *)
theory Service_Witnesses
  imports Service_Samples Queries Reconciliation Simulation
begin

text \<open>
  The theorems about the service at a concrete run: one signed failure webhook opens a case, its notice is
  sent, its retry executed; and the same run after a restart that finds the committed effect in etcd.
\<close>

section \<open>The scheduled case\<close>

lemma sample_notice:
  fixes es :: "audit_entry list"
  assumes "service_run (sample_settings Demo etcd) (opened_service cl es)"
  obtains s d where "send_notice (sample_settings Demo etcd) (\<lambda>_. hours 6) (0, 0) ''p2'' (opened_service cl es)
       = (s, Inr (Case_status ''p2'' RETRY_SCHEDULED))"
    and "service_run (sample_settings Demo etcd) s"
    and "get_case ''p2'' (store s) = Inr (opened_case\<lparr>state := RETRY_SCHEDULED\<rparr>)"
    and "filter (\<lambda>d. rd_case_id d = ''p2'') (get_pending_retries (store s)) = [d]"
    and "rd_attempt_number d = 1" and "rd_scheduled_at d \<le> hours 400"
    and "\<not> is_distressed (distress s) (instrument_id opened_case) (hours 400)"
    and "cluster s = cl" and "clk s = AcceleratedClock 3600 0"
    and "find_attempt_by_payment_id ''p2'' (store s) = Some (''p2'', 1)"
proof (rule send_notice_delivers [where w = "\<lambda>_. hours 6" and draw = "(0, 0)" and cid = "''p2''" and c = opened_case, OF assms])
  show "schedule_ready (config (sample_settings Demo etcd))" by (simp add: shipped_schedule_ready)
  show "\<not> is_dnd_hour (clock_now (clk (opened_service cl es)) (hours 6))" by (simp add: daytime)
  fix s d fs
  assume sent: "send_notice (sample_settings Demo etcd) (\<lambda>_. hours 6) (0, 0) ''p2'' (opened_service cl es)
       = (s, Inr (Case_status ''p2'' RETRY_SCHEDULED))"
    and c: "get_case ''p2'' (store s) = Inr (opened_case\<lparr>state := RETRY_SCHEDULED\<rparr>)"
    and ds: "decisions (store s) = dict_set (''p2'', retries_used opened_case + 1) d (decisions (store (opened_service cl es)))"
    and key: "decision_key d = (''p2'', retries_used opened_case + 1)" and out: "outcome d = Pending"
    and frame: "distress s = distress (opened_service cl es)" "cluster s = cluster (opened_service cl es)"
      "clk s = clk (opened_service cl es)"
    and bound: "rd_scheduled_at d < schedule_floor (config (sample_settings Demo etcd)) (retries_used opened_case)
           (clock_now (clk (opened_service cl es)) (hours 6)) None
         + max_schedule_window (self_imposed (config (sample_settings Demo etcd))) + usec_per_day"
  have step: "serve (sample_settings Demo etcd) (\<lambda>_. hours 6) (Send_notice [] (0, 0) ''p2'') (opened_service cl es)
        = (s, Inr (Case_status ''p2'' RETRY_SCHEDULED))"
    using sent by (simp add: guarded_def require_admin_token_def)
  have run: "service_run (sample_settings Demo etcd) s" by (rule service_run.served [OF assms step])
  have "find_attempt_by_payment_id ''p2'' (store (opened_service cl es)) = Some (''p2'', 1)"
    by (simp add: find_attempt_by_payment_id_def opened_store_def)
  note attempt = later_keeps_attempt [OF later.after [OF later.now step] assms this]
  have pending: "filter (\<lambda>d. rd_case_id d = ''p2'') (get_pending_retries (store s)) = [d]"
    using ds key out by (simp add: get_pending_retries_def decision_key_def)
  have due: "rd_scheduled_at d \<le> hours 400"
    using bound by (simp add: schedule_floor_def spacing_for_def shipped_config_def hours_def usec_defs)
  have calm: "\<not> is_distressed (distress s) (instrument_id opened_case) (hours 400)"
    by (simp add: frame opened_service_def is_distressed_def recent_failures_def record_failure_at_def DistressDetector_def)
  from sent run c pending key due calm frame attempt show thesis by (intro that) (simp_all add: decision_key_def)
qed simp_all

section \<open>The theorems at the run\<close>

lemma appended_trail_nonempty:
  assumes "\<forall>e \<in> set es. ae_case_id e = cid" and "es \<noteq> []"
  shows "get_audit_trail cid (append_all es st) \<noteq> []"
  using append_all_trail [OF assms(1), of st] assms(2) by auto

theorem service_trails_verify_witness:
  "\<exists>s. service_run (sample_settings Demo True) s \<and> get_audit_trail ''p2'' (store s) \<noteq> []
     \<and> verify_chain_endpoint ''p2'' (store s) = Chain_intact"
proof (rule sample_run [of True "[]"])
  fix es
  assume run: "service_run (sample_settings Demo True) (opened_service [] es)"
    and es: "es \<noteq> []" "\<forall>e \<in> set es. ae_case_id e = ''p2''"
  have "get_audit_trail ''p2'' (store (opened_service [] es)) \<noteq> []"
    unfolding opened_service_sel opened_store_def
    by (rule appended_trail_nonempty [OF es(2,1)])
  with run service_trails_verify [OF run this] show ?thesis by blast
qed

theorem no_execution_without_etcd_witness:
  "\<exists>s. service_run (sample_settings Demo False) s \<and> get_case ''p2'' (store s) = Inr opened_case
     \<and> (\<exists>e. snd (serve (sample_settings Demo False) (\<lambda>_. 0) (Execute_retry [] ''p2'') s) = Inl e)"
proof (rule sample_run [of False "[]"])
  fix es
  assume run: "service_run (sample_settings Demo False) (opened_service [] es)"
  then have "\<exists>e. snd (serve (sample_settings Demo False) (\<lambda>_. 0) (Execute_retry [] ''p2'') (opened_service [] es)) = Inl e"
    using no_execution_without_etcd [where cfg = "sample_settings Demo False" and s = "opened_service [] es" and cid = "''p2''"
        and c = opened_case and w = "\<lambda>_. 0" and auth = "[]"] by simp
  with run show ?thesis by (intro exI [of _ "opened_service [] es"]) simp
qed


theorem redelivery_is_duplicate_witness:
  "\<exists>s. webhook_payment_failed (sample_settings Demo True) (\<lambda>_. 0) [] (signature_of ''s'' []) (sample_service [])
        = (s, Inr (Recorded ''p2'' NOTICE_PENDING ''p2''))
     \<and> webhook_payment_failed (sample_settings Demo True) (\<lambda>_. hours 1) [] (signature_of ''s'' []) s
        = (s, Inr (Duplicate ''p2'' ''p2''))"
proof (rule sample_webhook [of True "[]"])
  fix es
  assume h: "webhook_payment_failed (sample_settings Demo True) (\<lambda>_. 0) [] (signature_of ''s'' []) (sample_service [])
        = (opened_service [] es, Inr (Recorded ''p2'' NOTICE_PENDING ''p2''))"
  have "service_run (sample_settings Demo True) (sample_service [])" by (rule service_run.booted [OF sample_boot])
  from redelivery_is_duplicate [OF this h later.now] h show ?thesis by blast
qed

theorem production_admin_inert_witness:
  "serve (sample_settings Prod True) (\<lambda>_. 0) (Execute_retry ''Bearer x'' ''p2'') (sample_service [])
     = (sample_service [], Inl (HTTPException 401))
   \<and> serve (sample_settings Prod True) (\<lambda>_. 0) (Execute_retry ''Bearer t'' ''p2'') (sample_service [])
     = (sample_service [], Inl (HTTPException 403))"
  using production_admin_inert [of "sample_settings Prod True" "Execute_retry ''Bearer x'' ''p2''" _ "\<lambda>_. 0" "sample_service []"]
    production_admin_inert [of "sample_settings Prod True" "Execute_retry ''Bearer t'' ''p2''" _ "\<lambda>_. 0" "sample_service []"]
  by (simp add: sample_settings_def shipped_config_def)

theorem notice_endpoint_delivers_witness:
  "\<exists>s s' d. get_case ''p2'' (store s) = Inr opened_case
     \<and> send_notice (sample_settings Demo True) (\<lambda>_. hours 6) (0, 0) ''p2'' s = (s', Inr (Case_status ''p2'' RETRY_SCHEDULED))
     \<and> get_retry_decision ''p2'' 1 (store s') = Inr d \<and> hours 30 \<le> rd_scheduled_at d"
proof (rule sample_run [of True "[]"])
  fix es
  assume run: "service_run (sample_settings Demo True) (opened_service [] es)"
  have "hours 6 + notice_lead_time (npci (shipped_config Demo)) = hours 30"
    by (simp add: shipped_config_def hours_def usec_defs)
  with notice_endpoint_delivers [where w = "\<lambda>_. hours 6" and draw = "(0, 0)" and cid = "''p2''" and c = opened_case, OF run]
  obtain s' d where "send_notice (sample_settings Demo True) (\<lambda>_. hours 6) (0, 0) ''p2'' (opened_service [] es)
      = (s', Inr (Case_status ''p2'' RETRY_SCHEDULED))" "get_retry_decision ''p2'' 1 (store s') = Inr d" "hours 30 \<le> rd_scheduled_at d"
    by (simp add: shipped_schedule_ready daytime) blast
  then show ?thesis by (intro exI [of _ "opened_service [] es"] exI [of _ s'] exI [of _ d]) simp
qed

theorem dashboard_books_each_case_once_witness:
  "\<exists>s. service_run (sample_settings Demo False) s \<and> get_case ''p2'' (store s) = Inr opened_case
     \<and> treatment_recovery_rate (dashboard_metrics s) \<le> 1"
proof (rule sample_run [of False "[]"])
  fix es
  assume run: "service_run (sample_settings Demo False) (opened_service [] es)"
  with dashboard_books_each_case_once [OF run] show ?thesis by (intro exI [of _ "opened_service [] es"]) simp
qed

section \<open>Executions and restarts\<close>

text \<open>The cluster after the first attempt of the case has been committed.\<close>

definition committed_log :: "(string, string) dict" where
  "committed_log = [(key_for (''p2'', 1), effect_text ''p2'' 1 (hours 400))]"

lemma committed_log_facts:
  "dict_txn committed_log (key_for (''p2'', 1)) v = (committed_log, Inr False)"
  "etcd_get_prefix (sample_settings Demo True) committed_log (commit_prefix @ ''p2'' @ ''/'') = Inr [effect_text ''p2'' 1 (hours 400)]"
  "etcd_get_prefix (sample_settings Demo True) committed_log commit_prefix = Inr [effect_text ''p2'' 1 (hours 400)]"
  "logged_effect (sample_settings Demo True) ''p2'' (effect_text ''p2'' 1 (hours 400))"
  by (auto simp: committed_log_def dict_txn_def sample_settings_def key_for_def py_startswith_def logged_effect_def)

theorem refused_retry_is_executed_witness:
  "\<exists>s c s'. service_run (sample_settings Demo True) s \<and> get_case ''p2'' (store s) = Inr c \<and> state c = RETRY_SCHEDULED
     \<and> execute_retry (sample_settings Demo True) (\<lambda>_. hours 400) ''p2'' s = (s', Inl (HTTPException 409))
     \<and> get_case ''p2'' (store s') = Inr (c\<lparr>state := RETRY_EXECUTED\<rparr>)"
proof (rule sample_run [of True committed_log])
  fix es
  assume "service_run (sample_settings Demo True) (opened_service committed_log es)"
  then show ?thesis
  proof (rule sample_notice)
    fix s d
    assume run: "service_run (sample_settings Demo True) s"
      and c: "get_case ''p2'' (store s) = Inr (opened_case\<lparr>state := RETRY_SCHEDULED\<rparr>)"
      and d: "filter (\<lambda>d. rd_case_id d = ''p2'') (get_pending_retries (store s)) = [d]"
        "rd_attempt_number d = 1" "rd_scheduled_at d \<le> hours 400"
      and calm: "\<not> is_distressed (distress s) (instrument_id opened_case) (hours 400)"
      and frame: "cluster s = committed_log" "clk s = AcceleratedClock 3600 0"
    have txn: "etcd_transaction (sample_settings Demo True) (cluster s) (key_for (''p2'', rd_attempt_number d)) v
        = (cluster s, Inr False)" for v
      using committed_log_facts(1) [of v] frame(1) d(2) by (simp add: sample_settings_def)
    from refused_retry_is_executed [where w = "\<lambda>_. hours 400" and cid = "''p2''" and d = d and ds = "[]"
        and vs = "[effect_text ''p2'' 1 (hours 400)]" and cfg = "sample_settings Demo True" and s = s, OF run _ _ c _ _ d(1) _ txn]
      d(3) calm frame committed_log_facts(2,4)
    obtain s' where "execute_retry (sample_settings Demo True) (\<lambda>_. hours 400) ''p2'' s = (s', Inl (HTTPException 409))"
        "get_case ''p2'' (store s') = Inr (opened_case\<lparr>state := RETRY_EXECUTED\<rparr>)"
      by auto
    with run c show ?thesis
      by (intro exI [of _ s] exI [of _ "opened_case\<lparr>state := RETRY_SCHEDULED\<rparr>"] exI [of _ s']) simp
  qed
qed


text \<open>With an empty cluster the retry is executed.\<close>

lemma sample_scheduled:
  obtains s d where "service_run (sample_settings Demo True) s"
    and "get_case ''p2'' (store s) = Inr (opened_case\<lparr>state := RETRY_SCHEDULED\<rparr>)"
    and "filter (\<lambda>d. rd_case_id d = ''p2'') (get_pending_retries (store s)) = [d]"
    and "rd_attempt_number d = 1" and "rd_scheduled_at d \<le> hours 400"
    and "\<not> is_distressed (distress s) (instrument_id opened_case) (hours 400)"
    and "cluster s = cl" and "clk s = AcceleratedClock 3600 0"
    and "find_attempt_by_payment_id ''p2'' (store s) = Some (''p2'', 1)"
  by (rule sample_run [of True cl]) (erule sample_notice, blast)

lemma due_and_free:
  fixes s :: "(string, string) dict service"
  assumes "cluster s = []" and "clk s = AcceleratedClock 3600 0" and "rd_attempt_number d = 1"
  shows "etcd_transaction (sample_settings Demo True) (cluster s) (key_for (''p2'', rd_attempt_number d))
     (effect_text ''p2'' (rd_attempt_number d) (clock_now (clk s) (hours 400))) = (committed_log, Inr True)"
  using assms by (simp add: sample_settings_def dict_txn_def committed_log_def)

theorem due_retry_executes_witness:
  "\<exists>s s' c. service_run (sample_settings Demo True) s \<and> get_case ''p2'' (store s) = Inr c \<and> state c = RETRY_SCHEDULED
     \<and> execute_retry (sample_settings Demo True) (\<lambda>_. hours 400) ''p2'' s = (s', Inr (Case_status ''p2'' RETRY_EXECUTED))
     \<and> cluster s' = committed_log"
proof (rule sample_scheduled [of "[]"])
  fix s d
  assume run: "service_run (sample_settings Demo True) s"
    and c: "get_case ''p2'' (store s) = Inr (opened_case\<lparr>state := RETRY_SCHEDULED\<rparr>)"
    and d: "filter (\<lambda>d. rd_case_id d = ''p2'') (get_pending_retries (store s)) = [d]"
      "rd_attempt_number d = 1" "rd_scheduled_at d \<le> hours 400"
    and calm: "\<not> is_distressed (distress s) (instrument_id opened_case) (hours 400)"
    and frame: "cluster s = []" "clk s = AcceleratedClock 3600 0"
  from due_retry_executes [where w = "\<lambda>_. hours 400" and ds = "[]", OF run _ _ c _ _ d(1) _ due_and_free [OF frame d(2)]]
    d(3) calm frame
  obtain s' where "execute_retry (sample_settings Demo True) (\<lambda>_. hours 400) ''p2'' s
      = (s', Inr (Case_status ''p2'' RETRY_EXECUTED))" "cluster s' = committed_log" by auto
  with run c show ?thesis
    by (intro exI [of _ s] exI [of _ s'] exI [of _ "opened_case\<lparr>state := RETRY_SCHEDULED\<rparr>"]) simp
qed

lemma sample_execution:
  obtains s s' where "service_run (sample_settings Demo True) s"
    and "execute_retry (sample_settings Demo True) (\<lambda>_. hours 400) ''p2'' s = (s', Inr (Case_status ''p2'' RETRY_EXECUTED))"
    and "get_case ''p2'' (store s') = Inr (opened_case\<lparr>state := RETRY_EXECUTED\<rparr>)"
    and "find_attempt_by_payment_id ''p2'' (store s) = Some (''p2'', 1)"
    and "cluster s = []"
proof (rule sample_scheduled [of "[]"])
  fix s d
  assume run: "service_run (sample_settings Demo True) s"
    and c: "get_case ''p2'' (store s) = Inr (opened_case\<lparr>state := RETRY_SCHEDULED\<rparr>)"
    and d: "filter (\<lambda>d. rd_case_id d = ''p2'') (get_pending_retries (store s)) = [d]"
      "rd_attempt_number d = 1" "rd_scheduled_at d \<le> hours 400"
    and calm: "\<not> is_distressed (distress s) (instrument_id opened_case) (hours 400)"
    and frame: "cluster s = []" "clk s = AcceleratedClock 3600 0"
    and attempt: "find_attempt_by_payment_id ''p2'' (store s) = Some (''p2'', 1)"
  show thesis
    by (rule scheduled_retry_executes [where w = "\<lambda>_. hours 400" and ds = "[]", OF run _ _ c _ _ d(1) _ due_and_free [OF frame d(2)]])
      (use d(3) calm frame attempt that run in auto)
qed

theorem execution_was_due_and_approved_witness:
  "\<exists>s s' resp c. service_run (sample_settings Demo True) s
     \<and> execute_retry (sample_settings Demo True) (\<lambda>_. hours 400) ''p2'' s = (s', Inr resp)
     \<and> get_case ''p2'' (store s) = Inr c \<and> state c = RETRY_SCHEDULED
     \<and> get_case ''p2'' (store s') = Inr (c\<lparr>state := RETRY_EXECUTED\<rparr>)"
proof (rule sample_execution)
  fix s s'
  assume run: "service_run (sample_settings Demo True) s"
    and e: "execute_retry (sample_settings Demo True) (\<lambda>_. hours 400) ''p2'' s = (s', Inr (Case_status ''p2'' RETRY_EXECUTED))"
  from execution_was_due_and_approved [OF run e] run e show ?thesis by blast
qed

lemma stored_mandate: "store_ok st \<Longrightarrow> dict_get (cases st) k = Some c \<Longrightarrow> dict_get (mandate_index st) (mandate_id c) = Some k"
  by (simp add: store_ok_def cases_ok_def)

theorem refused_simulation_uses_retry_witness:
  "\<exists>s s'. service_run (sample_settings Demo True) s
     \<and> simulate_failure (sample_settings Demo True) (\<lambda>_. hours 401) ''p2'' 50000 ''a@upi'' ''network_timeout'' None
         (Some [(''mandate_id'', PStr ''m1'')]) s = (s', Inl (HTTPException 409))
     \<and> (\<exists>c. get_case ''p2'' (store s') = Inr c \<and> retries_used c = 1)"
proof (rule sample_execution)
  fix s0 s
  let ?cfg = "sample_settings Demo True" and ?c = "opened_case\<lparr>state := RETRY_EXECUTED\<rparr>"
  assume run0: "service_run ?cfg s0"
    and e: "execute_retry ?cfg (\<lambda>_. hours 400) ''p2'' s0 = (s, Inr (Case_status ''p2'' RETRY_EXECUTED))"
    and c: "get_case ''p2'' (store s) = Inr ?c"
    and attempt: "find_attempt_by_payment_id ''p2'' (store s0) = Some (''p2'', 1)"
  have step: "serve ?cfg (\<lambda>_. hours 400) (Execute_retry [] ''p2'') s0 = (s, Inr (Case_status ''p2'' RETRY_EXECUTED))"
    using e by (simp add: guarded_def require_admin_token_def)
  have run: "service_run ?cfg s" by (rule service_run.served [OF run0 step])
  have "dict_get (cases (store s)) ''p2'' = Some ?c" using c by (simp add: get_case_def)
  then have "dict_get (mandate_index (store s)) ''m1'' = Some ''p2''"
    using stored_mandate [OF run_store_ok [OF run], of "''p2''" ?c] by (simp add: opened_case_def)
  with c have mandate: "find_case_by_mandate ''m1'' (store s) = Some ?c"
    by (simp add: find_case_by_mandate_def find_indexed_def get_case_def)
  have clock: "0 \<le> hours 401 div usec_per_second" "hours 401 div usec_per_second \<le> 253402300799"
    by (simp_all add: hours_def usec_defs)
  have demo: "config_profile (config ?cfg) = Demo" by simp
  note known = later_keeps_attempt [OF later.after [OF later.now step] run0 attempt]
  have facts: "''p2'' \<noteq> []" "''a@upi'' \<noteq> []" "(0 :: int) < 50000" "dict_get [(''mandate_id'', PStr ''m1'')] ''mandate_id'' = Some (PStr ''m1'')"
    "''m1'' \<noteq> []" "state ?c = RETRY_EXECUTED" by simp_all
  have "case_id ?c = ''p2''" "retries_used ?c = 0" by (simp_all add: opened_case_def)
  with refused_simulation_uses_retry [OF run demo facts(1-5) clock mandate facts(6) known, of "''network_timeout''" None]
  obtain s' c' where "simulate_failure ?cfg (\<lambda>_. hours 401) ''p2'' 50000 ''a@upi'' ''network_timeout'' None
         (Some [(''mandate_id'', PStr ''m1'')]) s = (s', Inl (HTTPException 409))"
      "get_case ''p2'' (store s') = Inr c'" "retries_used c' = 1" by auto
  with run show ?thesis by blast
qed

end
