(* ===== verification/Workers.thy ===== *)
theory Workers
  imports Endpoint_Properties
begin

text \<open>
  Several worker processes over one etcd cluster: what a request does to the cluster, that the first pending
  decision of a case never changes, and the races between executions (\<^verbatim>\<open>scripts/concurrency_test*.py\<close>).
\<close>

section \<open>Who writes to the cluster\<close>

definition pending_of :: "string \<Rightarrow> case_store \<Rightarrow> retry_decision list" where
  "pending_of cid st = filter (\<lambda>d. rd_case_id d = cid) (get_pending_retries st)"

lemma fst_andthen:
  "cluster (fst out) = cl \<Longrightarrow> (\<And>s x. cluster s = cl \<Longrightarrow> cluster (fst (f s x)) = cl) \<Longrightarrow> cluster (fst (andthen out f)) = cl"
  by (cases out; cases "snd out") auto

lemma andthen_fails: "andthen out (\<lambda>s _. (s, Inl e)) = (s', r) \<Longrightarrow> \<exists>e. r = Inl e"
  by (cases out; cases "snd out") auto

lemma with_store_cluster [frames]: "cluster (fst (with_store f s)) = cluster s"
  by (simp add: with_store_def split: sum.split)

lemma write_back_cluster [frames]: "cluster (fst (write_back c es s)) = cluster s"
  by (metis prod.collapse write_back_frame)

lemma record_optional_cluster [frames]: "cluster (fst (record_optional d s)) = cluster s"
  by (simp add: record_optional_def frames split: option.split)

lemma apply_effect_cluster [frames]: "cluster (fst (apply_effect wall c effect s)) = cluster s"
  by (metis prod.collapse apply_effect_frame)

lemma persist_failure_cluster [frames]: "cluster (fst (persist_failure cfg w ex u ev es d s)) = cluster s"
  unfolding persist_failure_def
  by (intro fst_andthen) (simp_all add: frames split: option.split)

lemma process_failure_cluster [frames]: "cluster (fst (process_failure cfg w p ex s)) = cluster s"
proof -
  have "cluster s1 = cluster s" if "persist_failure cfg w ex u ev es d s = (s1, r)" for u ev es d s1 r
    using persist_failure_cluster [of cfg w ex u ev es d s] that by simp
  then show ?thesis by (auto simp: process_failure_def split: sum.split prod.split)
qed

lemma release_loop_cluster [frames]: "cluster (fst (release_loop w cs rs s)) = cluster s"
proof (induction cs arbitrary: w rs s)
  case (Cons c cs)
  then show ?case by (auto simp: frames split: sum.split intro!: fst_andthen)
qed simp

lemma reconcile_values_cluster [frames]: "cluster (fst (reconcile_values cfg w cid vs s)) = cluster s"
proof (induction vs arbitrary: w s)
  case (Cons v vs)
  then show ?case by (auto simp: frames split: sum.split intro!: fst_andthen)
qed simp

lemma reconcile_case_cluster [frames]: "cluster (fst (reconcile_case cfg w cid s)) = cluster s"
  by (simp add: reconcile_case_def frames split: sum.split)

lemma reconcile_scan_cluster [frames]: "cluster (fst (reconcile_scan cfg w n vs s)) = cluster s"
proof (induction vs arbitrary: w n s)
  case (Cons v vs)
  have a: "cluster s1 = cluster s" if "apply_effect (w 0) c effect s = (s1, r)" for c effect s1 r
    using apply_effect_frame [OF that] by simp
  show ?case
    by (auto simp: Cons.IH a split: sum.split prod.split)
qed simp

lemma reconcile_all_cluster [frames]: "cluster (fst (reconcile_all cfg w s)) = cluster s"
  by (simp add: reconcile_all_def frames split: sum.split)

lemma send_notice_cluster [frames]: "cluster (fst (send_notice cfg w draw cid s)) = cluster s"
  by (auto simp: send_notice_def demo_only_def frames split: sum.split prod.split intro!: fst_andthen)

lemma webhook_failed_cluster [frames]: "cluster (fst (webhook_payment_failed cfg w raw sig s)) = cluster s"
  by (auto simp: webhook_payment_failed_def frames split: sum.split prod.split intro!: fst_andthen)

lemma simulate_failure_cluster [frames]: "cluster (fst (simulate_failure cfg w pid a vpa code reason ns s)) = cluster s"
  by (auto simp: simulate_failure_def demo_only_def Let_def frames split: sum.split prod.split intro!: fst_andthen)

lemma webhook_succeeded_cluster [frames]: "cluster (fst (webhook_payment_succeeded cfg w raw sig s)) = cluster s"
proof -
  have "cluster s1 = cluster s" if "write_back c es s = (s1, r)" for c es s1 r
    using write_back_frame [OF that] by simp
  then show ?thesis
    by (auto simp: webhook_payment_succeeded_def split: sum.split prod.split)
qed

lemma simulate_success_cluster [frames]: "cluster (fst (simulate_success cfg w pid a ns s)) = cluster s"
  by (auto simp: simulate_success_def demo_only_def Let_def frames split: sum.split prod.split option.split
      intro!: fst_andthen)

lemma release_throttles_cluster [frames]: "cluster (fst (release_throttles cfg w s)) = cluster s"
  by (auto simp: release_throttles_def demo_only_def frames intro!: fst_andthen)

lemma periodic_release_cluster [frames]: "cluster (fst (periodic_throttle_release w s)) = cluster s"
  by (auto simp: periodic_throttle_release_def frames intro!: fst_andthen)

lemma resolve_escalation_cluster [frames]: "cluster (fst (resolve_escalation cfg w cid n s)) = cluster s"
  by (auto simp: resolve_escalation_def demo_only_def Let_def frames split: sum.split intro!: fst_andthen)

lemma startup_cluster [frames]: "cluster (fst (startup_event cfg w s)) = cluster s"
  by (auto simp: startup_event_def frames intro!: fst_andthen)

lemma guarded_cluster [frames]: "cluster (fst out) = cluster s \<Longrightarrow> cluster (fst (guarded cfg auth s out)) = cluster s"
  by (simp add: guarded_def split: sum.split)

lemma other_requests_cluster:
  assumes "\<nexists>auth cid. req = Execute_retry auth cid"
  shows "cluster (fst (serve cfg w req s)) = cluster s"
proof (cases req)
  case (Advance_clock auth delta)
  then show ?thesis by (simp add: guarded_def advance_clock_def demo_only_def split: sum.split)
next
  case (Record_distress auth instrument)
  then show ?thesis by (simp add: guarded_def admin_record_failure_def Let_def split: sum.split)
qed (use assms in \<open>simp_all add: frames\<close>)

text \<open>
  An execution either leaves the cluster alone and fails, or makes one transaction, on the key of the first
  pending decision of the case, and succeeds only if that transaction does.
\<close>

definition transacts ::
  "'c settings \<Rightarrow> string \<Rightarrow> 'c service \<Rightarrow> 'c service \<Rightarrow> bool result \<Rightarrow> bool" where
  "transacts cfg cid s s' ok \<longleftrightarrow>
     (\<exists>d ds v. pending_of cid (store s) = d # ds
        \<and> etcd_transaction cfg (cluster s) (key_for (cid, rd_attempt_number d)) v = (cluster s', ok))"

lemma commit_effect_transacts:
  assumes "commit_effect cfg wall cid n t s = (s1, r)"
  shows "cluster s1 = cluster s \<and> r \<noteq> Inr True
     \<or> (\<exists>v. etcd_transaction cfg (cluster s) (key_for (cid, n)) v = (cluster s1, r))"
  using assms
  by (auto simp: commit_effect_def etcd_commit_effect_def mem_commit_effect_def RetryDecision_def
      split: if_splits prod.splits)

lemma execute_decision_cluster:
  assumes "pending_of cid (store s) = d # ds" and "execute_decision cfg w cid c d s = (s', r)"
  shows "cluster s' = cluster s \<and> (\<exists>e. r = Inl e)
     \<or> (\<exists>ok. transacts cfg cid s s' ok \<and> (ok = Inr True \<or> (\<exists>e. r = Inl e)))"
proof -
  let ?t = "clock_now (clk s) (w 2)" and ?n = "rd_attempt_number d"
  obtain s1 won where ce: "commit_effect cfg (w 3) cid ?n ?t s = (s1, won)" by fastforce
  let ?rest = "\<lambda>s won. if \<not> won
         then andthen (reconcile_case cfg (\<lambda>k. w (k + 4)) cid s) (\<lambda>s _. (s, Inl (HTTPException 409)))
         else andthen (apply_effect (w 4) c (effect_value cid ?n ?t) s) (\<lambda>s c.
              andthen (with_store (update_retry_decision d) s) (\<lambda>s _.
                (s, Inr (Case_status (case_id c) (state c)))))"
  have out: "(s', r) = andthen (s1, won) ?rest"
    using assms(2) ce by (simp add: execute_decision_def Let_def)
  have "cluster (fst (andthen (s1, won) ?rest)) = cluster s1"
    by (rule fst_andthen) (auto simp: frames intro!: fst_andthen)
  with out have same: "cluster s' = cluster s1" by (metis fst_conv)
  have fail: "\<exists>e. r = Inl e" if "won \<noteq> Inr True"
  proof (cases won)
    case (Inr b)
    with that out have "andthen (reconcile_case cfg (\<lambda>k. w (k + 4)) cid s1) (\<lambda>s _. (s, Inl (HTTPException 409))) = (s', r)"
      by simp
    then show ?thesis by (rule andthen_fails)
  qed (use out in simp)
  from commit_effect_transacts [OF ce] show ?thesis
  proof
    assume "\<exists>v. etcd_transaction cfg (cluster s) (key_for (cid, ?n)) v = (cluster s1, won)"
    with assms(1) same have "transacts cfg cid s s' won" by (auto simp: transacts_def)
    with fail show ?thesis by blast
  qed (use same fail in auto)
qed

lemma execute_retry_cluster:
  assumes "execute_retry cfg w cid s = (s', r)"
  shows "cluster s' = cluster s \<and> (\<exists>e. r = Inl e)
     \<or> (\<exists>ok. transacts cfg cid s s' ok \<and> (ok = Inr True \<or> (\<exists>e. r = Inl e)))"
proof -
  have esc: "cluster s1 = cluster s \<and> (\<exists>e. r1 = Inl e)"
    if "andthen (write_back c es s) (\<lambda>s _. (s, Inl (HTTPException 409) :: response result)) = (s1, r1)" for c es s1 r1
    using that write_back_cluster [of c es s] by (cases "write_back c es s"; cases "snd (write_back c es s)") auto
  show ?thesis
    using assms execute_decision_cluster [of cid s _ _ cfg w _ s' r] esc
    by (auto simp: execute_retry_def demo_only_def Let_def pending_of_def [symmetric]
        split: sum.splits if_splits list.splits)
qed

lemma serve_cluster:
  assumes "serve cfg w req s = (s', r)"
  shows "cluster s' = cluster s \<and> (\<forall>auth cid. req = Execute_retry auth cid \<longrightarrow> (\<exists>e. r = Inl e))
     \<or> (\<exists>auth cid ok. req = Execute_retry auth cid \<and> transacts cfg cid s s' ok \<and> (ok = Inr True \<or> (\<exists>e. r = Inl e)))"
proof (cases "\<exists>auth cid. req = Execute_retry auth cid")
  case True
  then obtain auth cid where req: "req = Execute_retry auth cid" by blast
  with assms have "s' = s \<and> (\<exists>e. r = Inl e) \<or> execute_retry cfg w cid s = (s', r)"
    by (auto simp: guarded_def split: sum.splits)
  with execute_retry_cluster [of cfg w cid s s' r] req show ?thesis by auto
next
  case False
  with other_requests_cluster [OF False, of cfg w s] assms show ?thesis by simp
qed

section \<open>The first pending decision of a case\<close>

text \<open>
  Decisions are only ever added, at the end, and never closed: the first pending decision of a case is the
  same for ever.
\<close>

definition decisions_kept :: "case_store \<Rightarrow> case_store \<Rightarrow> bool" where
  "decisions_kept st st' \<longleftrightarrow> (\<exists>ds. decisions st' = decisions st @ ds)"

lemma kept_same: "decisions st' = decisions st \<Longrightarrow> decisions_kept st st'"
  by (simp add: decisions_kept_def)

lemma tx_decisions_kept:
  assumes "tx cfg ck st st'"
  shows "decisions_kept st st'"
  using assms
proof cases
  case (opened ev wall c ev' es d)
  then show ?thesis
    by (intro kept_same) (auto simp: create_case_def index_mandate_def Let_def split: if_splits)
next
  case (moved k c c')
  then show ?thesis by (intro kept_same) (auto simp: update_case_def index_mandate_def split: if_splits)
next
  case (failed e c)
  then show ?thesis by (intro kept_same) (auto simp: record_failure_def Let_def split: if_splits)
next
  case (decided d)
  then show ?thesis by (auto simp: record_retry_decision_def decisions_kept_def dict_set_fresh split: if_splits)
next
  case (redecided d)
  then show ?thesis by (intro kept_same) (auto simp: update_retry_decision_def update_triv split: if_splits)
next
  case (audited e)
  then show ?thesis by (intro kept_same) (simp add: append_audit_def Let_def)
qed

lemma txs_decisions_kept: "(tx cfg ck)\<^sup>*\<^sup>* st st' \<Longrightarrow> decisions_kept st st'"
proof (induction rule: rtranclp_induct)
  case base
  show ?case by (simp add: decisions_kept_def)
next
  case (step st1 st2)
  with tx_decisions_kept [OF step(2)] show ?case unfolding decisions_kept_def by auto
qed

lemma kept_pending: "decisions_kept st st' \<Longrightarrow> pending_of cid st = d # ds \<Longrightarrow> \<exists>ds'. pending_of cid st' = d # ds'"
  by (auto simp: decisions_kept_def pending_of_def get_pending_retries_def)

lemma serve_pending:
  assumes "service_run cfg s" and "serve cfg w req s = (s', r)" and "pending_of cid (store s) = d # ds"
  shows "\<exists>ds'. pending_of cid (store s') = d # ds'"
  using kept_pending [OF txs_decisions_kept [OF serve_txs [OF assms(1,2)]] assms(3)] .

section \<open>The fleet\<close>

text \<open>
  Independent workers, each with its own memory, as \<^verbatim>\<open>scripts/concurrency_test_multi.py\<close> addresses them by
  their ports, and the etcd cluster they share.  A call is served by one worker at a time on the cluster as
  the calls before it left it; a call to a port no worker listens on gets no response.
\<close>

record 'c fleet =
  workers :: "'c service list"
  quorum :: 'c

type_synonym call = "nat \<times> (nat \<Rightarrow> datetime) \<times> request"

definition worker_state :: "'c fleet \<Rightarrow> nat \<Rightarrow> 'c service" where
  "worker_state f i = (workers f ! i)\<lparr>cluster := quorum f\<rparr>"

fun deliver :: "'c settings \<Rightarrow> call \<Rightarrow> 'c fleet \<Rightarrow> 'c fleet \<times> response result option" where
  "deliver cfg (i, w, req) f =
     (if i < length (workers f)
      then (case serve cfg w req (worker_state f i) of
              (s, r) \<Rightarrow> (\<lparr>workers = (workers f)[i := s], quorum = cluster s\<rparr>, Some r))
      else (f, None))"

fun fleet_run :: "'c settings \<Rightarrow> 'c fleet \<Rightarrow> call list \<Rightarrow> 'c fleet \<times> response result option list" where
  "fleet_run cfg f [] = (f, [])"
| "fleet_run cfg f (call # calls) =
     (let (f, r) = deliver cfg call f; (f, rs) = fleet_run cfg f calls in (f, r # rs))"

text \<open>The executions a run reports: the worker, the case and the attempt of each that was answered with success.\<close>

fun executed_by :: "'c fleet \<Rightarrow> call \<Rightarrow> response result option \<Rightarrow> (nat \<times> attempt_key) list" where
  "executed_by f (i, w, Execute_retry auth cid) (Some (Inr x)) =
     [(i, (cid, rd_attempt_number (hd (pending_of cid (store (workers f ! i))))))]"
| "executed_by f call r = []"

fun fleet_executions :: "'c settings \<Rightarrow> 'c fleet \<Rightarrow> call list \<Rightarrow> (nat \<times> attempt_key) list" where
  "fleet_executions cfg f [] = []"
| "fleet_executions cfg f (call # calls) =
     (let (f', r) = deliver cfg call f in executed_by f call r @ fleet_executions cfg f' calls)"

definition fleet_ok :: "'c settings \<Rightarrow> 'c fleet \<Rightarrow> bool" where
  "fleet_ok cfg f \<longleftrightarrow> list_all (service_run cfg) (workers f)"

lemma worker_runs: "fleet_ok cfg f \<Longrightarrow> i < length (workers f) \<Longrightarrow> service_run cfg (worker_state f i)"
  by (auto simp: fleet_ok_def list_all_length worker_state_def intro: service_run.elsewhere)

lemma worker_state_sel [simp]:
  "store (worker_state f i) = store (workers f ! i)" "cluster (worker_state f i) = quorum f"
  "clk (worker_state f i) = clk (workers f ! i)" "distress (worker_state f i) = distress (workers f ! i)"
  by (simp_all add: worker_state_def)

lemma deliver_ok:
  assumes "fleet_ok cfg f" and "deliver cfg call f = (f', r)"
  shows "fleet_ok cfg f'" and "length (workers f') = length (workers f)"
proof -
  obtain i w req where call: "call = (i, w, req)" by (cases call)
  show "length (workers f') = length (workers f)" using assms(2) call by (auto split: if_splits prod.splits)
  show "fleet_ok cfg f'"
  proof (cases "i < length (workers f)")
    case True
    obtain s x where s: "serve cfg w req (worker_state f i) = (s, x)" by fastforce
    have "service_run cfg s" by (rule service_run.served [OF worker_runs [OF assms(1) True] s])
    with assms call True s show ?thesis
      by (auto simp: fleet_ok_def list_all_length nth_list_update)
  qed (use assms call in simp)
qed

text \<open>What a delivery does to the cluster, and to the first pending decisions.\<close>

lemma deliver_cluster:
  assumes "deliver cfg (i, w, req) f = (f', r)"
  shows "quorum f' = quorum f \<and> executed_by f (i, w, req) r = []
     \<or> (\<exists>auth cid d ds v ok. req = Execute_retry auth cid \<and> pending_of cid (store (workers f ! i)) = d # ds
          \<and> i < length (workers f)
          \<and> etcd_transaction cfg (quorum f) (key_for (cid, rd_attempt_number d)) v = (quorum f', ok)
          \<and> (executed_by f (i, w, req) r = []
             \<or> ok = Inr True \<and> executed_by f (i, w, req) r = [(i, (cid, rd_attempt_number d))]))"
proof (cases "i < length (workers f)")
  case True
  obtain s x where s: "serve cfg w req (worker_state f i) = (s, x)" by fastforce
  with assms True have f': "quorum f' = cluster s" "r = Some x" by auto
  from serve_cluster [OF s] show ?thesis
  proof
    assume "cluster s = cluster (worker_state f i) \<and> (\<forall>auth cid. req = Execute_retry auth cid \<longrightarrow> (\<exists>e. x = Inl e))"
    with f' show ?thesis by (cases req) auto
  next
    assume "\<exists>auth cid ok. req = Execute_retry auth cid \<and> transacts cfg cid (worker_state f i) s ok \<and> (ok = Inr True \<or> (\<exists>e. x = Inl e))"
    with f' True show ?thesis by (cases x) (auto simp: transacts_def)
  qed
qed (use assms in auto)

lemma deliver_pending:
  assumes "fleet_ok cfg f" and "deliver cfg call f = (f', r)" and "j < length (workers f)"
    and "pending_of cid (store (workers f ! j)) = d # ds"
  shows "\<exists>ds'. pending_of cid (store (workers f' ! j)) = d # ds'"
proof -
  obtain i w req where call: "call = (i, w, req)" by (cases call)
  show ?thesis
  proof (cases "i < length (workers f) \<and> i = j")
    case True
    obtain s x where s: "serve cfg w req (worker_state f i) = (s, x)" by fastforce
    have "\<exists>ds'. pending_of cid (store s) = d # ds'"
      using serve_pending [OF worker_runs [OF assms(1)] s] assms(4) True by simp
    with assms(2) call True s show ?thesis by auto
  next
    case False
    with assms call show ?thesis by (auto split: if_splits prod.splits simp: nth_list_update)
  qed
qed

section \<open>At most once\<close>

context etcd_client
begin

lemma keys_stay: "txn c k v = (c', r) \<Longrightarrow> view c' k' = None \<Longrightarrow> view c k' = None"
  using txn_answer [of c k v c'] txn_raised [of c k v c'] by (cases r) (auto split: if_splits)

lemma winner_was_first: "txn c k v = (c', Inr True) \<Longrightarrow> view c k = None \<and> view c' k \<noteq> None"
  using txn_answer [of c k v c' True] by simp

end

lemma deliver_keys_stay:
  assumes "etcd_client (etcd_transaction cfg) view" and "deliver cfg call f = (f', r)" and "view (quorum f') k = None"
  shows "view (quorum f) k = None"
proof -
  obtain i w req where "call = (i, w, req)" by (cases call)
  with deliver_cluster [of cfg i w req f f' r] assms(2,3) etcd_client.keys_stay [OF assms(1)] show ?thesis by metis
qed

text \<open>An execution found its key free, under the number of the first pending decision, and leaves it taken.\<close>

lemma deliver_executed:
  assumes "etcd_client (etcd_transaction cfg) view" and "deliver cfg call f = (f', r)"
    and "executed_by f call r \<noteq> []"
  obtains i cid d ds where "executed_by f call r = [(i, (cid, rd_attempt_number d))]" and "i < length (workers f)"
    and "pending_of cid (store (workers f ! i)) = d # ds"
    and "view (quorum f) (key_for (cid, rd_attempt_number d)) = None"
    and "view (quorum f') (key_for (cid, rd_attempt_number d)) \<noteq> None"
proof -
  obtain i w req where call: "call = (i, w, req)" by (cases call)
  from deliver_cluster [of cfg i w req f f' r] assms(2,3) call obtain cid d ds v where
    "pending_of cid (store (workers f ! i)) = d # ds" "i < length (workers f)"
    "etcd_transaction cfg (quorum f) (key_for (cid, rd_attempt_number d)) v = (quorum f', Inr True)"
    "executed_by f call r = [(i, (cid, rd_attempt_number d))]"
    by auto
  with etcd_client.winner_was_first [OF assms(1)] that show thesis by blast
qed

lemma fleet_run_keys_stay:
  assumes "etcd_client (etcd_transaction cfg) view"
  shows "view (quorum (fst (fleet_run cfg f calls))) k = None \<Longrightarrow> view (quorum f) k = None"
proof (induction calls arbitrary: f)
  case (Cons call calls)
  obtain f1 r where d: "deliver cfg call f = (f1, r)" by fastforce
  with Cons.prems have "view (quorum (fst (fleet_run cfg f1 calls))) k = None" by (simp add: Let_def split: prod.splits)
  from Cons.IH [OF this] show ?case by (rule deliver_keys_stay [OF assms d])
qed simp

lemma fleet_executions_fresh:
  assumes "etcd_client (etcd_transaction cfg) view" and "fleet_ok cfg f" and "(i, (cid, n)) \<in> set (fleet_executions cfg f calls)"
  shows "view (quorum f) (key_for (cid, n)) = None \<and> view (quorum (fst (fleet_run cfg f calls))) (key_for (cid, n)) \<noteq> None
     \<and> i < length (workers f)
     \<and> (\<forall>d ds. pending_of cid (store (workers f ! i)) = d # ds \<longrightarrow> n = rd_attempt_number d)"
  using assms(2,3)
proof (induction calls arbitrary: f)
  case Nil
  then show ?case by simp
next
  case (Cons call calls)
  obtain f1 r where d: "deliver cfg call f = (f1, r)" by fastforce
  note ok = deliver_ok [OF Cons.prems(1) d]
  have final: "fst (fleet_run cfg f (call # calls)) = fst (fleet_run cfg f1 calls)"
    using d by (simp add: Let_def split: prod.split)
  note stays = fleet_run_keys_stay [OF assms(1), of f1 calls]
  from Cons.prems(2) d consider (now) "(i, (cid, n)) \<in> set (executed_by f call r)"
    | (afterwards) "(i, (cid, n)) \<in> set (fleet_executions cfg f1 calls)" by auto
  then show ?case
  proof cases
    case now
    then have "executed_by f call r \<noteq> []" by auto
    from deliver_executed [OF assms(1) d this] obtain j cid' e ds where
      ex: "executed_by f call r = [(j, (cid', rd_attempt_number e))]" "j < length (workers f)"
      "pending_of cid' (store (workers f ! j)) = e # ds"
      "view (quorum f) (key_for (cid', rd_attempt_number e)) = None"
      "view (quorum f1) (key_for (cid', rd_attempt_number e)) \<noteq> None" by blast
    from now ex(1) have same: "j = i" "cid' = cid" "rd_attempt_number e = n" by simp_all
    from ex(2-5) [unfolded same] final stays same(3) show ?thesis by (metis list.inject)
  next
    case afterwards
    from Cons.IH [OF ok(1) this] final deliver_keys_stay [OF assms(1) d] deliver_pending [OF Cons.prems(1) d] ok(2)
    show ?thesis by (metis list.inject)
  qed
qed

text \<open>
  C9. No attempt is executed twice by a fleet of workers.  Over an etcd client whose transaction is atomic, whatever
  requests reach whatever workers in whatever order, the executions answered with success have pairwise different
  attempts, whose keys were free before the run and are taken after it; and since a decision is never
  closed, no worker executes two attempts of the same case.
\<close>

theorem fleet_executes_once:
  assumes "etcd_client (etcd_transaction cfg) view" and "fleet_ok cfg f"
  shows "distinct (map snd (fleet_executions cfg f calls))
     \<and> distinct (map (\<lambda>(i, (cid, n)). (i, cid)) (fleet_executions cfg f calls))
     \<and> (\<forall>(i, a) \<in> set (fleet_executions cfg f calls).
          view (quorum f) (key_for a) = None \<and> view (quorum (fst (fleet_run cfg f calls))) (key_for a) \<noteq> None)"
proof -
  have once: "distinct (map snd (fleet_executions cfg f calls))
     \<and> distinct (map (\<lambda>(i, (cid, n)). (i, cid)) (fleet_executions cfg f calls))"
    using assms(2)
  proof (induction calls arbitrary: f)
    case (Cons call calls)
    obtain f1 r where d: "deliver cfg call f = (f1, r)" by fastforce
    note ok = deliver_ok [OF Cons.prems d] and IH = Cons.IH [OF deliver_ok(1) [OF Cons.prems d]]
    show ?case
    proof (cases "executed_by f call r = []")
      case False
      from deliver_executed [OF assms(1) d False] obtain i cid e ds where
        ex: "executed_by f call r = [(i, (cid, rd_attempt_number e))]" "i < length (workers f)"
        "pending_of cid (store (workers f ! i)) = e # ds"
        "view (quorum f1) (key_for (cid, rd_attempt_number e)) \<noteq> None" by metis
      note fresh = fleet_executions_fresh [OF assms(1) ok(1)]
      have new: "(j, (cid, rd_attempt_number e)) \<notin> set (fleet_executions cfg f1 calls)" for j
        using fresh [of j cid "rd_attempt_number e" calls] ex(4) by metis
      obtain ds' where "pending_of cid (store (workers f1 ! i)) = e # ds'"
        using deliver_pending [OF Cons.prems d ex(2,3)] by blast
      then have "(i, (cid, n)) \<notin> set (fleet_executions cfg f1 calls)" for n
        using fresh [of i cid n calls] new [of i] by metis
      with new IH d ex(1) show ?thesis by (auto simp: image_iff)
    qed (use IH d in simp)
  qed simp
  with fleet_executions_fresh [OF assms] show ?thesis by fastforce
qed

section \<open>Stale reads\<close>

text \<open>
  The same without any knowledge of the workers' memory: each request runs on a state of its own, whatever
  its process or a shared database gave it, up to date or not; only the cluster is threaded through.
\<close>

fun contended ::
  "'c settings \<Rightarrow> 'c \<Rightarrow> ('c service \<times> (nat \<Rightarrow> datetime) \<times> string) list \<Rightarrow> 'c \<times> attempt_key list" where
  "contended cfg cl [] = (cl, [])"
| "contended cfg cl ((s, w, cid) # calls) =
     (case execute_retry cfg w cid (s\<lparr>cluster := cl\<rparr>) of
        (s', r) \<Rightarrow>
          (case contended cfg (cluster s') calls of
             (cl', won) \<Rightarrow>
               (cl', if isl r then won else (cid, rd_attempt_number (hd (pending_of cid (store s)))) # won)))"

text \<open>
  C6. No attempt is executed twice, whatever the workers have read.  Over an etcd client whose transaction is
  atomic, for any requests to execute retries, served in any order on any states whatsoever, the requests
  answered with success have pairwise different attempts, whose keys were free before and are taken after.
\<close>

theorem stale_reads_execute_once:
  assumes "etcd_client (etcd_transaction cfg) view"
  shows "distinct (snd (contended cfg cl calls))
     \<and> (\<forall>a \<in> set (snd (contended cfg cl calls)).
          view cl (key_for a) = None \<and> view (fst (contended cfg cl calls)) (key_for a) \<noteq> None)
     \<and> (\<forall>k. view cl k \<noteq> None \<longrightarrow> view (fst (contended cfg cl calls)) k \<noteq> None)"
proof (induction calls arbitrary: cl)
  case Nil
  then show ?case by simp
next
  case (Cons call calls)
  obtain s w cid where call: "call = (s, w, cid)" by (cases call)
  obtain s' r where s': "execute_retry cfg w cid (s\<lparr>cluster := cl\<rparr>) = (s', r)" by fastforce
  obtain cl' won where rest: "contended cfg (cluster s') calls = (cl', won)" by fastforce
  note IH = Cons.IH [of "cluster s'", unfolded rest fst_conv snd_conv]
  have kept: "view cl k \<noteq> None \<Longrightarrow> view (cluster s') k \<noteq> None" for k
  proof -
    have "cluster s' = cl \<or> (\<exists>k v ok. etcd_transaction cfg cl k v = (cluster s', ok))"
      using execute_retry_cluster [OF s'] by (auto simp: transacts_def)
    then show "view cl k \<noteq> None \<Longrightarrow> view (cluster s') k \<noteq> None" using etcd_client.keys_stay [OF assms] by metis
  qed
  show ?case
  proof (cases "isl r")
    case True
    with call s' rest have "contended cfg cl (call # calls) = (cl', won)" by simp
    with IH kept show ?thesis by (metis fst_conv snd_conv)
  next
    case False
    let ?a = "(cid, rd_attempt_number (hd (pending_of cid (store s))))"
    from False execute_retry_cluster [OF s'] have "transacts cfg cid (s\<lparr>cluster := cl\<rparr>) s' (Inr True)" by auto
    then have won: "view cl (key_for ?a) = None" "view (cluster s') (key_for ?a) \<noteq> None"
      using etcd_client.winner_was_first [OF assms] by (fastforce simp: transacts_def)+
    from False call s' rest have "contended cfg cl (call # calls) = (cl', ?a # won)" by simp
    with IH kept won show ?thesis by (metis distinct.simps(2) fst_conv set_ConsD snd_conv)
  qed
qed

section \<open>The race\<close>

text \<open>
  \<^verbatim>\<open>scripts/concurrency_test.py\<close> and its two variants fire the same request many times at once and count the
  status codes.  FastAPI answers an exception that is no \<^verbatim>\<open>HTTPException\<close> with 500; a port nobody listens on
  makes the client raise, which \<^verbatim>\<open>asyncio.gather\<close> returns as a value and the script skips.
\<close>

fun status_code :: "response result \<Rightarrow> int" where
  "status_code (Inr x) = 200"
| "status_code (Inl (HTTPException k)) = k"
| "status_code (Inl e) = 500"

definition race :: "string \<Rightarrow> string \<Rightarrow> (nat \<times> (nat \<Rightarrow> datetime)) list \<Rightarrow> call list" where
  "race auth cid picks = map (\<lambda>(i, w). (i, w, Execute_retry auth cid)) picks"

definition race_results :: "'c settings \<Rightarrow> 'c fleet \<Rightarrow> call list \<Rightarrow> int option list" where
  "race_results cfg f calls = map (map_option status_code) (snd (fleet_run cfg f calls))"

definition concurrency_test :: "int list \<Rightarrow> bool" where
  "concurrency_test statuses =
     (let success_count = length (filter (\<lambda>s. s = 200) statuses) in success_count = 1)"

definition concurrency_test_multi :: "int \<Rightarrow> int option list \<Rightarrow> bool" where
  "concurrency_test_multi n results =
     (let statuses = map the (filter (\<lambda>r. r \<noteq> None) results);
          success = int (length (filter (\<lambda>s. s = 200) statuses));
          rejected = int (length (filter (\<lambda>s. s = 409) statuses))
      in success = 1 \<and> rejected = n - 1)"

text \<open>
  What the race relies on of an etcd cluster that is up: transactions are answered, and a scan returns
  stored values or raises an exception.
\<close>

locale etcd_up = etcd_client "etcd_transaction cfg" view
  for cfg :: "'c settings" and view :: "'c \<Rightarrow> string \<Rightarrow> string option" +
  assumes answered: "\<exists>c' ok. etcd_transaction cfg c k v = (c', Inr ok)"
    and scanned: "etcd_get_prefix cfg c p = Inr vs \<Longrightarrow> v \<in> set vs \<Longrightarrow> \<exists>k. view c k = Some v"
    and scan_raised: "etcd_get_prefix cfg c p \<noteq> Inl Unmodelled"

text \<open>A logged value that does not name a state outside the enumeration.\<close>

definition readable :: "'c settings \<Rightarrow> string \<Rightarrow> bool" where
  "readable cfg v \<longleftrightarrow>
     (case json_loads cfg v of
        Inl e \<Rightarrow> e \<noteq> Unmodelled
      | Inr effect \<Rightarrow> (case bindR (py_item effect ''to_state'') state_of_value of Inl e \<Rightarrow> e \<noteq> Unmodelled | Inr _ \<Rightarrow> True))"

lemma apply_effect_readable:
  assumes "json_loads cfg v = Inr effect" and "readable cfg v" and "apply_effect wall c effect s = (s', r)"
  shows "r \<noteq> Inl Unmodelled"
proof -
  have item: "py_item effect ''to_state'' = Inl e \<Longrightarrow> e \<noteq> Unmodelled" for e
    by (cases effect) (auto split: option.splits)
  have get: "py_get effect k d = Inl e \<Longrightarrow> e \<noteq> Unmodelled" for e k d by (cases effect) auto
  have upd: "update_case c st = Inl e \<Longrightarrow> e \<noteq> Unmodelled" for c st e
    by (auto simp: update_case_def split: if_splits)
  have wb: "write_back c es s = (s1, r1) \<Longrightarrow> r1 \<noteq> Inl Unmodelled" for c es s1 r1
    using upd by (auto simp: write_back_def with_store_def split: sum.splits)
  have "andthen (write_back c es s) (\<lambda>s _. (s, Inr c)) = (s', r) \<Longrightarrow> r \<noteq> Inl Unmodelled" for c es
    using wb [of c es] by (cases "write_back c es s"; cases "snd (write_back c es s)") auto
  with assms get item show ?thesis
    by (auto simp: apply_effect_def readable_def Let_def split: sum.splits if_splits)
qed

lemma reconcile_values_readable:
  "\<forall>v \<in> set vs. readable cfg v \<Longrightarrow> reconcile_values cfg w cid vs s = (s', r) \<Longrightarrow> r \<noteq> Inl Unmodelled"
proof (induction vs arbitrary: w s)
  case (Cons v vs)
  show ?case
  proof (cases "json_loads cfg v")
    case (Inl e)
    with Cons.prems show ?thesis by (auto simp: readable_def)
  next
    case l: (Inr effect)
    show ?thesis
    proof (cases "get_case cid (store s)")
      case (Inl e)
      with l Cons.prems show ?thesis by (auto simp: get_case_def split: option.splits)
    next
      case c: (Inr c)
      obtain s1 r1 where a: "apply_effect (w 0) c effect s = (s1, r1)" by fastforce
      have "r1 \<noteq> Inl Unmodelled" by (rule apply_effect_readable [OF l _ a]) (use Cons.prems in simp)
      with Cons l c a show ?thesis by (cases r1) auto
    qed
  qed
qed auto

text \<open>Once the key of the first pending attempt is taken, every request to execute it is answered 409.\<close>

context etcd_up
begin

lemma reconcile_case_returns:
  assumes "\<forall>k v. view (cluster s) k = Some v \<longrightarrow> readable cfg v"
  shows "\<exists>s'. reconcile_case cfg w cid s = (s', Inr ())"
proof (cases "etcd_get_prefix cfg (cluster s) (commit_prefix @ cid @ ''/'')")
  case (Inl e)
  with scan_raised have "e \<noteq> Unmodelled" by metis
  with Inl show ?thesis by (simp add: reconcile_case_def swallow_def)
next
  case (Inr vs)
  obtain s1 r where r: "reconcile_values cfg w cid vs s = (s1, r)" by fastforce
  have "\<forall>v \<in> set vs. readable cfg v" using scanned [OF Inr] assms by blast
  from reconcile_values_readable [OF this r] Inr r show ?thesis
    by (cases r) (auto simp: reconcile_case_def swallow_def)
qed

lemma loser_refused:
  assumes "service_run cfg s" and "config_profile (config cfg) = Demo" and "use_etcd cfg"
    and "get_case cid (store s) = Inr c" and "pending_of cid (store s) = d # ds"
    and "view (cluster s) (key_for (cid, rd_attempt_number d)) \<noteq> None"
    and "\<forall>k v. view (cluster s) k = Some v \<longrightarrow> readable cfg v"
    and "execute_retry cfg w cid s = (s', r)"
  shows "r = Inl (HTTPException 409) \<and> view (cluster s') = view (cluster s)"
proof -
  let ?t = "clock_now (clk s) (w 2)" and ?n = "rd_attempt_number d"
  obtain cl ok where txn: "etcd_transaction cfg (cluster s) (key_for (cid, ?n)) (effect_text cid ?n ?t) = (cl, Inr ok)"
    using answered by blast
  from txn_answer [OF txn] assms(6) have lost: "\<not> ok" "view cl = view (cluster s)" by simp_all
  have ce: "commit_effect cfg (w 3) cid ?n ?t s = (s\<lparr>cluster := cl\<rparr>, Inr False)"
    using txn lost(1) assms(3) by (simp add: commit_effect_def etcd_commit_effect_def)
  have "\<forall>k v. view (cluster (s\<lparr>cluster := cl\<rparr>)) k = Some v \<longrightarrow> readable cfg v" using lost(2) assms(7) by simp
  from reconcile_case_returns [OF this]
  obtain s1 where r: "reconcile_case cfg (\<lambda>k. w (k + 4)) cid (s\<lparr>cluster := cl\<rparr>) = (s1, Inr ())" by blast
  have "cluster s1 = cl" using reconcile_case_cluster [of cfg "\<lambda>k. w (k + 4)" cid "s\<lparr>cluster := cl\<rparr>"] r by simp
  with ce r lost(2) have exe: "execute_decision cfg w cid c d s = (s1, Inl (HTTPException 409))"
      "view (cluster s1) = view (cluster s)"
    by (simp_all add: execute_decision_def Let_def)
  have u: "unsealed [distress_entry c' t]" for c' t by (simp add: distress_entry_def)
  have esc: "write_back (c\<lparr>state := ESCALATED\<rparr>) [distress_entry c' t] s
        = (append_entries [distress_entry c' t] (mutate (c\<lparr>state := ESCALATED\<rparr>) s), Inr ())"
    if "state c = RETRY_SCHEDULED" for c' t
    using moved_writes(1) [OF run_store_ok [OF assms(1)] assms(4) case_move.escalated [OF that] u] by blast
  show ?thesis
    using assms(2,4,5,8) exe esc
    by (auto simp: execute_retry_def demo_only_def Let_def pending_of_def split: if_splits)
qed

end

text \<open>The cases of a store stay.\<close>

lemma tx_case_stays:
  assumes "tx cfg ck st st'" and "\<exists>c. get_case k st = Inr c"
  shows "\<exists>c. get_case k st' = Inr c"
  using assms(1)
proof cases
  case (opened ev wall c ev' es d)
  with create_case_Inr(3) [OF opened(2)] assms(2) show ?thesis by (auto simp: get_case_def)
next
  case (moved k' c c')
  with update_case_Inr(2) [OF moved(3)] assms(2) show ?thesis by (auto simp: get_case_def)
next
  case (failed e c)
  with assms(2) show ?thesis by (auto simp: get_case_def record_failure_def Let_def split: if_splits)
next
  case (decided d)
  with assms(2) show ?thesis by (auto simp: get_case_def record_retry_decision_def split: if_splits)
next
  case (redecided d)
  with assms(2) show ?thesis by (auto simp: get_case_def update_retry_decision_def split: if_splits)
next
  case (audited e)
  with assms(2) show ?thesis by (simp add: get_case_def)
qed

lemma serve_case_stays:
  assumes "service_run cfg s" and "serve cfg w req s = (s', r)" and "\<exists>c. get_case k (store s) = Inr c"
  shows "\<exists>c. get_case k (store s') = Inr c"
  using txs_invariant [where I = "\<lambda>st. \<exists>c. get_case k st = Inr c", OF serve_txs [OF assms(1,2)] run_store_ok [OF assms(1)] assms(3)]
    tx_case_stays by blast

text \<open>Every worker has the case and a pending decision for it, all with the same attempt number.\<close>

definition poised :: "string \<Rightarrow> int \<Rightarrow> 'c fleet \<Rightarrow> bool" where
  "poised cid n f \<longleftrightarrow>
     (\<forall>s \<in> set (workers f). (\<exists>c. get_case cid (store s) = Inr c) \<and> (\<exists>d ds. pending_of cid (store s) = d # ds \<and> rd_attempt_number d = n))"

lemma poisedD:
  assumes "poised cid n f" and "i < length (workers f)"
  shows "\<exists>c. get_case cid (store (workers f ! i)) = Inr c"
    and "\<exists>d ds. pending_of cid (store (workers f ! i)) = d # ds \<and> rd_attempt_number d = n"
  using assms by (auto simp: poised_def)

lemma deliver_poised:
  assumes "fleet_ok cfg f" and "poised cid n f" and "deliver cfg call f = (f', r)"
  shows "poised cid n f'"
proof -
  obtain i w req where call: "call = (i, w, req)" by (cases call)
  show ?thesis
  proof (cases "i < length (workers f)")
    case True
    obtain s x where s: "serve cfg w req (worker_state f i) = (s, x)" by fastforce
    note run = worker_runs [OF assms(1) True]
    have "\<exists>c. get_case cid (store s) = Inr c"
      using serve_case_stays [OF run s] poisedD(1) [OF assms(2) True] by simp
    moreover have "\<exists>d ds. pending_of cid (store s) = d # ds \<and> rd_attempt_number d = n"
      using serve_pending [OF run s] poisedD(2) [OF assms(2) True] by fastforce
    ultimately have "poised cid n \<lparr>workers = (workers f)[i := s], quorum = cluster s\<rparr>"
      using assms(2) set_update_subset_insert [of "workers f" i s] by (auto simp: poised_def)
    with assms(3) call True s show ?thesis by auto
  qed (use assms call in simp)
qed

lemma fleet_run_Cons:
  "deliver cfg call f = (f1, r) \<Longrightarrow> snd (fleet_run cfg f (call # calls)) = r # snd (fleet_run cfg f1 calls)"
  by (simp add: Let_def split: prod.split)

lemma race_Cons: "race auth cid ((i, w) # picks) = (i, w, Execute_retry auth cid) # race auth cid picks"
  by (simp add: race_def)

lemma demo_guarded: "config_profile (config cfg) = Demo \<Longrightarrow> guarded cfg auth s out = out"
  by (simp add: guarded_def require_admin_token_def)

lemma race_lost:
  assumes "etcd_up cfg view" and "config_profile (config cfg) = Demo" and "use_etcd cfg"
    and "fleet_ok cfg f" and "poised cid n f"
    and "view (quorum f) (key_for (cid, n)) \<noteq> None" and "\<forall>k v. view (quorum f) k = Some v \<longrightarrow> readable cfg v"
    and "\<forall>(i, w) \<in> set picks. i < length (workers f)"
  shows "snd (fleet_run cfg f (race auth cid picks)) = replicate (length picks) (Some (Inl (HTTPException 409)))"
  using assms(4-8)
proof (induction picks arbitrary: f)
  case Nil
  then show ?case by (simp add: race_def)
next
  case (Cons p picks)
  obtain i w where p: "p = (i, w)" by fastforce
  with Cons.prems(5) have i: "i < length (workers f)" by simp
  let ?call = "(i, w, Execute_retry auth cid)"
  obtain s r where s: "execute_retry cfg w cid (worker_state f i) = (s, r)" by fastforce
  have d: "deliver cfg ?call f = (\<lparr>workers = (workers f)[i := s], quorum = cluster s\<rparr>, Some r)" (is "_ = (?f, _)")
    using i s demo_guarded [OF assms(2)] by simp
  obtain c where c: "get_case cid (store (worker_state f i)) = Inr c" using poisedD(1) [OF Cons.prems(2) i] by auto
  obtain e ds where e: "pending_of cid (store (worker_state f i)) = e # ds" "rd_attempt_number e = n"
    using poisedD(2) [OF Cons.prems(2) i] by auto
  have taken: "view (cluster (worker_state f i)) (key_for (cid, rd_attempt_number e)) \<noteq> None"
    "\<forall>k v. view (cluster (worker_state f i)) k = Some v \<longrightarrow> readable cfg v"
    using Cons.prems(3,4) e(2) by simp_all
  have lost: "r = Inl (HTTPException 409)" "view (cluster s) = view (quorum f)"
    using etcd_up.loser_refused [OF assms(1) worker_runs [OF Cons.prems(1) i] assms(2,3) c e(1) taken s] by simp_all
  have "snd (fleet_run cfg ?f (race auth cid picks)) = replicate (length picks) (Some (Inl (HTTPException 409)))"
    by (rule Cons.IH [OF deliver_ok(1) [OF Cons.prems(1) d] deliver_poised [OF Cons.prems(1,2) d]])
      (use Cons.prems(3-5) lost(2) in auto)
  with fleet_run_Cons [OF d] lost(1) p show ?case by (simp add: race_Cons)
qed

text \<open>
  C7. Of simultaneous requests to execute a retry exactly one succeeds.  When every worker of the fleet has the case with the
  same attempt pending, the attempt's key is free and the cluster is up, and the request that reaches the
  cluster first is due, on a scheduled case whose instrument is not in distress, it is answered with
  RETRY_EXECUTED and each of the others, at whatever worker, in whatever order and however many, with 409:
  the concurrency scripts pass.
\<close>

theorem race_has_one_winner:
  assumes "etcd_up cfg view" and "config_profile (config cfg) = Demo" and "use_etcd cfg"
    and "fleet_ok cfg f" and "poised cid n f"
    and "view (quorum f) (key_for (cid, n)) = None" and "\<forall>k v. view (quorum f) k = Some v \<longrightarrow> readable cfg v"
    and "\<forall>t. readable cfg (effect_text cid n t)"
    and "\<forall>(j, v) \<in> set ((i, w) # picks). j < length (workers f)"
    and "get_case cid (store (workers f ! i)) = Inr c" and "state c = RETRY_SCHEDULED"
    and "\<not> is_distressed (distress (workers f ! i)) (instrument_id c) (clock_now (clk (workers f ! i)) (w 0))"
    and "rd_scheduled_at (hd (pending_of cid (store (workers f ! i)))) \<le> clock_now (clk (workers f ! i)) (w 1)"
  shows "snd (fleet_run cfg f (race auth cid ((i, w) # picks)))
       = Some (Inr (Case_status cid RETRY_EXECUTED)) # replicate (length picks) (Some (Inl (HTTPException 409)))
     \<and> concurrency_test (map the (race_results cfg f (race auth cid ((i, w) # picks))))
     \<and> concurrency_test_multi (1 + int (length picks)) (race_results cfg f (race auth cid ((i, w) # picks)))"
proof -
  have i: "i < length (workers f)" and rest: "\<forall>(j, v) \<in> set picks. j < length (workers f)" using assms(9) by auto
  let ?s = "worker_state f i"
  obtain d ds where d: "pending_of cid (store ?s) = d # ds" "rd_attempt_number d = n"
    using poisedD(2) [OF assms(5) i] by auto
  let ?k = "key_for (cid, n)" and ?v = "effect_text cid n (clock_now (clk ?s) (w 2))"
  obtain cl ok where txn: "etcd_transaction cfg (cluster ?s) ?k ?v = (cl, Inr ok)"
    using etcd_up.answered [OF assms(1)] by blast
  have client: "etcd_client (etcd_transaction cfg) view" using assms(1) by (rule etcd_up.axioms(1))
  from etcd_client.txn_answer [OF client txn] assms(6) have won: "ok" "view cl = (view (quorum f))(?k \<mapsto> ?v)" by simp_all
  obtain s where s: "execute_retry cfg w cid ?s = (s, Inr (Case_status cid RETRY_EXECUTED))" "cluster s = cl"
  proof (rule scheduled_retry_executes [where w = w and s = ?s, OF worker_runs [OF assms(4) i] assms(2,3)])
    show "get_case cid (store ?s) = Inr c" "state c = RETRY_SCHEDULED"
      "\<not> is_distressed (distress ?s) (instrument_id c) (clock_now (clk ?s) (w 0))"
      using assms(10-12) by simp_all
    show "filter (\<lambda>d. rd_case_id d = cid) (get_pending_retries (store ?s)) = d # ds"
      using d(1) by (simp add: pending_of_def)
    show "rd_scheduled_at d \<le> clock_now (clk ?s) (w 1)" using assms(13) d(1) by simp
    show "etcd_transaction cfg (cluster ?s) (key_for (cid, rd_attempt_number d))
           (effect_text cid (rd_attempt_number d) (clock_now (clk ?s) (w 2))) = (cl, Inr True)"
      using txn won(1) d(2) by simp
  qed (rule that)
  have dl: "deliver cfg (i, w, Execute_retry auth cid) f
      = (\<lparr>workers = (workers f)[i := s], quorum = cl\<rparr>, Some (Inr (Case_status cid RETRY_EXECUTED)))" (is "_ = (?f, _)")
    using i s demo_guarded [OF assms(2)] by simp
  have "snd (fleet_run cfg ?f (race auth cid picks)) = replicate (length picks) (Some (Inl (HTTPException 409)))"
    by (rule race_lost [OF assms(1-3) deliver_ok(1) [OF assms(4) dl] deliver_poised [OF assms(4,5) dl]])
      (use won(2) assms(7,8) rest in auto)
  with fleet_run_Cons [OF dl] have answers: "snd (fleet_run cfg f (race auth cid ((i, w) # picks)))
       = Some (Inr (Case_status cid RETRY_EXECUTED)) # replicate (length picks) (Some (Inl (HTTPException 409)))"
    by (simp add: race_Cons)
  then show ?thesis
    by (simp add: race_results_def concurrency_test_def concurrency_test_multi_def)
qed

end
