(* ===== verification/Convergence.thy ===== *)
theory Convergence
  imports Workers Reconciliation
begin

text \<open>
  What a race leaves behind: the workers that lost find the winner's effect in the commit log and apply it
  to their own copy of the case, so that all workers agree.
\<close>

section \<open>A refused worker\<close>

text \<open>A cluster whose prefix scan returns exactly the values stored under the prefix.\<close>

locale etcd_scan = etcd_up cfg view
  for cfg :: "'c settings" and view :: "'c \<Rightarrow> string \<Rightarrow> string option" +
  assumes scan_all: "\<exists>vs. etcd_get_prefix cfg c p = Inr vs \<and> set vs = {v. \<exists>k. view c k = Some v \<and> py_startswith p k}"

definition case_log :: "'c settings \<Rightarrow> ('c \<Rightarrow> string \<Rightarrow> string option) \<Rightarrow> string \<Rightarrow> 'c \<Rightarrow> bool" where
  "case_log cfg view cid cl \<longleftrightarrow>
     (\<forall>k v. view cl k = Some v \<and> py_startswith (commit_prefix @ cid @ ''/'') k \<longrightarrow> logged_effect cfg cid v)"

text \<open>A worker that would execute the case's first pending attempt now.\<close>

definition ready :: "string \<Rightarrow> (nat \<Rightarrow> datetime) \<Rightarrow> 'c service \<Rightarrow> bool" where
  "ready cid w s \<longleftrightarrow>
     (\<exists>c. get_case cid (store s) = Inr c \<and> state c = RETRY_SCHEDULED
        \<and> \<not> is_distressed (distress s) (instrument_id c) (clock_now (clk s) (w 0)))
     \<and> rd_scheduled_at (hd (pending_of cid (store s))) \<le> clock_now (clk s) (w 1)"

definition settled :: "string \<Rightarrow> 'c service \<Rightarrow> bool" where
  "settled cid s \<longleftrightarrow> (\<exists>c. get_case cid (store s) = Inr c \<and> state c = RETRY_EXECUTED)"

lemma key_under_prefix: "py_startswith (commit_prefix @ cid @ ''/'') (key_for (cid, n))"
  by (auto simp: py_startswith_iff key_for_def)

context etcd_scan
begin

lemma loser_settles:
  assumes "service_run cfg s" and "config_profile (config cfg) = Demo" and "use_etcd cfg" and "ready cid w s"
    and "pending_of cid (store s) = d # ds" and "view (cluster s) (key_for (cid, rd_attempt_number d)) \<noteq> None"
    and "case_log cfg view cid (cluster s)" and "execute_retry cfg w cid s = (s', r)"
  shows "settled cid s' \<and> view (cluster s') = view (cluster s)"
proof -
  obtain c where c: "get_case cid (store s) = Inr c" "state c = RETRY_SCHEDULED"
      "\<not> is_distressed (distress s) (instrument_id c) (clock_now (clk s) (w 0))"
    and due: "rd_scheduled_at d \<le> clock_now (clk s) (w 1)"
    using assms(4,5) by (auto simp: ready_def)
  let ?t = "clock_now (clk s) (w 2)" and ?n = "rd_attempt_number d"
  obtain cl ok where txn: "etcd_transaction cfg (cluster s) (key_for (cid, ?n)) (effect_text cid ?n ?t) = (cl, Inr ok)"
    using answered by blast
  from txn_answer [OF txn] assms(6) have lost: "\<not> ok" "view cl = view (cluster s)" by simp_all
  have ce: "commit_effect cfg (w 3) cid ?n ?t s = (s\<lparr>cluster := cl\<rparr>, Inr False)"
    using txn lost(1) assms(3) by (simp add: commit_effect_def etcd_commit_effect_def)
  obtain vs where vs: "etcd_get_prefix cfg cl (commit_prefix @ cid @ ''/'') = Inr vs"
      "set vs = {v. \<exists>k. view cl k = Some v \<and> py_startswith (commit_prefix @ cid @ ''/'') k}"
    using scan_all by blast
  have logged: "\<forall>v \<in> set vs. logged_effect cfg cid v" using assms(7) lost(2) vs(2) by (auto simp: case_log_def)
  from assms(6) obtain v where "view cl (key_for (cid, ?n)) = Some v" using lost(2) by auto
  then have "v \<in> set vs" using key_under_prefix vs(2) by blast
  then have found: "vs \<noteq> []" by auto
  have stored: "store_ok (store (s\<lparr>cluster := cl\<rparr>))" "get_case cid (store (s\<lparr>cluster := cl\<rparr>)) = Inr c"
    using run_store_ok [OF assms(1)] c(1) by simp_all
  from reconcile_values_executes [where w = "\<lambda>k. w (k + 4)", OF stored(1) assms(3) stored(2) found logged]
  obtain s1 where r: "reconcile_values cfg (\<lambda>k. w (k + 4)) cid vs (s\<lparr>cluster := cl\<rparr>) = (s1, Inr ())"
      "cluster s1 = cl" "get_case cid (store s1) = Inr (c\<lparr>state := RETRY_EXECUTED\<rparr>)"
    by auto
  have "reconcile_case cfg (\<lambda>k. w (k + 4)) cid (s\<lparr>cluster := cl\<rparr>) = (s1, Inr ())"
    using assms(3) vs(1) r(1) by (simp add: reconcile_case_def swallow_def)
  with ce have "execute_decision cfg w cid c d s = (s1, Inl (HTTPException 409))"
    by (simp add: execute_decision_def Let_def)
  with assms(2,5) c due have "execute_retry cfg w cid s = (s1, Inl (HTTPException 409))"
    by (simp add: execute_retry_def demo_only_def pending_of_def)
  with assms(8) r(2,3) lost(2) show ?thesis by (simp add: settled_def)
qed

end

lemma settled_stays_put:
  assumes "config_profile (config cfg) = Demo" and "settled cid s"
  shows "execute_retry cfg w cid s = (s, Inl (HTTPException 409))"
  using assms by (auto simp: settled_def execute_retry_def demo_only_def)

section \<open>The whole fleet\<close>

lemma fleet_run_fst: "deliver cfg call f = (f1, r) \<Longrightarrow> fst (fleet_run cfg f (call # calls)) = fst (fleet_run cfg f1 calls)"
  by (simp add: Let_def split: prod.split)

lemma settled_worker [simp]: "settled cid (worker_state f i) = settled cid (workers f ! i)"
  "ready cid w (worker_state f i) = ready cid w (workers f ! i)"
  by (simp_all add: settled_def ready_def)

lemma other_workers:
  assumes "\<forall>(j, v) \<in> set picks. j < length ss \<and> P v (ss ! j)" and "\<And>v. P v s"
  shows "\<forall>(j, v) \<in> set picks. j < length (ss[i := s]) \<and> P v (ss[i := s] ! j)"
proof
  fix q assume q: "q \<in> set picks"
  obtain j v where "q = (j, v)" by fastforce
  with q assms show "case q of (j, v) \<Rightarrow> j < length (ss[i := s]) \<and> P v (ss[i := s] ! j)"
    by (cases "j = i") auto
qed

text \<open>The requests after the winner's: each is served by a worker that is settled, or ready and then refused.\<close>

lemma race_settles:
  assumes "etcd_scan cfg view" and "config_profile (config cfg) = Demo" and "use_etcd cfg"
    and "fleet_ok cfg f" and "poised cid n f"
    and "view (quorum f) (key_for (cid, n)) \<noteq> None" and "case_log cfg view cid (quorum f)"
    and "\<forall>(i, w) \<in> set picks. i < length (workers f) \<and> (settled cid (workers f ! i) \<or> ready cid w (workers f ! i))"
  shows "(\<forall>j < length (workers f). settled cid (workers f ! j) \<or> j \<in> fst ` set picks
      \<longrightarrow> settled cid (workers (fst (fleet_run cfg f (race auth cid picks))) ! j))"
  using assms(4-8)
proof (induction picks arbitrary: f)
  case Nil
  then show ?case by (simp add: race_def)
next
  case (Cons p picks)
  obtain i w where p: "p = (i, w)" by fastforce
  with Cons.prems(5) have i: "i < length (workers f)" "settled cid (workers f ! i) \<or> ready cid w (workers f ! i)" by simp_all
  obtain s r where s: "execute_retry cfg w cid (worker_state f i) = (s, r)" by fastforce
  have d: "deliver cfg (i, w, Execute_retry auth cid) f = (\<lparr>workers = (workers f)[i := s], quorum = cluster s\<rparr>, Some r)"
    (is "_ = (?f, _)")
    using i(1) s demo_guarded [OF assms(2)] by simp
  have step: "settled cid s \<and> view (cluster s) = view (quorum f)"
  proof (cases "settled cid (workers f ! i)")
    case True
    with settled_stays_put [OF assms(2), of cid "worker_state f i" w] s show ?thesis by simp
  next
    case False
    with i(2) have ready: "ready cid w (worker_state f i)" by simp
    obtain e ds where e: "pending_of cid (store (worker_state f i)) = e # ds" "rd_attempt_number e = n"
      using poisedD(2) [OF Cons.prems(2) i(1)] by auto
    have "view (cluster (worker_state f i)) (key_for (cid, rd_attempt_number e)) \<noteq> None"
      "case_log cfg view cid (cluster (worker_state f i))" using Cons.prems(3,4) e(2) by simp_all
    from etcd_scan.loser_settles [OF assms(1) worker_runs [OF Cons.prems(1) i(1)] assms(2,3) ready e(1) this s]
    show ?thesis by simp
  qed
  have later: "\<forall>(j, v) \<in> set picks. j < length (workers ?f) \<and> (settled cid (workers ?f ! j) \<or> ready cid v (workers ?f ! j))"
    using other_workers [of picks "workers f" "\<lambda>v s. settled cid s \<or> ready cid v s" s i] Cons.prems(5) step by simp
  have "\<forall>j < length (workers ?f). settled cid (workers ?f ! j) \<or> j \<in> fst ` set picks
      \<longrightarrow> settled cid (workers (fst (fleet_run cfg ?f (race auth cid picks))) ! j)"
    by (rule Cons.IH [OF deliver_ok(1) [OF Cons.prems(1) d] deliver_poised [OF Cons.prems(1,2) d] _ _ later])
      (use step Cons.prems(3,4) in \<open>simp_all add: case_log_def\<close>)
  with step i(1) fleet_run_fst [OF d] p show ?case
    by (auto simp: race_Cons nth_list_update split: if_splits)
qed

text \<open>
  C8. After a race the workers agree.  When every request finds its worker ready to execute the same attempt, on a
  cluster that is up, whose log for the case holds only effects of the case and which reads the winner's
  effect back as it was written, every worker that was addressed, the winner and all that were refused, has the case
  stored as executed.
\<close>

theorem race_converges:
  assumes "etcd_scan cfg view" and "config_profile (config cfg) = Demo" and "use_etcd cfg"
    and "fleet_ok cfg f" and "poised cid n f"
    and "view (quorum f) (key_for (cid, n)) = None" and "case_log cfg view cid (quorum f)"
    and "logged_effect cfg cid (effect_text cid n (clock_now (clk (workers f ! i)) (w 2)))"
    and "\<forall>(j, v) \<in> set ((i, w) # picks). j < length (workers f) \<and> ready cid v (workers f ! j)"
    and "j \<in> fst ` set ((i, w) # picks)"
  shows "\<exists>c. get_case cid (store (workers (fst (fleet_run cfg f (race auth cid ((i, w) # picks)))) ! j)) = Inr c
     \<and> state c = RETRY_EXECUTED"
proof -
  let ?s = "worker_state f i"
  have i: "i < length (workers f)" and ready: "ready cid w ?s" using assms(9) by auto
  obtain c where c: "get_case cid (store ?s) = Inr c" "state c = RETRY_SCHEDULED"
      "\<not> is_distressed (distress ?s) (instrument_id c) (clock_now (clk ?s) (w 0))"
    and due: "rd_scheduled_at (hd (pending_of cid (store ?s))) \<le> clock_now (clk ?s) (w 1)"
    using ready unfolding ready_def by blast
  obtain d ds where d: "pending_of cid (store ?s) = d # ds" "rd_attempt_number d = n"
    using poisedD(2) [OF assms(5) i] by auto
  let ?k = "key_for (cid, n)" and ?v = "effect_text cid n (clock_now (clk ?s) (w 2))"
  have up: "etcd_up cfg view" using assms(1) by (rule etcd_scan.axioms(1))
  have client: "etcd_client (etcd_transaction cfg) view" using up by (rule etcd_up.axioms(1))
  obtain cl ok where txn: "etcd_transaction cfg (cluster ?s) ?k ?v = (cl, Inr ok)"
    using etcd_up.answered [OF up] by blast
  from etcd_client.txn_answer [OF client txn] assms(6) have won: "ok" "view cl = (view (quorum f))(?k \<mapsto> ?v)" by simp_all
  from txn won(1) d(2)
  have txn': "etcd_transaction cfg (cluster ?s) (key_for (cid, rd_attempt_number d))
      (effect_text cid (rd_attempt_number d) (clock_now (clk ?s) (w 2))) = (cl, Inr True)" by simp
  obtain s where s: "execute_retry cfg w cid ?s = (s, Inr (Case_status cid RETRY_EXECUTED))" "cluster s = cl"
      "get_case cid (store s) = Inr (c\<lparr>state := RETRY_EXECUTED\<rparr>)"
    by (rule scheduled_retry_executes [where w = w and s = ?s, OF worker_runs [OF assms(4) i] assms(2,3) c
          d(1) [unfolded pending_of_def] _ txn'])
      (use due d(1) in simp_all)
  have dl: "deliver cfg (i, w, Execute_retry auth cid) f
      = (\<lparr>workers = (workers f)[i := s], quorum = cl\<rparr>, Some (Inr (Case_status cid RETRY_EXECUTED)))" (is "_ = (?f, _)")
    using i s demo_guarded [OF assms(2)] by simp
  have settled: "settled cid s" using s(3) by (simp add: settled_def)
  have log: "case_log cfg view cid (quorum ?f)"
    using assms(7,8) won(2) by (auto simp: case_log_def)
  have rest: "\<forall>(j, v) \<in> set picks. j < length (workers ?f) \<and> (settled cid (workers ?f ! j) \<or> ready cid v (workers ?f ! j))"
    using other_workers [of picks "workers f" "\<lambda>v s. settled cid s \<or> ready cid v s" s i] assms(9) settled by fastforce
  have jl: "j < length (workers f)" using assms(9,10) by fastforce
  have "view (quorum ?f) ?k \<noteq> None" using won(2) by simp
  from race_settles [OF assms(1-3) deliver_ok(1) [OF assms(4) dl] deliver_poised [OF assms(4,5) dl] this log rest]
  have "settled cid (workers (fst (fleet_run cfg ?f (race auth cid picks))) ! j)"
    using jl assms(10) settled i by (auto simp: nth_list_update)
  with fleet_run_fst [OF dl] show ?thesis by (simp add: race_Cons settled_def)
qed

end
