(* ===== verification/Load_Test.thy ===== *)
theory Load_Test
  imports Endpoint_Properties
begin

text \<open>
  The load generator of \<^verbatim>\<open>scripts/load_test.py\<close> against the service.
\<close>

section \<open>A new payment is always accepted\<close>

lemma new_failure_case:
  assumes "failure_event_ok ev" and "fe_instrument_id ev \<noteq> []" and "fe_mandate_id ev = Some m" and "m \<noteq> []"
    and "valid_clock ck" and "0 \<le> control_observation_window (self_imposed cfg)" and "afa_ceiling cfg ev = Inr limit"
  shows "\<exists>c ev' es. handle_new_failure ev cfg ck wall = Inr (c, ev', es, None) \<and> case_id c = fe_case_id ev \<and> mandate_id c = m"
proof -
  obtain d where d: "resolve_delay ck (control_observation_window (self_imposed cfg)) = Inr d"
    using clk.resolved [OF assms(5,6)] by blast
  have ceil: "afa_ceiling cfg (ev\<lparr>decline_class := x\<rparr>) = Inr limit" for x
    using assms(7) by (simp add: afa_ceiling_cong [of "ev\<lparr>decline_class := x\<rparr>" ev])
  show ?thesis
    using assms(1-4) d ceil
    by (simp add: handle_new_failure_def Let_def RecoveryCase_def failure_event_ok_def assign_bucket_def)
qed

text \<open>Neither the payment, nor the case it would open, nor its mandate is known.\<close>

definition unknown :: "string \<Rightarrow> string \<Rightarrow> case_store \<Rightarrow> bool" where
  "unknown pid m st \<longleftrightarrow>
     find_attempt_by_payment_id pid st = None \<and> dict_get (cases st) pid = None \<and> dict_get (mandate_index st) m = None"

definition opens :: "string \<Rightarrow> string \<Rightarrow> case_store \<Rightarrow> case_store \<Rightarrow> bool" where
  "opens pid m st st' \<longleftrightarrow>
     (\<exists>c. cases st' = dict_set pid c (cases st)) \<and> mandate_index st' = dict_set m pid (mandate_index st)
     \<and> payment_attempt_index st' = dict_set pid (pid, 1) (payment_attempt_index st)"

lemma append_all_indexes [simp]:
  "mandate_index (append_all es st) = mandate_index st" "payment_index (append_all es st) = payment_index st"
  by (induction es arbitrary: st) (simp_all add: append_all_def append_audit_def Let_def)

lemma new_payment_accepted:
  assumes "service_run cfg s" and "config_profile (config cfg) = Demo" and "pid \<noteq> []" and "vpa \<noteq> []" and "0 < amount"
    and "dict_get ns ''mandate_id'' = Some (PStr m)" and "m \<noteq> []" and "dict_get ns ''category'' = None"
    and "0 \<le> w 0 div usec_per_second" and "w 0 div usec_per_second \<le> 253402300799"
    and "0 \<le> control_observation_window (self_imposed (config cfg))"
    and "dict_get (afa_free_ceiling (npci (config cfg))) ''default'' = Some limit"
    and "unknown pid m (store s)"
  shows "\<exists>s' st. simulate_failure cfg w pid amount vpa code reason (Some ns) s = (s', Inr (Case_status pid st))
     \<and> opens pid m (store s) (store s')"
proof -
  let ?p = "simulated_payload pid amount vpa code reason (Some ns) (w 0 div usec_per_second)"
  have stamp: "fromtimestamp (w 0 div usec_per_second) = Inr (w 0 div usec_per_second * usec_per_second)"
    using assms(9,10) by (simp add: fromtimestamp_def)
  have ns: "py_or (PDict ns) (PDict []) = PDict ns" by (simp add: py_or_def)
  obtain ev where ev: "parse_payment_failed ?p None None = Inr ev" "fe_payment_id ev = pid" "fe_case_id ev = pid"
      "fe_mandate_id ev = Some m" "fe_notes ev = Some ns" "fe_instrument_id ev = sha256_hex vpa" "attempt_number ev = 1"
    using assms(3-7)
    by (simp add: parse_payment_failed_def simulated_payload_entity positive_amount_def timestamp_of_def stamp
        resolve_attempt_def Let_def ns PaymentFailureEvent_def opt_text_field_of [of "Some m", simplified])
  have "afa_ceiling (config cfg) ev = Inr limit"
    using assms(8,12) ev(5) by (simp add: afa_ceiling_def)
  moreover have "fe_instrument_id ev \<noteq> []" using ev(6) by simp
  moreover have "valid_clock (clk s)" using run_reachable [OF assms(1)] by simp
  ultimately obtain c ev' es where h: "handle_new_failure ev (config cfg) (clk s) (w 1) = Inr (c, ev', es, None)"
      and c: "case_id c = pid" "mandate_id c = m"
    using new_failure_case [OF parse_payment_failed_fields(1) [OF ev(1)] _ ev(4) assms(7) _ assms(11)] ev(3) by metis
  have hp: "handle_payment_failed None ev (config cfg) (clk s) (w 1) = Inr (c, ev', es, None)"
    using h by (simp add: handle_payment_failed_def)
  obtain k where ev': "ev' = ev\<lparr>decline_class := k\<rparr>" using handle_payment_failed_facts(1) [OF hp] by blast
  note new = assms(13) [unfolded unknown_def]
  let ?st = "(store s)\<lparr>cases := dict_set pid c (cases (store s)), mandate_index := dict_set m pid (mandate_index (store s)),
       payment_index := dict_set pid pid (payment_index (store s))\<rparr>"
  have create: "create_case c (store s) = Inr ?st"
    using new c assms(7) by (simp add: create_case_def Let_def index_mandate_def)
  have "dict_get (failures (store s)) (pid, 1) = None"
    using failures_storedD [OF run_failures_stored [OF assms(1)], of pid 1] new
    by (cases "dict_get (failures (store s)) (pid, 1)") auto
  then have rec: "record_failure ev' ?st = Inr (?st\<lparr>failures := dict_set (pid, 1) ev' (failures (store s)),
      payment_attempt_index := dict_set pid (pid, 1) (payment_attempt_index (store s))\<rparr>)" (is "_ = Inr ?st2")
    using new ev(2,3,7) ev' by (simp add: record_failure_def Let_def find_attempt_by_payment_id_def)
  have "persist_failure cfg (\<lambda>k. w (k + 1)) None c ev' es None s = (append_entries es (s\<lparr>store := ?st2\<rparr>), Inr ())"
    using create rec by (simp add: persist_failure_def with_store_def record_optional_def)
  then have "\<exists>s'. process_failure cfg (\<lambda>k. w (k + 1)) ?p None s = (s', Inr (c, ev'))
      \<and> store s' = append_all es ?st2"
    using ev(1) hp by (simp add: process_failure_def raise_as_def)
  then obtain s' where s': "process_failure cfg (\<lambda>k. w (k + 1)) ?p None s = (s', Inr (c, ev'))" "store s' = append_all es ?st2"
    by blast
  have "find_case_by_mandate m (store s) = None"
    using new by (simp add: find_case_by_mandate_def find_indexed_def)
  with s'(1) assms(2,6,7) c(1)
  have "simulate_failure cfg w pid amount vpa code reason (Some ns) s = (s', Inr (Case_status pid (state c)))"
    by (simp add: simulate_failure_def demo_only_def Let_def case_of_mandate_def)
  moreover have "opens pid m (store s) (store s')" using s'(2) by (auto simp: opens_def)
  ultimately show ?thesis by blast
qed

text \<open>A recorded payment is always refused.\<close>

lemma andthen_stops: "\<exists>e. snd out = Inl e \<Longrightarrow> \<exists>e. snd (andthen out f) = Inl e"
  by (cases out) auto

lemma processed_was_fresh:
  assumes "process_failure cfg w payload existing s = (s', Inr (c, ev))"
  shows "\<exists>ev0 n. parse_payment_failed payload existing n = Inr ev0 \<and> find_attempt_by_payment_id (fe_payment_id ev0) (store s) = None"
proof -
  let ?n = "case existing of None \<Rightarrow> None | Some c \<Rightarrow> Some (get_max_attempt_number (case_id c) (store s) + 1)"
  obtain ev0 where ev0: "parse_payment_failed payload existing ?n = Inr ev0"
    using assms by (cases "parse_payment_failed payload existing ?n") (auto simp: process_failure_def raise_as_def)
  obtain es d s1 where h: "handle_payment_failed existing ev0 (config cfg) (clk s) (w 0) = Inr (c, ev, es, d)"
    and pf: "persist_failure cfg w existing c ev es d s = (s1, Inr ())"
    using assms ev0
    by (cases "handle_payment_failed existing ev0 (config cfg) (clk s) (w 0)")
      (auto simp: process_failure_def raise_as_def split: prod.splits sum.splits)
  from pf obtain s2 s3 where first: "(case existing of None \<Rightarrow> with_store (create_case c) s
         | Some _ \<Rightarrow> with_store (update_case c) (mutate c s)) = (s2, Inr ())"
      and rec: "with_store (record_failure ev) s2 = (s3, Inr ())"
    unfolding persist_failure_def by (elim andthen_InrE) simp
  have "payment_attempt_index (store s2) = payment_attempt_index (store s)"
    using first
    by (auto simp: with_store_def create_case_def update_case_def index_mandate_def mutate_def Let_def
        split: option.splits sum.splits if_splits)
  moreover have "dict_get (payment_attempt_index (store s2)) (fe_payment_id ev) = None"
    using rec by (auto simp: with_store_def record_failure_def Let_def simp del: not_None_eq split: sum.splits if_splits)
  moreover have "fe_payment_id ev = fe_payment_id ev0" using handle_payment_failed_facts(1) [OF h] by auto
  ultimately show ?thesis using ev0 by (auto simp: find_attempt_by_payment_id_def)
qed

lemma known_payment_refused:
  assumes "find_attempt_by_payment_id pid (store s) = Some k"
  shows "\<exists>e. snd (simulate_failure cfg w pid amount vpa code reason ns s) = Inl e"
proof -
  let ?p = "simulated_payload pid amount vpa code reason ns (w 0 div usec_per_second)"
  have "\<exists>e. snd (process_failure cfg (\<lambda>k. w (k + 1)) ?p existing s) = Inl e" for existing
  proof (cases "snd (process_failure cfg (\<lambda>k. w (k + 1)) ?p existing s)")
    case (Inr q)
    obtain s1 c ev where "process_failure cfg (\<lambda>k. w (k + 1)) ?p existing s = (s1, Inr (c, ev))"
      using Inr by (metis prod.collapse)
    from processed_was_fresh [OF this] obtain ev0 n where
      ev0: "parse_payment_failed ?p existing n = Inr ev0" "find_attempt_by_payment_id (fe_payment_id ev0) (store s) = None"
      by blast
    from parse_payment_failed_fields(3) [OF ev0(1)] have "fe_payment_id ev0 = pid" by (auto simp: simulated_payload_entity)
    with ev0(2) assms show ?thesis by simp
  qed blast
  then have "\<forall>existing. \<exists>e. snd (process_failure cfg (\<lambda>k. w (k + 1)) ?p existing s) = Inl e" by blast
  then show ?thesis
    unfolding simulate_failure_def demo_only_def Let_def
    by (auto split: sum.split intro!: andthen_stops)
qed

section \<open>The script\<close>

text \<open>
  A request of the script, as the endpoint receives it; \<^verbatim>\<open>urlopen\<close> raises for every status but success.  The
  main function counts the answers in the order they come in; throughput and time-outs are not modelled.
\<close>

definition load_id :: "int \<Rightarrow> string" where
  "load_id i = ''pay_load_'' @ py_str_int i"

definition load_mandate :: "int \<Rightarrow> string" where
  "load_mandate i = ''mandate_load_'' @ py_str_int i"

definition load_request :: "int \<Rightarrow> request" where
  "load_request i =
     Simulate_failure [] (load_id i) 50000 (''loaduser'' @ py_str_int i @ ''@upi'') ''bank_server_down'' (Some ''load_test'')
       (Some [(''mandate_id'', PStr (load_mandate i))])"

definition send_failure :: "'c settings \<Rightarrow> (nat \<Rightarrow> datetime) \<Rightarrow> int \<Rightarrow> 'c service \<Rightarrow> 'c service \<times> bool" where
  "send_failure cfg w i s = (case serve cfg w (load_request i) s of (s, r) \<Rightarrow> (s, \<not> isl r))"

fun load_test :: "'c settings \<Rightarrow> (int \<times> (nat \<Rightarrow> datetime)) list \<Rightarrow> nat \<Rightarrow> nat \<Rightarrow> 'c service \<Rightarrow> 'c service \<times> nat \<times> nat" where
  "load_test cfg [] success failure s = (s, success, failure)"
| "load_test cfg ((i, w) # rs) success failure s =
     (case send_failure cfg w i s of
        (s, ok) \<Rightarrow> if ok then load_test cfg rs (success + 1) failure s else load_test cfg rs success (failure + 1) s)"

lemma load_id_inj [simp]: "load_id i = load_id j \<longleftrightarrow> i = j" "load_mandate i = load_mandate j \<longleftrightarrow> i = j"
  using py_str_int_inj by (auto simp: load_id_def load_mandate_def)

lemma opens_unknown:
  assumes "opens (load_id i) (load_mandate i) st st'" and "unknown (load_id j) (load_mandate j) st" and "i \<noteq> j"
  shows "unknown (load_id j) (load_mandate j) st'"
  using assms by (auto simp: opens_def unknown_def find_attempt_by_payment_id_def)

lemma opens_recorded:
  assumes "opens pid m st st'"
  shows "find_attempt_by_payment_id pid st' = Some (pid, 1)"
  using assms by (simp add: opens_def find_attempt_by_payment_id_def)

lemma send_new:
  assumes "service_run cfg s" and "config_profile (config cfg) = Demo"
    and "0 \<le> w 0 div usec_per_second" and "w 0 div usec_per_second \<le> 253402300799"
    and "0 \<le> control_observation_window (self_imposed (config cfg))"
    and "dict_get (afa_free_ceiling (npci (config cfg))) ''default'' \<noteq> None"
    and "unknown (load_id i) (load_mandate i) (store s)"
  obtains s' where "send_failure cfg w i s = (s', True)" and "later cfg s s'"
    and "opens (load_id i) (load_mandate i) (store s) (store s')"
proof -
  obtain limit where "dict_get (afa_free_ceiling (npci (config cfg))) ''default'' = Some limit" using assms(6) by blast
  from new_payment_accepted [where cfg = cfg and s = s and pid = "load_id i" and m = "load_mandate i" and w = w
      and vpa = "''loaduser'' @ py_str_int i @ ''@upi''" and amount = 50000
      and ns = "[(''mandate_id'', PStr (load_mandate i))]", OF assms(1,2) _ _ _ _ _ _ assms(3,4,5) this assms(7)]
  obtain s' st where s': "simulate_failure cfg w (load_id i) 50000 (''loaduser'' @ py_str_int i @ ''@upi'') ''bank_server_down''
        (Some ''load_test'') (Some [(''mandate_id'', PStr (load_mandate i))]) s = (s', Inr (Case_status (load_id i) st))"
      "opens (load_id i) (load_mandate i) (store s) (store s')"
    by (force simp: load_id_def load_mandate_def)
  have "serve cfg w (load_request i) s = (s', Inr (Case_status (load_id i) st))"
    using s'(1) assms(2) by (simp add: load_request_def guarded_def require_admin_token_def)
  with s'(2) that [of s'] later.after [OF later.now this] show thesis by (simp add: send_failure_def)
qed

lemma send_known:
  assumes "service_run cfg s" and "find_attempt_by_payment_id (load_id i) (store s) = Some k"
  obtains s' where "send_failure cfg w i s = (s', False)" and "later cfg s s'"
proof -
  obtain s' r where s: "serve cfg w (load_request i) s = (s', r)" by fastforce
  have "isl r"
    using s known_payment_refused [OF assms(2), of cfg w]
    by (auto simp: load_request_def guarded_def split: sum.splits) (metis isl_def snd_conv)
  with s show thesis
    by (intro that [OF _ later.after [OF later.now s]]) (simp add: send_failure_def)
qed

lemma later_trans: "later cfg s2 s3 \<Longrightarrow> later cfg s1 s2 \<Longrightarrow> later cfg s1 s3"
  by (induction rule: later.induct) (auto intro: later.intros)

lemma load_new:
  assumes "config_profile (config cfg) = Demo" and "0 \<le> control_observation_window (self_imposed (config cfg))"
    and "dict_get (afa_free_ceiling (npci (config cfg))) ''default'' \<noteq> None"
    and "service_run cfg s" and "distinct (map fst rs)"
    and "\<forall>(i, w) \<in> set rs. 0 \<le> w 0 div usec_per_second \<and> w 0 div usec_per_second \<le> 253402300799"
    and "\<forall>i \<in> fst ` set rs. unknown (load_id i) (load_mandate i) (store s)"
  shows "\<exists>s'. load_test cfg rs a b s = (s', a + length rs, b) \<and> later cfg s s'
     \<and> (\<forall>i \<in> fst ` set rs. find_attempt_by_payment_id (load_id i) (store s') = Some (load_id i, 1))"
  using assms(4-7)
proof (induction rs arbitrary: s a)
  case Nil
  then show ?case by (auto intro: later.now)
next
  case (Cons p rs)
  obtain i w where p: "p = (i, w)" by fastforce
  have time: "0 \<le> w 0 div usec_per_second" "w 0 div usec_per_second \<le> 253402300799"
    and new: "unknown (load_id i) (load_mandate i) (store s)"
    using Cons.prems(3,4) p by auto
  from send_new [where w = w, OF Cons.prems(1) assms(1) time assms(2,3) new] obtain s1 where
    s1: "send_failure cfg w i s = (s1, True)" "later cfg s s1" "opens (load_id i) (load_mandate i) (store s) (store s1)"
    by blast
  note run1 = later_run [OF s1(2) Cons.prems(1)]
  have "\<forall>j \<in> fst ` set rs. unknown (load_id j) (load_mandate j) (store s1)"
    using Cons.prems(2,4) p opens_unknown [OF s1(3)] by fastforce
  with Cons.IH [OF run1, of "a + 1"] Cons.prems(2,3) obtain s' where
    s': "load_test cfg rs (a + 1) b s1 = (s', a + 1 + length rs, b)" "later cfg s1 s'"
      "\<forall>j \<in> fst ` set rs. find_attempt_by_payment_id (load_id j) (store s') = Some (load_id j, 1)"
    by auto
  have "find_attempt_by_payment_id (load_id i) (store s') = Some (load_id i, 1)"
    by (rule later_keeps_attempt [OF s'(2) run1 opens_recorded [OF s1(3)]])
  with s' s1(1) p later_trans [OF s'(2) s1(2)] show ?case by auto
qed

lemma load_known:
  assumes "service_run cfg s" and "\<forall>i \<in> fst ` set rs. find_attempt_by_payment_id (load_id i) (store s) = Some (load_id i, 1)"
  shows "\<exists>s'. load_test cfg rs a b s = (s', a, b + length rs)"
  using assms
proof (induction rs arbitrary: s b)
  case (Cons p rs)
  obtain i w where p: "p = (i, w)" by fastforce
  with Cons.prems(2) have "find_attempt_by_payment_id (load_id i) (store s) = Some (load_id i, 1)" by simp
  from send_known [OF Cons.prems(1) this] obtain s1 where s1: "send_failure cfg w i s = (s1, False)" "later cfg s s1" by blast
  have "\<forall>j \<in> fst ` set rs. find_attempt_by_payment_id (load_id j) (store s1) = Some (load_id j, 1)"
    using Cons.prems later_keeps_attempt [OF s1(2)] by simp
  from Cons.IH [OF later_run [OF s1(2) Cons.prems(1)] this, of "b + 1"] s1(1) p show ?case by auto
qed simp

text \<open>
  C19. The load test succeeds once.  Against a freshly booted service in the demo profile every request of the
  script is accepted, however many there are and in whatever order they arrive, and each opens a case of its
  own; against the same service again every request is refused, since the payment ids are the same.
\<close>

theorem load_test_succeeds_once:
  assumes "boot cfg cl = Inr s" and "config_profile (config cfg) = Demo"
    and "0 \<le> control_observation_window (self_imposed (config cfg))"
    and "dict_get (afa_free_ceiling (npci (config cfg))) ''default'' \<noteq> None"
    and "distinct (map fst rs)"
    and "\<forall>(i, w) \<in> set rs. 0 \<le> w 0 div usec_per_second \<and> w 0 div usec_per_second \<le> 253402300799"
    and "fst ` set rs' \<subseteq> fst ` set rs"
  shows "\<exists>s' s''. load_test cfg rs 0 0 s = (s', length rs, 0)
     \<and> (\<forall>i \<in> fst ` set rs. find_attempt_by_payment_id (load_id i) (store s') = Some (load_id i, 1))
     \<and> load_test cfg rs' 0 0 s' = (s'', 0, length rs')"
proof -
  note run = service_run.booted [OF assms(1)]
  have "unknown pid m (store s)" for pid m
    using boot_facts [OF assms(1)] by (simp add: unknown_def InMemoryCaseStore_def find_attempt_by_payment_id_def)
  with load_new [OF assms(2-4) run assms(5,6), of 0 0] obtain s' where
    s': "load_test cfg rs 0 0 s = (s', length rs, 0)" "later cfg s s'"
      "\<forall>i \<in> fst ` set rs. find_attempt_by_payment_id (load_id i) (store s') = Some (load_id i, 1)" by auto
  have "\<forall>i \<in> fst ` set rs'. find_attempt_by_payment_id (load_id i) (store s') = Some (load_id i, 1)"
    using s'(3) assms(7) by blast
  from load_known [OF later_run [OF s'(2) run] this, of 0 0]
  obtain s'' where "load_test cfg rs' 0 0 s' = (s'', 0, length rs')" by auto
  with s' show ?thesis by blast
qed

end
