(* ===== verification/Worker_Witnesses.thy ===== *)
theory Worker_Witnesses
  imports Service_Witnesses Convergence Load_Test
begin

text \<open>
  The theorems about several workers and about the load test at concrete runs.
\<close>

lemma sample_readable: "readable (sample_settings Demo True) v"
proof (cases "v = effect_text ''p2'' 1 (hours 400)")
  case True
  have "state_of_value (PStr ''RETRY_EXECUTED'') = Inr RETRY_EXECUTED" by code_simp
  with True show ?thesis by (simp add: readable_def sample_settings_def effect_value_def)
qed (simp add: readable_def sample_settings_def)

interpretation sample_etcd: etcd_up "sample_settings Demo True" map_of
proof unfold_locales
  show "\<exists>c' ok. etcd_transaction (sample_settings Demo True) c k v = (c', Inr ok)" for c k v
  proof -
    have "etcd_transaction (sample_settings Demo True) c k v = (fst (dict_txn c k v), Inr (dict_get c k = None))"
      by (simp add: sample_settings_def dict_txn_def)
    then show ?thesis by blast
  qed
next
  show "\<exists>k. dict_get c k = Some v"
    if "etcd_get_prefix (sample_settings Demo True) c p = Inr vs" "v \<in> set vs" for c p vs v
  proof -
    from that obtain a where "dict_get c a = Some v" by (auto simp: sample_settings_def)
    then show ?thesis ..
  qed
qed (auto simp: sample_settings_def dict_txn_def fun_eq_iff split: if_splits)

interpretation sample_scan: etcd_scan "sample_settings Demo True" map_of
proof unfold_locales
  show "\<exists>vs. etcd_get_prefix (sample_settings Demo True) c p = Inr vs
      \<and> set vs = {v. \<exists>k. dict_get c k = Some v \<and> py_startswith p k}" for c p
    by (intro exI conjI, simp add: sample_settings_def) (force dest: map_of_SomeD)
qed

text \<open>Two workers with the scheduled case, and an empty cluster.\<close>

definition twins :: "(string, string) dict service \<Rightarrow> (string, string) dict fleet" where
  "twins s = \<lparr>workers = [s, s], quorum = cluster s\<rparr>"

lemma twins_state [simp]: "worker_state (twins s) 0 = s" "worker_state (twins s) 1 = s"
  by (simp_all add: worker_state_def twins_def)

lemma twins_ok: "service_run cfg s \<Longrightarrow> fleet_ok cfg (twins s)"
  by (simp add: fleet_ok_def twins_def)

theorem fleet_executes_once_witness:
  "\<exists>f a. fleet_ok (sample_settings Demo True) f
     \<and> fleet_executions (sample_settings Demo True) f [(0, \<lambda>_. hours 400, Execute_retry [] ''p2'')] = [(0, a)]
     \<and> dict_get (quorum f) (key_for a) = None"
proof (rule sample_execution)
  fix s s'
  let ?cfg = "sample_settings Demo True" and ?w = "\<lambda>_. hours 400 :: datetime"
  assume run: "service_run ?cfg s" and e: "execute_retry ?cfg ?w ''p2'' s = (s', Inr (Case_status ''p2'' RETRY_EXECUTED))"
  have "serve ?cfg ?w (Execute_retry [] ''p2'') s = (s', Inr (Case_status ''p2'' RETRY_EXECUTED))"
    using e by (simp add: demo_guarded)
  then obtain a where a: "fleet_executions ?cfg (twins s) [(0, ?w, Execute_retry [] ''p2'')] = [(0, a)]"
    by (simp add: twins_def worker_state_def)
  have client: "etcd_client (etcd_transaction ?cfg) map_of" by (rule sample_etcd.etcd_client_axioms)
  have "dict_get (quorum (twins s)) (key_for a) = None"
    using fleet_executes_once [OF client twins_ok [OF run], of "[(0, ?w, Execute_retry [] ''p2'')]"] unfolding a by simp
  with a twins_ok [OF run] show ?thesis by blast
qed

theorem stale_reads_execute_once_witness:
  "\<exists>s a. service_run (sample_settings Demo True) s
     \<and> snd (contended (sample_settings Demo True) [] [(s, \<lambda>_. hours 400, ''p2''), (s, \<lambda>_. hours 400, ''p2'')]) = [a]"
proof (rule sample_execution)
  fix s s'
  let ?cfg = "sample_settings Demo True" and ?w = "\<lambda>_. hours 400 :: datetime"
  assume run: "service_run ?cfg s" and e: "execute_retry ?cfg ?w ''p2'' s = (s', Inr (Case_status ''p2'' RETRY_EXECUTED))"
    and empty: "cluster s = []"
  let ?calls = "[(s, ?w, ''p2''), (s, ?w, ''p2'')]" and ?a = "(''p2'', rd_attempt_number (hd (pending_of ''p2'' (store s))))"
  have "s\<lparr>cluster := []\<rparr> = s" using empty by simp
  with e have "snd (contended ?cfg [] ?calls) = [?a, ?a] \<or> snd (contended ?cfg [] ?calls) = [?a]"
    by (simp split: prod.split)
  moreover have "distinct (snd (contended ?cfg [] ?calls))"
    using stale_reads_execute_once [OF sample_etcd.etcd_client_axioms, of "[]" ?calls] by blast
  ultimately have "snd (contended ?cfg [] ?calls) = [?a]" by auto
  with run show ?thesis by blast
qed

theorem race_has_one_winner_witness:
  "\<exists>f. fleet_ok (sample_settings Demo True) f
     \<and> snd (fleet_run (sample_settings Demo True) f (race [] ''p2'' [(0, \<lambda>_. hours 400), (1, \<lambda>_. hours 400), (0, \<lambda>_. hours 401)]))
       = [Some (Inr (Case_status ''p2'' RETRY_EXECUTED)), Some (Inl (HTTPException 409)), Some (Inl (HTTPException 409))]"
proof (rule sample_scheduled [of "[]"])
  fix s d
  let ?cfg = "sample_settings Demo True" and ?w = "\<lambda>_. hours 400 :: datetime"
  assume run: "service_run ?cfg s"
    and c: "get_case ''p2'' (store s) = Inr (opened_case\<lparr>state := RETRY_SCHEDULED\<rparr>)"
    and d: "filter (\<lambda>d. rd_case_id d = ''p2'') (get_pending_retries (store s)) = [d]"
      "rd_attempt_number d = 1" "rd_scheduled_at d \<le> hours 400"
    and calm: "\<not> is_distressed (distress s) (instrument_id opened_case) (hours 400)"
    and frame: "cluster s = []" "clk s = AcceleratedClock 3600 0"
  let ?f = "twins s"
  have "poised ''p2'' 1 ?f" using c d(1,2) by (simp add: poised_def twins_def pending_of_def)
  moreover have "dict_get (quorum ?f) (key_for (''p2'', 1)) = None"
      "\<forall>k v. dict_get (quorum ?f) k = Some v \<longrightarrow> readable ?cfg v"
      "\<forall>t. readable ?cfg (effect_text ''p2'' 1 t)"
    using frame(1) sample_readable by (simp_all add: twins_def)
  moreover have "\<forall>(j, v) \<in> set [(0, ?w), (1, ?w), (0, \<lambda>_. hours 401)]. j < length (workers ?f)" by (simp add: twins_def)
  moreover have "get_case ''p2'' (store (workers ?f ! 0)) = Inr (opened_case\<lparr>state := RETRY_SCHEDULED\<rparr>)"
    using c by (simp add: twins_def)
  moreover have "\<not> is_distressed (distress (workers ?f ! 0)) (instrument_id (opened_case\<lparr>state := RETRY_SCHEDULED\<rparr>))
      (clock_now (clk (workers ?f ! 0)) (?w 0))"
      "rd_scheduled_at (hd (pending_of ''p2'' (store (workers ?f ! 0)))) \<le> clock_now (clk (workers ?f ! 0)) (?w 1)"
    using calm frame(2) d by (simp_all add: twins_def pending_of_def)
  ultimately have "snd (fleet_run ?cfg ?f (race [] ''p2'' [(0, ?w), (1, ?w), (0, \<lambda>_. hours 401)]))
       = [Some (Inr (Case_status ''p2'' RETRY_EXECUTED)), Some (Inl (HTTPException 409)), Some (Inl (HTTPException 409))]"
    using race_has_one_winner [where w = ?w and cfg = ?cfg and f = ?f and i = 0 and picks = "[(1, ?w), (0, \<lambda>_. hours 401)]"
        and cid = "''p2''" and n = 1 and auth = "[]", OF sample_etcd.etcd_up_axioms _ _ twins_ok [OF run]]
    by simp
  with twins_ok [OF run] show ?thesis by blast
qed

theorem race_converges_witness:
  "\<exists>f c. fleet_ok (sample_settings Demo True) f
     \<and> get_case ''p2'' (store (workers (fst (fleet_run (sample_settings Demo True) f
           (race [] ''p2'' [(0, \<lambda>_. hours 400), (1, \<lambda>_. hours 400)]))) ! 1)) = Inr c
     \<and> state c = RETRY_EXECUTED"
proof (rule sample_scheduled [of "[]"])
  fix s d
  let ?cfg = "sample_settings Demo True" and ?w = "\<lambda>_. hours 400 :: datetime"
  assume run: "service_run ?cfg s"
    and c: "get_case ''p2'' (store s) = Inr (opened_case\<lparr>state := RETRY_SCHEDULED\<rparr>)"
    and d: "filter (\<lambda>d. rd_case_id d = ''p2'') (get_pending_retries (store s)) = [d]"
      "rd_attempt_number d = 1" "rd_scheduled_at d \<le> hours 400"
    and calm: "\<not> is_distressed (distress s) (instrument_id opened_case) (hours 400)"
    and frame: "cluster s = []" "clk s = AcceleratedClock 3600 0"
  let ?f = "twins s"
  have poised: "poised ''p2'' 1 ?f" using c d(1,2) by (simp add: poised_def twins_def pending_of_def)
  have log: "dict_get (quorum ?f) (key_for (''p2'', 1)) = None" "case_log ?cfg map_of ''p2'' (quorum ?f)"
      "logged_effect ?cfg ''p2'' (effect_text ''p2'' 1 (clock_now (clk (workers ?f ! 0)) (?w 2)))"
    using frame committed_log_facts(4) by (simp_all add: twins_def case_log_def)
  have "ready ''p2'' ?w s" using c d calm frame(2) by (simp add: ready_def pending_of_def)
  then have ready: "\<forall>(j, v) \<in> set [(0, ?w), (1, ?w)]. j < length (workers ?f) \<and> ready ''p2'' v (workers ?f ! j)"
    by (simp add: twins_def)
  from race_converges [where cfg = ?cfg and f = ?f and i = 0 and w = ?w and picks = "[(1, ?w)]" and j = 1 and auth = "[]",
      OF sample_scan.etcd_scan_axioms _ _ twins_ok [OF run] poised log ready]
  have "\<exists>c. get_case ''p2'' (store (workers (fst (fleet_run ?cfg ?f (race [] ''p2'' [(0, ?w), (1, ?w)]))) ! 1)) = Inr c
      \<and> state c = RETRY_EXECUTED" by simp
  with twins_ok [OF run] show ?thesis by blast
qed

theorem load_test_succeeds_once_witness:
  "\<exists>s s' s''. boot (sample_settings Demo False) [] = Inr s
     \<and> load_test (sample_settings Demo False) [(1, \<lambda>_. 0), (0, \<lambda>_. 0)] 0 0 s = (s', 2, 0)
     \<and> load_test (sample_settings Demo False) [(0, \<lambda>_. 7)] 0 0 s' = (s'', 0, 1)"
proof -
  have "0 \<le> control_observation_window (self_imposed (config (sample_settings Demo False)))"
    "dict_get (afa_free_ceiling (npci (config (sample_settings Demo False)))) ''default'' \<noteq> None"
    by (simp_all add: shipped_config_def)
  from load_test_succeeds_once [where rs = "[(1, \<lambda>_. 0), (0, \<lambda>_. 0)]" and rs' = "[(0, \<lambda>_. 7)]",
      OF sample_boot [of False "[]"] _ this]
  show ?thesis using sample_boot [of False "[]"] by auto
qed

end
