(* ===== verification/Postgres_Store.thy ===== *)
theory Postgres_Store
  imports Case_Store
begin

text \<open>
  The repository of \<^verbatim>\<open>app/core/postgres_case_store.py\<close>.  A table is the list of its rows, a row the tuple of
  its columns, which are the fields of the dataclass it stores; an operation is the SQL statements it
  executes, on one connection that is never in autocommit.  A statement the server refuses leaves the
  transaction failed, and a failed transaction refuses every statement until it is rolled back.

  \<open>INTEGER\<close> columns hold 32 bits, text holds any string without a null character (strings with one are not
  considered), and a read returns instants in UTC, as a session in that time zone does.  What the server
  decides is a parameter: the order in which a \<open>SELECT\<close> without \<open>ORDER BY\<close> returns rows, and the value that
  reading a \<open>JSONB\<close> column gives back for a dictionary, or its refusal of the text.
\<close>

section \<open>Tables\<close>

record pg_store =
  pg_cases :: "recovery_case list"
  pg_failures :: "failure_event list"
  pg_decisions :: "retry_decision list"
  pg_audit :: "audit_entry list"
  pg_failed :: bool

text \<open>The tables \<^verbatim>\<open>_init_schema\<close> creates in an empty database.\<close>

definition PostgresCaseStore :: pg_store where
  "PostgresCaseStore = \<lparr>pg_cases = [], pg_failures = [], pg_decisions = [], pg_audit = [], pg_failed = False\<rparr>"

text \<open>
  The exceptions: the module's own four classes, those of the driver, and those of the constructors that
  rebuild objects from rows.
\<close>

datatype pg_error =
    PgCaseNotFoundError
  | PgCaseAlreadyExistsError
  | PgFailureAlreadyRecordedError
  | PgDecisionAlreadyRecordedError
  | NumericValueOutOfRange
  | InvalidTextRepresentation
  | UniqueViolation
  | InFailedSqlTransaction
  | Constructor py_error

type_synonym 'a sql = "pg_store \<times> (pg_error + 'a)"
type_synonym json_column = "(string, pyval) dict \<Rightarrow> (string, pyval) dict option"

record row_order =
  case_order :: "recovery_case list \<Rightarrow> recovery_case list"
  failure_order :: "failure_event list \<Rightarrow> failure_event list"
  decision_order :: "retry_decision list \<Rightarrow> retry_decision list"

section \<open>Statements\<close>

definition execute :: "pg_store \<Rightarrow> (pg_store \<Rightarrow> 'a sql) \<Rightarrow> 'a sql" where
  "execute s f = (if pg_failed s then (s, Inl InFailedSqlTransaction) else f s)"

definition server_error :: "pg_error \<Rightarrow> pg_store \<Rightarrow> 'a sql" where
  "server_error e s = (s\<lparr>pg_failed := True\<rparr>, Inl e)"

definition fits_integer :: "int \<Rightarrow> bool" where
  "fits_integer n \<longleftrightarrow> - 2147483648 \<le> n \<and> n < 2147483648"

definition raised :: "'a result \<Rightarrow> pg_error + 'a" where
  "raised r = (case r of Inl e \<Rightarrow> Inl (Constructor e) | Inr x \<Rightarrow> Inr x)"

text \<open>The first row a query returns, and \<open>MAX\<close>, which is null on no rows.\<close>

fun fetchone :: "'a list \<Rightarrow> 'a option" where
  "fetchone [] = None"
| "fetchone (r # rs) = Some r"

fun sql_max :: "int list \<Rightarrow> int option" where
  "sql_max [] = None"
| "sql_max (n # ns) = Some (foldl max n ns)"

section \<open>Rows to objects\<close>

definition row_to_case :: "recovery_case \<Rightarrow> recovery_case result" where
  "row_to_case r = (if recovery_case_ok r then Inr r else Inl ValueError)"

definition row_to_failure :: "failure_event \<Rightarrow> failure_event result" where
  "row_to_failure r =
     PaymentFailureEvent (r\<lparr>fe_notes := (case fe_notes r of Some (n # ns) \<Rightarrow> Some (n # ns) | _ \<Rightarrow> None)\<rparr>)"

definition row_to_decision :: "retry_decision \<Rightarrow> retry_decision result" where
  "row_to_decision r = RetryDecision r"

definition row_to_audit :: "audit_entry \<Rightarrow> audit_entry result" where
  "row_to_audit r = (if rule_fired r = [] \<or> rule_version r < 1 then Inl ValueError else Inr r)"

section \<open>Cases\<close>

definition case_fits :: "recovery_case \<Rightarrow> bool" where
  "case_fits c \<longleftrightarrow> fits_integer (original_amount c) \<and> fits_integer (retries_used c)"

definition pg_create_case :: "recovery_case \<Rightarrow> pg_store \<Rightarrow> unit sql" where
  "pg_create_case c s =
     execute s (\<lambda>s.
       if \<not> case_fits c then server_error NumericValueOutOfRange s
       else if list_ex (\<lambda>r. case_id r = case_id c) (pg_cases s) then (s, Inl PgCaseAlreadyExistsError)
       else (s\<lparr>pg_cases := pg_cases s @ [c]\<rparr>, Inr ()))"

definition pg_get_case :: "string \<Rightarrow> pg_store \<Rightarrow> recovery_case sql" where
  "pg_get_case cid s =
     execute s (\<lambda>s. (s, case fetchone (filter (\<lambda>r. case_id r = cid) (pg_cases s)) of
                         None \<Rightarrow> Inl PgCaseNotFoundError
                       | Some r \<Rightarrow> raised (row_to_case r)))"

definition pg_update_case :: "recovery_case \<Rightarrow> pg_store \<Rightarrow> unit sql" where
  "pg_update_case c s =
     execute s (\<lambda>s.
       if \<not> case_fits c then server_error NumericValueOutOfRange s
       else (s\<lparr>pg_cases := map (\<lambda>r. if case_id r = case_id c then c else r) (pg_cases s)\<rparr>, Inr ()))"

definition pg_list_cases :: "row_order \<Rightarrow> pg_store \<Rightarrow> recovery_case list sql" where
  "pg_list_cases ord s = execute s (\<lambda>s. (s, raised (mapR row_to_case (case_order ord (pg_cases s)))))"

definition one_case :: "recovery_case list \<Rightarrow> pg_error + recovery_case option" where
  "one_case rs = (case fetchone rs of
     None \<Rightarrow> Inr None
   | Some r \<Rightarrow> raised (bindR (row_to_case r) (\<lambda>c. Inr (Some c))))"

definition pg_find_case_by_mandate :: "row_order \<Rightarrow> string \<Rightarrow> pg_store \<Rightarrow> recovery_case option sql" where
  "pg_find_case_by_mandate ord mid s =
     execute s (\<lambda>s. (s, one_case (filter (\<lambda>r. mandate_id r = mid) (case_order ord (pg_cases s)))))"

definition pg_find_case_by_payment_id :: "row_order \<Rightarrow> string \<Rightarrow> pg_store \<Rightarrow> recovery_case option sql" where
  "pg_find_case_by_payment_id ord pid s =
     execute s (\<lambda>s. (s, one_case (concat (map (\<lambda>c. map (\<lambda>_. c)
       (filter (\<lambda>f. fe_case_id f = case_id c \<and> fe_payment_id f = pid) (pg_failures s)))
         (case_order ord (pg_cases s))))))"

definition pg_get_max_attempt_number :: "string \<Rightarrow> pg_store \<Rightarrow> int sql" where
  "pg_get_max_attempt_number cid s =
     execute s (\<lambda>s. (s, Inr (case sql_max (map attempt_number (filter (\<lambda>f. fe_case_id f = cid) (pg_failures s))) of
                               None \<Rightarrow> 0 | Some n \<Rightarrow> n)))"

definition pg_find_attempt_by_payment_id :: "string \<Rightarrow> pg_store \<Rightarrow> (string \<times> int) option sql" where
  "pg_find_attempt_by_payment_id pid s =
     execute s (\<lambda>s. (s, Inr (map_option (\<lambda>f. (fe_case_id f, attempt_number f))
                               (fetchone (filter (\<lambda>f. fe_payment_id f = pid) (pg_failures s))))))"

section \<open>Failures and decisions\<close>

text \<open>The notes as the column stores them: null for none and for an empty dictionary.\<close>

definition stored_notes :: "json_column \<Rightarrow> (string, pyval) dict option \<Rightarrow> (string, pyval) dict option option" where
  "stored_notes json ns =
     (case ns of Some (n # rest) \<Rightarrow> map_option Some (json (n # rest)) | _ \<Rightarrow> Some None)"

definition pg_record_failure :: "json_column \<Rightarrow> failure_event \<Rightarrow> pg_store \<Rightarrow> unit sql" where
  "pg_record_failure json e s =
     execute s (\<lambda>s.
       case stored_notes json (fe_notes e) of
         None \<Rightarrow> server_error InvalidTextRepresentation s
       | Some ns \<Rightarrow>
           if \<not> fits_integer (attempt_number e) \<or> \<not> fits_integer (fe_amount e)
           then server_error NumericValueOutOfRange s
           else if list_ex (\<lambda>f. fe_payment_id f = fe_payment_id e) (pg_failures s)
           then (s, Inl PgFailureAlreadyRecordedError)
           else (s\<lparr>pg_failures := pg_failures s @ [e\<lparr>fe_notes := ns\<rparr>]\<rparr>, Inr ()))"

definition pg_get_failure :: "row_order \<Rightarrow> string \<Rightarrow> int \<Rightarrow> pg_store \<Rightarrow> failure_event sql" where
  "pg_get_failure ord cid n s =
     execute s (\<lambda>s. (s,
       case fetchone (filter (\<lambda>f. fe_case_id f = cid \<and> attempt_number f = n) (failure_order ord (pg_failures s))) of
         None \<Rightarrow> Inl PgCaseNotFoundError
       | Some r \<Rightarrow> raised (row_to_failure r)))"

definition pg_record_retry_decision :: "retry_decision \<Rightarrow> pg_store \<Rightarrow> unit sql" where
  "pg_record_retry_decision d s =
     execute s (\<lambda>s.
       if \<not> fits_integer (rd_attempt_number d) then server_error NumericValueOutOfRange s
       else if list_ex (\<lambda>r. decision_key r = decision_key d) (pg_decisions s)
       then (s, Inl PgDecisionAlreadyRecordedError)
       else (s\<lparr>pg_decisions := pg_decisions s @ [d]\<rparr>, Inr ()))"

definition pg_get_retry_decision :: "string \<Rightarrow> int \<Rightarrow> pg_store \<Rightarrow> retry_decision sql" where
  "pg_get_retry_decision cid n s =
     execute s (\<lambda>s. (s, case fetchone (filter (\<lambda>r. decision_key r = (cid, n)) (pg_decisions s)) of
                         None \<Rightarrow> Inl PgCaseNotFoundError
                       | Some r \<Rightarrow> raised (row_to_decision r)))"

definition pg_update_retry_decision :: "retry_decision \<Rightarrow> pg_store \<Rightarrow> unit sql" where
  "pg_update_retry_decision d s =
     execute s (\<lambda>s. (s\<lparr>pg_decisions := map (\<lambda>r. if decision_key r = decision_key d then d else r) (pg_decisions s)\<rparr>, Inr ()))"

definition pg_get_pending_retries :: "row_order \<Rightarrow> pg_store \<Rightarrow> retry_decision list sql" where
  "pg_get_pending_retries ord s =
     execute s (\<lambda>s. (s, raised (mapR row_to_decision
       (filter (\<lambda>r. outcome r = Pending) (decision_order ord (pg_decisions s))))))"

section \<open>The audit log\<close>

definition row_number :: "audit_entry \<Rightarrow> int" where
  "row_number r = (case sequence_id r of None \<Rightarrow> 0 | Some n \<Rightarrow> n)"

text \<open>\<open>ORDER BY sequence_id\<close> on the rows of a case; the column is a primary key, so never null.\<close>

definition pg_rows :: "string \<Rightarrow> pg_store \<Rightarrow> audit_entry list" where
  "pg_rows cid s = sort_key row_number (filter (\<lambda>r. ae_case_id r = cid) (pg_audit s))"

definition pg_next_sequence :: "pg_store \<Rightarrow> int" where
  "pg_next_sequence s = (case sql_max (map row_number (pg_audit s)) of None \<Rightarrow> 0 | Some n \<Rightarrow> n) + 1"

text \<open>The entry as it is inserted: numbered, linked to the last row of its case, and hashed.\<close>

definition pg_seal :: "audit_entry option \<Rightarrow> int \<Rightarrow> audit_entry \<Rightarrow> audit_entry" where
  "pg_seal row n e =
     (let e = (case sequence_id e of None \<Rightarrow> e\<lparr>sequence_id := Some n\<rparr> | Some _ \<Rightarrow> e);
          e = e\<lparr>prev_hash := (case row of None \<Rightarrow> None | Some r \<Rightarrow> entry_hash r)\<rparr>
      in e\<lparr>entry_hash := Some (hash_entry e)\<rparr>)"

definition pg_append_audit :: "audit_entry \<Rightarrow> pg_store \<Rightarrow> unit sql" where
  "pg_append_audit e s =
     execute s (\<lambda>s.
       let e = pg_seal (fetchone (rev (pg_rows (ae_case_id e) s))) (pg_next_sequence s) e
       in if \<not> fits_integer (row_number e) \<or> \<not> fits_integer (rule_version e)
          then server_error NumericValueOutOfRange s
          else if list_ex (\<lambda>r. sequence_id r = sequence_id e) (pg_audit s) then server_error UniqueViolation s
          else (s\<lparr>pg_audit := pg_audit s @ [e]\<rparr>, Inr ()))"

definition pg_get_audit_trail :: "string \<Rightarrow> pg_store \<Rightarrow> audit_entry list sql" where
  "pg_get_audit_trail cid s = execute s (\<lambda>s. (s, raised (mapR row_to_audit (pg_rows cid s))))"

end
