(* ===== verification/Postgres_Refinement.thy ===== *)
theory Postgres_Refinement
  imports Postgres_Store Store_Runs "HOL-Library.Multiset"
begin

text \<open>
  The two repositories side by side.  Whatever the in-memory store accepts, the database accepts too, as long
  as the numbers fit their columns, and afterwards both answer the queries of the service alike; where they
  differ is stated at the end.
\<close>

section \<open>Writes\<close>

datatype store_write =
    Create recovery_case
  | Update recovery_case
  | Fail failure_event
  | Decide retry_decision
  | Redecide retry_decision
  | Append audit_entry

fun mem_write :: "store_write \<Rightarrow> case_store \<Rightarrow> case_store result" where
  "mem_write (Create c) st = create_case c st"
| "mem_write (Update c) st = update_case c st"
| "mem_write (Fail e) st = record_failure e st"
| "mem_write (Decide d) st = record_retry_decision d st"
| "mem_write (Redecide d) st = update_retry_decision d st"
| "mem_write (Append e) st = Inr (append_audit e st)"

fun pg_write :: "json_column \<Rightarrow> store_write \<Rightarrow> pg_store \<Rightarrow> unit sql" where
  "pg_write json (Create c) s = pg_create_case c s"
| "pg_write json (Update c) s = pg_update_case c s"
| "pg_write json (Fail e) s = pg_record_failure json e s"
| "pg_write json (Decide d) s = pg_record_retry_decision d s"
| "pg_write json (Redecide d) s = pg_update_retry_decision d s"
| "pg_write json (Append e) s = pg_append_audit e s"

text \<open>
  What the constructors have checked of the arguments, that a mandate is never reassigned, and that entries
  come without a number (no code does otherwise); and what the columns can hold.
\<close>

fun write_ok :: "store_write \<Rightarrow> case_store \<Rightarrow> bool" where
  "write_ok (Create c) st = recovery_case_ok c"
| "write_ok (Update c) st = (recovery_case_ok c \<and> (\<exists>c0. get_case (case_id c) st = Inr c0 \<and> mandate_id c = mandate_id c0))"
| "write_ok (Fail e) st = failure_event_ok e"
| "write_ok (Decide d) st = (RetryDecision d = Inr d)"
| "write_ok (Redecide d) st = (RetryDecision d = Inr d)"
| "write_ok (Append e) st = (sequence_id e = None \<and> rule_fired e \<noteq> [] \<and> 1 \<le> rule_version e)"

fun storable :: "json_column \<Rightarrow> store_write \<Rightarrow> case_store \<Rightarrow> bool" where
  "storable json (Create c) st = case_fits c"
| "storable json (Update c) st = case_fits c"
| "storable json (Fail e) st =
     (fits_integer (attempt_number e) \<and> fits_integer (fe_amount e) \<and> stored_notes json (fe_notes e) \<noteq> None)"
| "storable json (Decide d) st = fits_integer (rd_attempt_number d)"
| "storable json (Redecide d) st = True"
| "storable json (Append e) st = (fits_integer (rule_version e) \<and> fits_integer (next_sequence st))"

lemma write_is_step: "mem_write w st = Inr st' \<Longrightarrow> write_ok w st \<Longrightarrow> store_step st st'"
  by (cases w) (auto intro: store_step.intros)

section \<open>Tables and dictionaries\<close>

definition stored_row :: "json_column \<Rightarrow> failure_event \<Rightarrow> failure_event" where
  "stored_row json e = e\<lparr>fe_notes := the (stored_notes json (fe_notes e))\<rparr>"

definition audit_row_ok :: "audit_entry \<Rightarrow> bool" where
  "audit_row_ok e \<longleftrightarrow> rule_fired e \<noteq> [] \<and> 1 \<le> rule_version e"

definition mirrors :: "json_column \<Rightarrow> pg_store \<Rightarrow> case_store \<Rightarrow> bool" where
  "mirrors json pg st \<longleftrightarrow> \<not> pg_failed pg
     \<and> pg_cases pg = dict_values (cases st)
     \<and> pg_failures pg = map (stored_row json) (dict_values (failures st)) \<and> dict_wf (failures st)
     \<and> pg_decisions pg = dict_values (decisions st) \<and> (\<forall>d \<in> set (pg_decisions pg). RetryDecision d = Inr d)
     \<and> map sequence_id (pg_audit pg) = map Some [1..next_sequence st - 1] \<and> 1 \<le> next_sequence st
     \<and> (\<forall>e \<in> set (pg_audit pg). audit_row_ok e)
     \<and> (\<forall>cid. filter (\<lambda>e. ae_case_id e = cid) (pg_audit pg) = get_audit_trail cid st)"

lemma mirrorsD:
  assumes "mirrors json pg st"
  shows "pg_cases pg = dict_values (cases st)"
    and "pg_failures pg = map (stored_row json) (dict_values (failures st))" and "dict_wf (failures st)"
    and "pg_decisions pg = dict_values (decisions st)" and "d \<in> set (pg_decisions pg) \<Longrightarrow> RetryDecision d = Inr d"
    and "e \<in> set (pg_audit pg) \<Longrightarrow> audit_row_ok e"
    and "filter (\<lambda>e. ae_case_id e = cid) (pg_audit pg) = get_audit_trail cid st"
  using assms unfolding mirrors_def by blast+

lemma dict_value_key: "dict_wf d \<Longrightarrow> v \<in> set (dict_values d) \<Longrightarrow> \<exists>k. dict_get d k = Some v"
  by (simp only: dict_values_get)

lemma dict_value_in: "dict_get d k = Some v \<Longrightarrow> v \<in> set (dict_values d)"
  by (force dest: map_of_SomeD)

text \<open>A dictionary keyed by a function of its values, as a table with that function as its key.\<close>

definition keyed :: "('v \<Rightarrow> 'k) \<Rightarrow> ('k, 'v) dict \<Rightarrow> bool" where
  "keyed key d \<longleftrightarrow> (\<forall>(k, v) \<in> set d. k = key v)"

lemma keyedI: "dict_wf d \<Longrightarrow> (\<And>k v. dict_get d k = Some v \<Longrightarrow> k = key v) \<Longrightarrow> keyed key d"
  using dict_wf_get by (fastforce simp: keyed_def)

lemma keyed_lookup: "keyed key d \<Longrightarrow> fetchone (filter (\<lambda>r. key r = k) (dict_values d)) = dict_get d k"
  by (induction d) (auto simp: keyed_def)

lemma keyed_exists: "keyed key d \<Longrightarrow> list_ex (\<lambda>r. key r = k) (dict_values d) \<longleftrightarrow> dict_get d k \<noteq> None"
  by (induction d) (auto simp: keyed_def)

lemma keyed_replace:
  "keyed key d \<Longrightarrow> dict_wf d \<Longrightarrow> dict_get d (key v) \<noteq> None \<Longrightarrow>
   dict_values (dict_set (key v) v d) = map (\<lambda>r. if key r = key v then v else r) (dict_values d)"
proof (induction d)
  case Nil
  then show ?case by simp
next
  case (Cons p d)
  obtain k u where p: "p = (k, u)" by (cases p)
  show ?case
  proof (cases "k = key v")
    case True
    have "\<forall>r \<in> set (dict_values d). key r \<noteq> key v"
      using Cons.prems p True by (force simp: keyed_def dict_wf_def)
    then have "map (\<lambda>r. if key r = key v then v else r) (dict_values d) = dict_values d" by (simp add: map_idI)
    with p True Cons.prems(1) show ?thesis by (simp add: keyed_def)
  next
    case False
    with Cons p show ?thesis by (auto simp: keyed_def dict_wf_def)
  qed
qed

lemma keyed_insert: "dict_get d k = None \<Longrightarrow> dict_values (dict_set k v d) = dict_values d @ [v]"
  by (simp add: dict_set_fresh)

lemma case_keys: "store_ok st \<Longrightarrow> keyed case_id (cases st)"
  by (intro keyedI) (auto simp: store_ok_def cases_ok_def)

lemma decision_keys: "store_ok st \<Longrightarrow> keyed decision_key (decisions st)"
  unfolding store_ok_def decisions_ok_def by (intro keyedI) blast+

section \<open>The log\<close>

lemma row_numbers: "map sequence_id es = map Some is \<Longrightarrow> map row_number es = is"
  by (induction es arbitrary: "is") (auto simp: row_number_def Cons_eq_map_conv)

lemma sort_key_sorted: "sorted (map f xs) \<Longrightarrow> sort_key f xs = xs"
  by (induction xs) (auto simp: insort_is_Cons)

lemma foldl_max_upto: "m \<le> n \<Longrightarrow> foldl max m [m + 1..n] = (n :: int)"
proof (induction "nat (n - m)" arbitrary: m)
  case 0
  then show ?case by simp
next
  case (Suc k)
  then have "m + 1 \<le> n" by linarith
  then show ?case using Suc.hyps(1) [of "m + 1"] Suc.hyps(2) by (simp add: upto_rec1 max_def)
qed

lemma next_number:
  assumes "mirrors json pg st"
  shows "pg_next_sequence pg = next_sequence st"
proof -
  have n: "map row_number (pg_audit pg) = [1..next_sequence st - 1]" "1 \<le> next_sequence st"
    using assms row_numbers by (auto simp: mirrors_def)
  show ?thesis
  proof (cases "next_sequence st = 1")
    case True
    with n show ?thesis by (simp add: pg_next_sequence_def)
  next
    case False
    with n have "[1..next_sequence st - 1] = 1 # [1 + 1..next_sequence st - 1]" by (simp add: upto_rec1)
    with n False show ?thesis using foldl_max_upto [of 1 "next_sequence st - 1"] by (simp add: pg_next_sequence_def)
  qed
qed

lemma rows_are_trail:
  assumes "mirrors json pg st"
  shows "pg_rows cid pg = get_audit_trail cid st"
proof -
  have "map row_number (pg_audit pg) = [1..next_sequence st - 1]"
    using assms row_numbers by (auto simp: mirrors_def)
  then have "sorted (map row_number (pg_audit pg))" by simp
  then have "sorted (map row_number (filter (\<lambda>r. ae_case_id r = cid) (pg_audit pg)))" by (rule sorted_filter)
  with assms show ?thesis by (simp add: pg_rows_def sort_key_sorted mirrors_def)
qed

lemma pg_seal_seal: "pg_seal (fetchone (rev es)) n e = seal es n e"
proof -
  have "(case fetchone (rev es) of None \<Rightarrow> None | Some r \<Rightarrow> entry_hash r) = last_hash es"
    by (cases es rule: rev_cases) (simp_all add: last_hash_def)
  then show ?thesis by (simp only: pg_seal_def seal_def)
qed

lemma mirrors_append:
  assumes m: "mirrors json pg st" and ok: "write_ok (Append e) st" and fits: "storable json (Append e) st"
  shows "\<exists>pg'. pg_append_audit e pg = (pg', Inr ()) \<and> mirrors json pg' (append_audit e st)"
proof -
  let ?n = "next_sequence st"
  let ?f = "seal (get_audit_trail (ae_case_id e) st) ?n e"
  have none: "sequence_id e = None" using ok by simp
  have f: "sequence_id ?f = Some ?n" "row_number ?f = ?n" "rule_version ?f = rule_version e" "rule_fired ?f = rule_fired e"
    "ae_case_id ?f = ae_case_id e"
    by (simp_all add: seal_def Let_def none row_number_def)
  have seq: "map sequence_id (pg_audit pg) = map Some [1..?n - 1]" and pos: "1 \<le> ?n" using m by (simp_all add: mirrors_def)
  have "Some ?n \<notin> set (map sequence_id (pg_audit pg))" unfolding seq by auto
  then have fresh: "\<not> list_ex (\<lambda>r. sequence_id r = Some ?n) (pg_audit pg)" by (auto simp: list_ex_iff image_iff)
  let ?pg = "pg\<lparr>pg_audit := pg_audit pg @ [?f]\<rparr>"
  have open_: "\<not> pg_failed pg" using m by (simp add: mirrors_def)
  have range: "fits_integer ?n" "fits_integer (rule_version e)" using fits by simp_all
  have "pg_append_audit e pg = (?pg, Inr ())"
    using open_ range fresh by (simp add: pg_append_audit_def execute_def Let_def rows_are_trail [OF m]
        next_number [OF m] pg_seal_seal f)
  moreover have "mirrors json ?pg (append_audit e st)"
  proof -
    have n': "next_sequence (append_audit e st) = ?n + 1" by (simp add: append_audit_def Let_def none)
    have upto: "map Some [1..?n] = map Some [1..?n - 1] @ [Some ?n]" using pos by (simp add: upto_rec2)
    have "filter (\<lambda>x. ae_case_id x = cid) (pg_audit ?pg) = get_audit_trail cid (append_audit e st)" for cid
      using m f(5) trail_append_other [of cid e st] by (cases "cid = ae_case_id e") (auto simp: mirrors_def)
    with m f ok n' upto seq pos show ?thesis by (simp add: mirrors_def audit_row_ok_def)
  qed
  ultimately show ?thesis by blast
qed

section \<open>Every accepted write\<close>

lemma mirrors_init: "mirrors json PostgresCaseStore InMemoryCaseStore"
  by (simp add: mirrors_def PostgresCaseStore_def InMemoryCaseStore_def get_audit_trail_def)

lemma mirrors_cong:
  assumes "mirrors json pg st" and "pg_failed pg' = pg_failed pg" and "pg_audit pg' = pg_audit pg"
    and "audit_logs st' = audit_logs st" and "next_sequence st' = next_sequence st"
    and "pg_cases pg' = dict_values (cases st')"
    and "pg_failures pg' = map (stored_row json) (dict_values (failures st'))" and "dict_wf (failures st')"
    and "pg_decisions pg' = dict_values (decisions st')" and "\<forall>d \<in> set (pg_decisions pg'). RetryDecision d = Inr d"
  shows "mirrors json pg' st'"
  using assms by (simp add: mirrors_def get_audit_trail_def)

lemma stored_row_sel [simp]:
  "fe_payment_id (stored_row json e) = fe_payment_id e" "fe_case_id (stored_row json e) = fe_case_id e"
  "attempt_number (stored_row json e) = attempt_number e"
  by (simp_all add: stored_row_def)

lemma failure_wf: "store_ok st \<Longrightarrow> dict_get (failures st) k = Some e \<Longrightarrow>
    k = (fe_case_id e, attempt_number e) \<and> 1 \<le> attempt_number e \<and> dict_get (payment_attempt_index st) (fe_payment_id e) = Some k"
  unfolding store_ok_def failures_ok_def by blast

lemma payment_known:
  assumes "mirrors json pg st" and "store_ok st" and "dict_get (payment_attempt_index st) p = None"
  shows "\<not> list_ex (\<lambda>f. fe_payment_id f = p) (pg_failures pg)"
proof -
  have "fe_payment_id e \<noteq> p" if "e \<in> set (dict_values (failures st))" for e
  proof -
    from assms(1) have "dict_wf (failures st)" by (simp add: mirrors_def)
    with that have "\<exists>k. dict_get (failures st) k = Some e" by (simp only: dict_values_get)
    then show ?thesis using failure_wf [OF assms(2)] assms(3) by force
  qed
  with assms(1) show ?thesis by (auto simp: mirrors_def list_ex_iff)
qed

lemma mirrors_write:
  assumes m: "mirrors json pg st" and s: "store_ok st" and ok: "write_ok w st" and fits: "storable json w st"
    and w: "mem_write w st = Inr st'"
  shows "\<exists>pg'. pg_write json w pg = (pg', Inr ()) \<and> mirrors json pg' st'"
proof (cases w)
  case (Create c)
  then have c: "create_case c st = Inr st'" using w by simp
  note f = create_case_Inr(1,3) [OF c]
  let ?pg = "pg\<lparr>pg_cases := pg_cases pg @ [c]\<rparr>"
  have "pg_write json w pg = (?pg, Inr ())"
    using m f(1) fits Create keyed_exists [OF case_keys [OF s]] by (simp add: pg_create_case_def execute_def mirrors_def)
  moreover have "mirrors json ?pg st'"
    using m f by (intro mirrors_cong [OF m]) (simp_all add: mirrors_def keyed_insert)
  ultimately show ?thesis by blast
next
  case (Update c)
  then have u: "update_case c st = Inr st'" using w by simp
  note f = update_case_Inr [OF u]
  let ?pg = "pg\<lparr>pg_cases := map (\<lambda>r. if case_id r = case_id c then c else r) (pg_cases pg)\<rparr>"
  have "pg_write json w pg = (?pg, Inr ())"
    using m fits Update by (simp add: pg_update_case_def execute_def mirrors_def)
  moreover have "dict_wf (cases st)" using s by (simp add: store_ok_def cases_ok_def)
  then have "mirrors json ?pg st'"
    using m f keyed_replace [OF case_keys [OF s], of c] by (intro mirrors_cong [OF m]) (simp_all add: mirrors_def)
  ultimately show ?thesis by blast
next
  case (Fail e)
  then have r: "record_failure e st = Inr st'" using w by simp
  have fresh: "dict_get (failures st) (fe_case_id e, attempt_number e) = None" "dict_get (payment_attempt_index st) (fe_payment_id e) = None"
    and st': "failures st' = dict_set (fe_case_id e, attempt_number e) e (failures st)"
      "cases st' = cases st" "decisions st' = decisions st" "audit_logs st' = audit_logs st" "next_sequence st' = next_sequence st"
    using r by (auto simp: record_failure_def Let_def not_None_eq [symmetric] simp del: not_None_eq split: if_splits)
  obtain ns where ns: "stored_notes json (fe_notes e) = Some ns" using fits Fail by auto
  let ?pg = "pg\<lparr>pg_failures := pg_failures pg @ [stored_row json e]\<rparr>"
  have "pg_write json w pg = (?pg, Inr ())"
    using m fits Fail ns payment_known [OF m s fresh(2)]
    by (simp add: pg_record_failure_def execute_def mirrors_def stored_row_def)
  moreover have "mirrors json ?pg st'"
    using m fresh st' by (intro mirrors_cong [OF m]) (simp_all add: mirrors_def keyed_insert)
  ultimately show ?thesis by blast
next
  case (Decide d)
  then have r: "record_retry_decision d st = Inr st'" using w by simp
  then have fresh: "dict_get (decisions st) (decision_key d) = None" and
    st': "st' = st\<lparr>decisions := dict_set (decision_key d) d (decisions st)\<rparr>"
    by (auto simp: record_retry_decision_def split: if_splits)
  let ?pg = "pg\<lparr>pg_decisions := pg_decisions pg @ [d]\<rparr>"
  have "pg_write json w pg = (?pg, Inr ())"
    using m fresh fits Decide keyed_exists [OF decision_keys [OF s]]
    by (simp add: pg_record_retry_decision_def execute_def mirrors_def)
  moreover have "mirrors json ?pg st'"
    using m fresh st' ok Decide by (intro mirrors_cong [OF m]) (simp_all add: mirrors_def keyed_insert)
  ultimately show ?thesis by blast
next
  case (Redecide d)
  then have r: "update_retry_decision d st = Inr st'" using w by simp
  then have known: "dict_get (decisions st) (decision_key d) \<noteq> None" and
    st': "st' = st\<lparr>decisions := dict_set (decision_key d) d (decisions st)\<rparr>"
    by (auto simp: update_retry_decision_def split: if_splits)
  let ?pg = "pg\<lparr>pg_decisions := map (\<lambda>r. if decision_key r = decision_key d then d else r) (pg_decisions pg)\<rparr>"
  have written: "pg_write json w pg = (?pg, Inr ())"
    using m Redecide by (simp add: pg_update_retry_decision_def execute_def mirrors_def)
  have "\<forall>r \<in> set (pg_decisions pg). RetryDecision r = Inr r" using m unfolding mirrors_def by blast
  then have all: "\<forall>r \<in> set (pg_decisions ?pg). RetryDecision r = Inr r" using ok Redecide by auto
  have "dict_wf (decisions st)" using s by (simp add: store_ok_def decisions_ok_def)
  note replaced = keyed_replace [OF decision_keys [OF s] this known]
  have "mirrors json ?pg st'"
    by (rule mirrors_cong [OF m _ _ _ _ _ _ _ _ all]) (use m st' replaced in \<open>simp_all add: mirrors_def\<close>)
  with written show ?thesis by blast
next
  case (Append e)
  with mirrors_append [OF m] ok fits w show ?thesis by auto
qed

section \<open>The same answers\<close>

definition lawful :: "row_order \<Rightarrow> bool" where
  "lawful ord \<longleftrightarrow> (\<forall>rs. mset (case_order ord rs) = mset rs) \<and> (\<forall>rs. mset (failure_order ord rs) = mset rs)
     \<and> (\<forall>rs. mset (decision_order ord rs) = mset rs)"

lemma execute_open: "mirrors json pg st \<Longrightarrow> execute pg f = f pg"
  by (simp add: execute_def mirrors_def)

lemma raised_Inr [simp]: "raised (Inr x) = Inr x"
  by (simp add: raised_def)

lemma fetch_only: "set xs = {x} \<Longrightarrow> fetchone xs = Some x"
  by (cases xs) auto

lemma row_to_case_ok: "recovery_case_ok c \<Longrightarrow> row_to_case c = Inr c"
  by (simp add: row_to_case_def)

lemma stored_case_ok: "store_ok st \<Longrightarrow> c \<in> set (dict_values (cases st)) \<Longrightarrow>
    recovery_case_ok c \<and> dict_get (cases st) (case_id c) = Some c \<and> dict_get (mandate_index st) (mandate_id c) = Some (case_id c)"
proof -
  assume "store_ok st" and c: "c \<in> set (dict_values (cases st))"
  then have ok: "cases_ok st" by (simp add: store_ok_def)
  then have "dict_wf (cases st)" by (simp add: cases_ok_def)
  from dict_value_key [OF this c] obtain k where "dict_get (cases st) k = Some c" ..
  with ok show ?thesis by (auto simp: cases_ok_def)
qed

lemma same_case:
  assumes "mirrors json pg st" and "store_ok st"
  shows "snd (pg_get_case cid pg) = (case get_case cid st of Inr c \<Rightarrow> Inr c | Inl _ \<Rightarrow> Inl PgCaseNotFoundError)"
proof -
  have look: "fetchone (filter (\<lambda>r. case_id r = cid) (pg_cases pg)) = dict_get (cases st) cid"
    using assms(1) keyed_lookup [OF case_keys [OF assms(2)]] by (simp add: mirrors_def)
  show ?thesis
  proof (cases "dict_get (cases st) cid")
    case None
    with look show ?thesis by (simp add: pg_get_case_def execute_open [OF assms(1)] get_case_def)
  next
    case (Some c)
    then have "row_to_case c = Inr c"
      using assms(2) by (intro row_to_case_ok) (auto simp: store_ok_def cases_ok_def)
    with Some look show ?thesis by (simp add: pg_get_case_def execute_open [OF assms(1)] get_case_def)
  qed
qed

lemma same_mandate:
  assumes m: "mirrors json pg st" and s: "store_ok st" and ord: "lawful ord"
  shows "snd (pg_find_case_by_mandate ord mid pg) = Inr (find_case_by_mandate mid st)"
proof -
  let ?rs = "filter (\<lambda>r. mandate_id r = mid) (case_order ord (pg_cases pg))"
  have "mset (case_order ord (pg_cases pg)) = mset (pg_cases pg)" using ord by (simp add: lawful_def)
  then have "set (case_order ord (pg_cases pg)) = set (pg_cases pg)" by (rule mset_eq_setD)
  then have rows: "set ?rs = {c \<in> set (dict_values (cases st)). mandate_id c = mid}"
    unfolding mirrorsD(1) [OF m] by auto
  show ?thesis
  proof (cases "dict_get (mandate_index st) mid")
    case None
    have "c \<notin> set ?rs" for c
    proof
      assume "c \<in> set ?rs"
      then have "c \<in> set (dict_values (cases st))" "mandate_id c = mid" unfolding rows by blast+
      with stored_case_ok [OF s this(1)] None show False by simp
    qed
    then have "?rs = []" using hd_in_set by blast
    with None show ?thesis
      by (simp add: pg_find_case_by_mandate_def execute_open [OF m] one_case_def find_case_by_mandate_def find_indexed_def)
  next
    case (Some k)
    then obtain c where c: "dict_get (cases st) k = Some c" "mandate_id c = mid"
      using s unfolding store_ok_def cases_ok_def by blast
    have ck: "case_id c = k" "recovery_case_ok c" using s c(1) by (auto simp: store_ok_def cases_ok_def)
    then have "k \<noteq> []" by (auto simp: recovery_case_ok_def)
    have "c \<in> set (dict_values (cases st))" using c(1) by (rule dict_value_in)
    moreover have "d = c" if "d \<in> set (dict_values (cases st))" "mandate_id d = mid" for d
      using stored_case_ok [OF s that(1)] that(2) Some c(1) by simp
    ultimately have "set ?rs = {c}" using rows c(2) by blast
    then have "fetchone ?rs = Some c" by (rule fetch_only)
    with Some c ck \<open>k \<noteq> []\<close> show ?thesis
      by (simp add: pg_find_case_by_mandate_def execute_open [OF m] one_case_def find_case_by_mandate_def find_indexed_def
          row_to_case_ok)
  qed
qed

lemma same_listing:
  assumes m: "mirrors json pg st" and s: "store_ok st" and ord: "lawful ord"
  shows "\<exists>cs. snd (pg_list_cases ord pg) = Inr cs \<and> mset cs = mset (Case_Store.list_cases st)"
proof -
  let ?rs = "case_order ord (pg_cases pg)"
  have eq: "mset ?rs = mset (Case_Store.list_cases st)"
    using m ord by (simp add: mirrors_def lawful_def Case_Store.list_cases_def)
  have "\<forall>c \<in> set ?rs. recovery_case_ok c"
    using stored_case_ok [OF s] mset_eq_setD [OF eq] by (simp add: Case_Store.list_cases_def)
  then have "mapR row_to_case ?rs = Inr (map (\<lambda>c. c) ?rs)" by (intro mapR_Inr row_to_case_ok) blast
  with eq show ?thesis by (simp add: pg_list_cases_def execute_open [OF m])
qed

lemma same_decision:
  assumes m: "mirrors json pg st" and s: "store_ok st"
  shows "snd (pg_get_retry_decision cid n pg) =
     (case get_retry_decision cid n st of Inr d \<Rightarrow> Inr d | Inl _ \<Rightarrow> Inl PgCaseNotFoundError)"
proof -
  have look: "fetchone (filter (\<lambda>r. decision_key r = (cid, n)) (pg_decisions pg)) = dict_get (decisions st) (cid, n)"
    using m keyed_lookup [OF decision_keys [OF s]] by (simp add: mirrors_def)
  have "RetryDecision d = Inr d" if "dict_get (decisions st) (cid, n) = Some d" for d
  proof -
    have "d \<in> set (pg_decisions pg)" unfolding mirrorsD(4) [OF m] using that by (rule dict_value_in)
    then show ?thesis by (rule mirrorsD(5) [OF m])
  qed
  with look show ?thesis
    by (cases "dict_get (decisions st) (cid, n)")
      (simp_all add: pg_get_retry_decision_def execute_open [OF m] get_retry_decision_def row_to_decision_def)
qed

lemma same_pending:
  assumes m: "mirrors json pg st" and ord: "lawful ord"
  shows "\<exists>ds. snd (pg_get_pending_retries ord pg) = Inr ds \<and> mset ds = mset (get_pending_retries st)"
proof -
  let ?rs = "filter (\<lambda>r. outcome r = Pending) (decision_order ord (pg_decisions pg))"
  have eq: "mset ?rs = mset (get_pending_retries st)"
    using m ord by (simp add: mirrors_def lawful_def get_pending_retries_def)
  have "mset (decision_order ord (pg_decisions pg)) = mset (pg_decisions pg)" using ord by (simp add: lawful_def)
  then have "set (decision_order ord (pg_decisions pg)) = set (pg_decisions pg)" by (rule mset_eq_setD)
  moreover have "\<forall>d \<in> set (pg_decisions pg). RetryDecision d = Inr d" using m unfolding mirrors_def by blast
  ultimately have "mapR row_to_decision ?rs = Inr (map (\<lambda>d. d) ?rs)" by (intro mapR_Inr) (simp add: row_to_decision_def)
  with eq show ?thesis by (simp add: pg_get_pending_retries_def execute_open [OF m])
qed

lemma same_attempt:
  assumes m: "mirrors json pg st" and s: "store_ok st"
  shows "snd (pg_find_attempt_by_payment_id p pg) = Inr (find_attempt_by_payment_id p st)"
proof (cases "dict_get (payment_attempt_index st) p")
  case None
  have "filter (\<lambda>f. fe_payment_id f = p) (pg_failures pg) = []"
    using payment_known [OF m s None] by (simp add: list_ex_iff filter_empty_conv)
  with None show ?thesis
    by (simp add: pg_find_attempt_by_payment_id_def execute_open [OF m] find_attempt_by_payment_id_def)
next
  case (Some k)
  then obtain e where e: "dict_get (failures st) k = Some e" "fe_payment_id e = p"
    using s unfolding store_ok_def failures_ok_def by blast
  have "k = (fe_case_id f, attempt_number f)" if "f \<in> set (filter (\<lambda>f. fe_payment_id f = p) (pg_failures pg))" for f
  proof -
    have "f \<in> stored_row json ` set (dict_values (failures st))" and p: "fe_payment_id f = p"
      using that mirrorsD(2) [OF m] by (simp_all del: set_map add: set_map [symmetric])
    then obtain x where x: "x \<in> set (dict_values (failures st))" "f = stored_row json x" by blast
    from dict_value_key [OF mirrorsD(3) [OF m] x(1)] obtain j where "dict_get (failures st) j = Some x" ..
    from failure_wf [OF s this] p x(2) Some show ?thesis by simp
  qed
  moreover have "stored_row json e \<in> set (pg_failures pg)"
    using map_of_SomeD [OF e(1)] mirrorsD(2) [OF m] by force
  then have "stored_row json e \<in> set (filter (\<lambda>f. fe_payment_id f = p) (pg_failures pg))" using e(2) by simp
  ultimately have "map_option (\<lambda>f. (fe_case_id f, attempt_number f)) (fetchone (filter (\<lambda>f. fe_payment_id f = p) (pg_failures pg))) = Some k"
    by (cases "filter (\<lambda>f. fe_payment_id f = p) (pg_failures pg)") (simp, metis fetchone.simps(2) list.set_intros(1) option.simps(9))
  with Some show ?thesis
    by (simp add: pg_find_attempt_by_payment_id_def execute_open [OF m] find_attempt_by_payment_id_def)
qed

lemma foldl_max_filter:
  "foldl (\<lambda>m (k, a). if k = cid then max m a else m) m ks = foldl max m (map snd (filter (\<lambda>(k, a). k = cid) ks))"
  by (induction ks arbitrary: m) auto

lemma sql_max_foldl: "\<forall>n \<in> set ns. 0 \<le> n \<Longrightarrow> (case sql_max ns of None \<Rightarrow> 0 | Some n \<Rightarrow> n) = foldl max 0 ns"
  by (cases ns) (auto simp: max_def)

lemma same_max_attempt:
  assumes m: "mirrors json pg st" and s: "store_ok st"
  shows "snd (pg_get_max_attempt_number cid pg) = Inr (get_max_attempt_number cid st)"
proof -
  have wf: "dict_wf (failures st)" using m by (simp add: mirrors_def)
  have key: "fst q = (fe_case_id (snd q), attempt_number (snd q)) \<and> 1 \<le> attempt_number (snd q)" if "q \<in> set (failures st)" for q
  proof -
    have "dict_get (failures st) (fst q) = Some (snd q)" using that by (intro dict_wf_get [OF wf]) simp
    from failure_wf [OF s this] show ?thesis by simp
  qed
  let ?ns = "map attempt_number (filter (\<lambda>f. fe_case_id f = cid) (pg_failures pg))"
  have "map attempt_number (filter (\<lambda>f. fe_case_id f = cid) (map (stored_row json) (dict_values d)))
      = map snd (filter (\<lambda>(k, a). k = cid) (map fst d))"
    if "set d \<subseteq> set (failures st)" for d
    using that
  proof (induction d)
    case (Cons q d)
    with key [of q] show ?case by (cases q) auto
  qed simp
  then have ns: "?ns = map snd (filter (\<lambda>(k, a). k = cid) (map fst (failures st)))"
    unfolding mirrorsD(2) [OF m] by blast
  have "\<forall>f \<in> set (pg_failures pg). 1 \<le> attempt_number f" using m key by (force simp: mirrors_def)
  then have "\<forall>n \<in> set ?ns. 0 \<le> n" by auto
  from sql_max_foldl [OF this] show ?thesis
    by (simp add: pg_get_max_attempt_number_def execute_open [OF m] get_max_attempt_number_def foldl_max_filter ns)
qed

lemma same_trail:
  assumes m: "mirrors json pg st"
  shows "snd (pg_get_audit_trail cid pg) = Inr (get_audit_trail cid st)"
proof -
  have "filter (\<lambda>e. ae_case_id e = cid) (pg_audit pg) = get_audit_trail cid st" using m unfolding mirrors_def by blast
  then have "set (get_audit_trail cid st) \<subseteq> set (pg_audit pg)" by (metis filter_is_subset)
  moreover have "\<forall>e \<in> set (pg_audit pg). audit_row_ok e" using m unfolding mirrors_def by blast
  ultimately have "\<forall>e \<in> set (get_audit_trail cid st). audit_row_ok e" by blast
  then have "\<forall>e \<in> set (get_audit_trail cid st). row_to_audit e = Inr e"
    by (auto simp: row_to_audit_def audit_row_ok_def)
  then have "mapR row_to_audit (get_audit_trail cid st) = Inr (map (\<lambda>e. e) (get_audit_trail cid st))" by (intro mapR_Inr) blast
  then show ?thesis by (simp add: pg_get_audit_trail_def execute_open [OF m] rows_are_trail [OF m])
qed

section \<open>The refinement\<close>

text \<open>A run of both stores on the same accepted writes.\<close>

inductive mirrored_run :: "json_column \<Rightarrow> pg_store \<Rightarrow> case_store \<Rightarrow> bool" for json where
  fresh: "mirrored_run json PostgresCaseStore InMemoryCaseStore"
| wrote: "mirrored_run json pg st \<Longrightarrow> write_ok w st \<Longrightarrow> storable json w st \<Longrightarrow> mem_write w st = Inr st' \<Longrightarrow>
    mirrored_run json (fst (pg_write json w pg)) st'"

lemma mirrored_run_ok: "mirrored_run json pg st \<Longrightarrow> mirrors json pg st \<and> store_ok st"
proof (induction rule: mirrored_run.induct)
  case fresh
  show ?case by (simp add: mirrors_init store_ok_init)
next
  case (wrote pg st w st')
  with mirrors_write [of json pg st w st'] show ?case
    using store_step_ok [OF write_is_step] by fastforce
qed

text \<open>
  C20. The Postgres store refines the in-memory store.  After any sequence of writes that the in-memory store
  accepts and whose numbers fit the columns, and whatever order the server returns unordered rows in, both
  give the same case for an id and for a mandate, the same highest attempt number, the same attempt for a
  payment, the same decision for an attempt and the same hash-chained audit trail, and list the same cases
  and pending retries up to their order; and the database accepts every further such write.
\<close>

theorem postgres_refines_memory:
  assumes "mirrored_run json pg st" and "lawful ord"
  shows "snd (pg_get_case cid pg) = (case get_case cid st of Inr c \<Rightarrow> Inr c | Inl _ \<Rightarrow> Inl PgCaseNotFoundError)
     \<and> snd (pg_find_case_by_mandate ord mid pg) = Inr (find_case_by_mandate mid st)
     \<and> snd (pg_get_max_attempt_number cid pg) = Inr (get_max_attempt_number cid st)
     \<and> snd (pg_find_attempt_by_payment_id p pg) = Inr (find_attempt_by_payment_id p st)
     \<and> snd (pg_get_retry_decision cid n pg)
         = (case get_retry_decision cid n st of Inr d \<Rightarrow> Inr d | Inl _ \<Rightarrow> Inl PgCaseNotFoundError)
     \<and> snd (pg_get_audit_trail cid pg) = Inr (get_audit_trail cid st)
     \<and> (\<exists>cs. snd (pg_list_cases ord pg) = Inr cs \<and> mset cs = mset (Case_Store.list_cases st))
     \<and> (\<exists>ds. snd (pg_get_pending_retries ord pg) = Inr ds \<and> mset ds = mset (get_pending_retries st))
     \<and> (\<forall>w st'. write_ok w st \<longrightarrow> storable json w st \<longrightarrow> mem_write w st = Inr st' \<longrightarrow> snd (pg_write json w pg) = Inr ())"
proof -
  have m: "mirrors json pg st" and s: "store_ok st" using mirrored_run_ok [OF assms(1)] by blast+
  have accepts: "snd (pg_write json w pg) = Inr ()"
    if "write_ok w st" "storable json w st" "mem_write w st = Inr st'" for w st'
    using mirrors_write [OF m s that] by auto
  show ?thesis
    using same_case [OF m s] same_mandate [OF m s assms(2)] same_max_attempt [OF m s] same_attempt [OF m s]
      same_decision [OF m s] same_trail [OF m] same_listing [OF m s assms(2)] same_pending [OF m assms(2)] accepts
    by blast
qed

section \<open>Where they differ\<close>

text \<open>Every operation in a failed transaction.\<close>

lemma execute_failed: "pg_failed s \<Longrightarrow> execute s f = (s, Inl InFailedSqlTransaction)"
  by (simp add: execute_def)

lemma write_failed: "pg_failed s \<Longrightarrow> pg_write json w s = (s, Inl InFailedSqlTransaction)"
  by (cases w)
    (simp_all add: execute_failed pg_create_case_def pg_update_case_def pg_record_failure_def pg_record_retry_decision_def
      pg_update_retry_decision_def pg_append_audit_def)

text \<open>
  C25. One amount too large stops the store for ever.  Creating a case whose amount does not fit a 32-bit
  column (the in-memory store takes any amount) is refused, nothing rolls the transaction back, and from
  then on every write is refused and changes nothing, however many follow, and every read raises.
\<close>

theorem oversize_amount_stops_store:
  assumes "\<not> pg_failed s" and "2147483648 \<le> original_amount c"
  shows "\<exists>s'. pg_create_case c s = (s', Inl NumericValueOutOfRange)
     \<and> (\<forall>ws. foldl (\<lambda>s w. fst (pg_write json w s)) s' ws = s')
     \<and> (\<forall>w. snd (pg_write json w s') = Inl InFailedSqlTransaction)
     \<and> (\<forall>cid. snd (pg_get_case cid s') = Inl InFailedSqlTransaction)
     \<and> (\<forall>mid. snd (pg_find_case_by_mandate ord mid s') = Inl InFailedSqlTransaction)
     \<and> (\<forall>p. snd (pg_find_attempt_by_payment_id p s') = Inl InFailedSqlTransaction)
     \<and> snd (pg_list_cases ord s') = Inl InFailedSqlTransaction
     \<and> (\<forall>cid. snd (pg_get_audit_trail cid s') = Inl InFailedSqlTransaction)"
proof -
  let ?s = "s\<lparr>pg_failed := True\<rparr>"
  have stuck: "foldl (\<lambda>s w. fst (pg_write json w s)) ?s ws = ?s" for ws
    by (induction ws) (simp_all add: write_failed)
  have "pg_create_case c s = (?s, Inl NumericValueOutOfRange)"
    using assms by (simp add: pg_create_case_def execute_def case_fits_def fits_integer_def server_error_def)
  with stuck show ?thesis
    by (intro exI [of _ ?s]) (simp add: write_failed execute_failed pg_get_case_def pg_find_case_by_mandate_def
      pg_find_attempt_by_payment_id_def pg_list_cases_def pg_get_audit_trail_def)
qed

text \<open>
  C26. The database lets through what the in-memory store refuses, from the same history: an update of a case
  that does not exist (it answers normally and changes nothing), a second case for a mandate that has one,
  and a second failure for an attempt, under another payment id.
\<close>

theorem postgres_accepts_more:
  assumes "mirrored_run json pg st"
  shows "(case_fits c \<and> dict_get (cases st) (case_id c) = None \<longrightarrow>
            update_case c st = Inl CaseNotFoundError \<and> pg_update_case c pg = (pg, Inr ()))
     \<and> (case_fits c \<and> recovery_case_ok c \<and> dict_get (cases st) (case_id c) = None
          \<and> find_case_by_mandate (mandate_id c) st = Some d \<longrightarrow>
            create_case c st = Inl CaseAlreadyExistsError \<and> snd (pg_create_case c pg) = Inr ())
     \<and> (storable json (Fail e) st \<and> dict_get (failures st) (fe_case_id e, attempt_number e) = Some e0
          \<and> find_attempt_by_payment_id (fe_payment_id e) st = None \<longrightarrow>
            record_failure e st = Inl FailureAlreadyRecordedError \<and> snd (pg_record_failure json e pg) = Inr ())"
proof -
  have m: "mirrors json pg st" and s: "store_ok st" using mirrored_run_ok [OF assms(1)] by blast+
  have absent: "\<not> list_ex (\<lambda>r. case_id r = case_id c) (pg_cases pg)" if "dict_get (cases st) (case_id c) = None"
    using that keyed_exists [OF case_keys [OF s]] mirrorsD(1) [OF m] by simp
  then have "map (\<lambda>r. if case_id r = case_id c then c else r) (pg_cases pg) = pg_cases pg"
    if "dict_get (cases st) (case_id c) = None"
    using that by (auto simp: list_ex_iff intro: map_idI)
  then have update: "pg_update_case c pg = (pg, Inr ())" if "case_fits c" "dict_get (cases st) (case_id c) = None"
    using that by (simp add: pg_update_case_def execute_open [OF m])
  have create: "snd (pg_create_case c pg) = Inr ()" if "case_fits c" "dict_get (cases st) (case_id c) = None"
    using that absent by (simp add: pg_create_case_def execute_open [OF m])
  have refused: "create_case c st = Inl CaseAlreadyExistsError"
    if "recovery_case_ok c" "dict_get (cases st) (case_id c) = None" "find_case_by_mandate (mandate_id c) st = Some d"
  proof -
    from that(3) obtain k where "dict_get (mandate_index st) (mandate_id c) = Some k" "k \<noteq> []" "dict_get (cases st) k = Some d"
      by (auto simp: find_case_by_mandate_def find_indexed_def split: option.splits if_splits)
    with that(1,2) show ?thesis by (auto simp: create_case_def recovery_case_ok_def)
  qed
  have fail: "snd (pg_record_failure json e pg) = Inr ()"
    if f: "storable json (Fail e) st" and u: "find_attempt_by_payment_id (fe_payment_id e) st = None"
  proof -
    from f obtain ns where "stored_notes json (fe_notes e) = Some ns" by auto
    with f payment_known [OF m s, of "fe_payment_id e"] u show ?thesis
      by (simp add: pg_record_failure_def execute_open [OF m] find_attempt_by_payment_id_def)
  qed
  show ?thesis
    using update create refused fail by (simp add: update_case_def record_failure_def Let_def)
qed

section \<open>A run\<close>

definition sample_row :: "string \<Rightarrow> recovery_case" where
  "sample_row cid =
     \<lparr>case_id = cid, mandate_id = ''m1'', instrument_id = ''i'', original_amount = 50000, opened_at = 0, retries_used = 0,
      state = NOTICE_PENDING, bucket = Some Treatment, control_outcome = None, control_observation_deadline = None,
      resolution_note = None\<rparr>"

definition as_written :: row_order where
  "as_written = \<lparr>case_order = id, failure_order = id, decision_order = id\<rparr>"

lemma sample_mirrored:
  obtains pg st where "mirrored_run Some pg st" and "cases st = [(''p1'', sample_row ''p1'')]"
    and "mandate_index st = [(''m1'', ''p1'')]"
proof -
  have c: "\<exists>st. create_case (sample_row ''p1'') InMemoryCaseStore = Inr st \<and> cases st = [(''p1'', sample_row ''p1'')]
      \<and> mandate_index st = [(''m1'', ''p1'')]"
    by (simp add: create_case_def InMemoryCaseStore_def sample_row_def Let_def index_mandate_def)
  then obtain st where st: "create_case (sample_row ''p1'') InMemoryCaseStore = Inr st" "cases st = [(''p1'', sample_row ''p1'')]"
      "mandate_index st = [(''m1'', ''p1'')]" by blast
  have "mirrored_run Some (fst (pg_write Some (Create (sample_row ''p1'')) PostgresCaseStore)) st"
    by (rule mirrored_run.wrote [OF mirrored_run.fresh])
      (use st in \<open>simp_all add: recovery_case_ok_def case_fits_def fits_integer_def sample_row_def\<close>)
  from this st(2,3) show ?thesis by (rule that)
qed

theorem postgres_refines_memory_witness:
  "\<exists>pg st. mirrored_run Some pg st \<and> snd (pg_get_case ''p1'' pg) = Inr (sample_row ''p1'')
     \<and> snd (pg_find_case_by_mandate as_written ''m1'' pg) = Inr (Some (sample_row ''p1''))"
proof (rule sample_mirrored)
  fix pg st
  assume run: "mirrored_run Some pg st" and c: "cases st = [(''p1'', sample_row ''p1'')]" "mandate_index st = [(''m1'', ''p1'')]"
  have "lawful as_written" by (simp add: lawful_def as_written_def)
  from postgres_refines_memory [OF run this, of "''p1''" "''m1''"] c
  have "snd (pg_get_case ''p1'' pg) = Inr (sample_row ''p1'')"
    "snd (pg_find_case_by_mandate as_written ''m1'' pg) = Inr (Some (sample_row ''p1''))"
    by (simp_all add: get_case_def find_case_by_mandate_def find_indexed_def)
  with run show ?thesis by blast
qed

theorem oversize_amount_stops_store_witness:
  "\<exists>s'. pg_create_case ((sample_row ''p1'')\<lparr>original_amount := 3000000000\<rparr>) PostgresCaseStore = (s', Inl NumericValueOutOfRange)
     \<and> snd (pg_write Some (Create (sample_row ''p2'')) s') = Inl InFailedSqlTransaction"
proof -
  have "\<not> pg_failed PostgresCaseStore" "2147483648 \<le> original_amount ((sample_row ''p1'')\<lparr>original_amount := 3000000000\<rparr>)"
    by (simp_all add: PostgresCaseStore_def)
  from oversize_amount_stops_store [OF this, of Some as_written] show ?thesis by blast
qed

theorem postgres_accepts_more_witness:
  "\<exists>pg st. mirrored_run Some pg st \<and> create_case (sample_row ''p2'') st = Inl CaseAlreadyExistsError
     \<and> snd (pg_create_case (sample_row ''p2'') pg) = Inr ()"
proof (rule sample_mirrored)
  fix pg st
  assume run: "mirrored_run Some pg st" and c: "cases st = [(''p1'', sample_row ''p1'')]" "mandate_index st = [(''m1'', ''p1'')]"
  have fits: "case_fits (sample_row ''p2'')" "recovery_case_ok (sample_row ''p2'')" "case_id (sample_row ''p2'') = ''p2''"
    "mandate_id (sample_row ''p2'') = ''m1''"
    by (simp_all add: case_fits_def fits_integer_def recovery_case_ok_def sample_row_def)
  with postgres_accepts_more [OF run, of "sample_row ''p2''" "sample_row ''p1''"] c
  have "create_case (sample_row ''p2'') st = Inl CaseAlreadyExistsError" "snd (pg_create_case (sample_row ''p2'') pg) = Inr ()"
    by (simp_all add: find_case_by_mandate_def find_indexed_def)
  with run show ?thesis by blast
qed

end
