(* ===== verification/Advisory.thy ===== *)
theory Advisory
  imports Service
begin

text \<open>
  The endpoints around the service that only advise or demonstrate: the decline proposer with its language
  model (\<^verbatim>\<open>app/explain/decline_proposer.py\<close>), and the leader detection, the chaos endpoints and the cluster
  status of \<^verbatim>\<open>app/main.py\<close>.  The language model, the etcd client and the processes started are parameters;
  \<open>spawn check command\<close> is the output of a command, or the exception its run raises.
\<close>

section \<open>Decline proposals\<close>

definition proposal_prompt :: "string \<Rightarrow> string option \<Rightarrow> string" where
  "proposal_prompt rcode ereason =
     ''Classify this payment failure: reason_code='' @ rcode @ '', error_reason=''
     @ (case ereason of None \<Rightarrow> ''None'' | Some r \<Rightarrow> r)
     @ ''. Is it technical (retryable) or business (non-retryable)? Respond with JSON {''
     @ [CHR 0x22] @ ''class'' @ [CHR 0x22] @ '': '' @ [CHR 0x22] @ ''technical'' @ [CHR 0x22] @ '' or ''
     @ [CHR 0x22] @ ''business'' @ [CHR 0x22] @ '', '' @ [CHR 0x22] @ ''confidence'' @ [CHR 0x22] @ '': 0.0-1.0, ''
     @ [CHR 0x22] @ ''reasoning'' @ [CHR 0x22] @ '': '' @ [CHR 0x22] @ ''...'' @ [CHR 0x22] @ ''}''"

text \<open>The constant is the exact value of the float \<^verbatim>\<open>0.1\<close>.\<close>

definition fallback_proposal :: pyval where
  "fallback_proposal =
     PDict [(''class'', PStr ''business''), (''confidence'', PFloat (3602879701896397 / 36028797018963968)),
            (''reasoning'', PStr ''Unknown code defaulting to business/non-retryable per NPCI safety policy.'')]"

fun loads_text :: "(string \<Rightarrow> pyval result) \<Rightarrow> pyval \<Rightarrow> pyval result" where
  "loads_text loads (PStr t) = loads t"
| "loads_text loads _ = Inl TypeError"

text \<open>
  \<open>llm\<close> is the decoded JSON body the configured endpoint answers a prompt with; \<open>None\<close> when no endpoint is
  configured.
\<close>

definition propose_classification ::
  "(string \<Rightarrow> pyval result) option \<Rightarrow> (string \<Rightarrow> pyval result) \<Rightarrow> string \<Rightarrow> string option \<Rightarrow> pyval" where
  "propose_classification llm loads rcode ereason =
     (case llm of
        None \<Rightarrow> fallback_proposal
      | Some post \<Rightarrow>
          (case bindR (post (proposal_prompt rcode ereason)) (\<lambda>data.
                bindR (py_get data ''text'' PNone) (\<lambda>t.
                bindR (if truthy t then Inr t else py_get data ''response'' PNone) (loads_text loads))) of
             Inr proposal \<Rightarrow> proposal
           | Inl _ \<Rightarrow> fallback_proposal))"

text \<open>\<^verbatim>\<open>v[k] = x\<close> for a string \<^verbatim>\<open>k\<close>: only a dictionary takes it.\<close>

fun py_set :: "string \<Rightarrow> pyval \<Rightarrow> pyval \<Rightarrow> pyval result" where
  "py_set k x (PDict d) = Inr (PDict (dict_set k x d))"
| "py_set k x _ = Inl TypeError"

definition propose_decline ::
  "(string \<Rightarrow> pyval result) option \<Rightarrow> (string \<Rightarrow> pyval result) \<Rightarrow> string \<Rightarrow> string option \<Rightarrow> pyval result" where
  "propose_decline llm loads rcode ereason =
     bindR (py_set ''advisory'' (PBool True) (propose_classification llm loads rcode ereason))
       (py_set ''note'' (PStr ''For manual review only; not used in automated decisions.''))"

text \<open>An answer is always marked as advisory; only a model that returns JSON other than an object makes it fail.\<close>

lemma proposals_are_advisory:
  "case propose_decline llm loads rcode ereason of
     Inr p \<Rightarrow> \<exists>d. p = PDict d \<and> dict_get d ''advisory'' = Some (PBool True)
   | Inl e \<Rightarrow> e = TypeError \<and> llm \<noteq> None"
proof (cases "propose_classification llm loads rcode ereason")
  case (PDict d)
  then show ?thesis by (simp add: propose_decline_def)
qed (auto simp: propose_decline_def propose_classification_def fallback_proposal_def split: option.splits)

lemma no_model_proposes_business:
  "\<exists>d. propose_decline None loads rcode ereason = Inr (PDict d) \<and> dict_get d ''class'' = Some (PStr ''business'')"
  by (simp add: propose_decline_def propose_classification_def fallback_proposal_def)

section \<open>The leader\<close>

text \<open>\<^verbatim>\<open>subprocess.run\<close> refuses \<^verbatim>\<open>capture_output\<close> together with \<^verbatim>\<open>stdout\<close> or \<^verbatim>\<open>stderr\<close>.\<close>

record process_call =
  command :: "string list"
  capture_output :: bool
  pipes_given :: bool
  check :: bool

definition subprocess_run :: "(bool \<Rightarrow> string list \<Rightarrow> string result) \<Rightarrow> process_call \<Rightarrow> string result" where
  "subprocess_run spawn p =
     (if capture_output p \<and> pipes_given p then Inl ValueError else spawn (check p) (command p))"

text \<open>\<^verbatim>\<open>endpoint.split("://")[-1].split(":")[0]\<close>.\<close>

fun after_scheme :: "string \<Rightarrow> string \<Rightarrow> string" where
  "after_scheme found [] = found"
| "after_scheme found (c # cs) = after_scheme (if take 3 (c # cs) = ''://'' then drop 2 cs else found) cs"

definition endpoint_host :: "string \<Rightarrow> string" where
  "endpoint_host e = takeWhile (\<lambda>c. c \<noteq> CHR '':'') (after_scheme e e)"

fun host_of :: "pyval \<Rightarrow> string result" where
  "host_of (PStr e) = Inr (endpoint_host e)"
| "host_of _ = Inl AttributeError"

text \<open>Iteration over a value.\<close>

fun py_iter :: "pyval \<Rightarrow> pyval list result" where
  "py_iter (PList xs) = Inr xs"
| "py_iter (PDict d) = Inr (map (\<lambda>(k, v). PStr k) d)"
| "py_iter (PStr s) = Inr (map (\<lambda>c. PStr [c]) s)"
| "py_iter _ = Inl TypeError"

fun scan_statuses :: "(pyval \<Rightarrow> string) \<Rightarrow> (string, string) dict \<Rightarrow> pyval list \<Rightarrow> string option result" where
  "scan_statuses str names [] = Inr None"
| "scan_statuses str names (st # sts) =
     bindR (py_get st ''Status'' (PDict [])) (\<lambda>status.
     bindR (py_get status ''leader'' PNone) (\<lambda>leader_id.
       if \<not> truthy leader_id then scan_statuses str names sts
       else case dict_get names (str leader_id) of
              Some (c # cs) \<Rightarrow> Inr (Some (c # cs))
            | _ \<Rightarrow> bindR (py_get st ''Endpoint'' (PStr [])) (\<lambda>endpoint.
                    if \<not> truthy endpoint then scan_statuses str names sts
                    else bindR (host_of endpoint) (\<lambda>host. Inr (Some host)))))"

definition status_call :: "string \<Rightarrow> process_call" where
  "status_call node =
     \<lparr>command = [''docker'', ''compose'', ''exec'', ''-T'', node, ''etcdctl'', ''endpoint'', ''status'', ''--write-out=json'',
                 ''--cluster''],
      capture_output = True, pipes_given = True, check = True\<rparr>"

fun ask_nodes ::
  "'c settings \<Rightarrow> (pyval \<Rightarrow> string) \<Rightarrow> (bool \<Rightarrow> string list \<Rightarrow> string result) \<Rightarrow> (string, string) dict \<Rightarrow> string list
   \<Rightarrow> string option" where
  "ask_nodes cfg str spawn names [] = None"
| "ask_nodes cfg str spawn names (node # nodes) =
     (case bindR (subprocess_run spawn (status_call node)) (\<lambda>out.
           bindR (json_loads cfg out) (\<lambda>statuses.
           bindR (py_iter statuses) (scan_statuses str names))) of
        Inr (Some leader) \<Rightarrow> Some leader
      | _ \<Rightarrow> ask_nodes cfg str spawn names nodes)"

text \<open>The members are the ids, names and URLs of the etcd client, with the ids as text.\<close>

type_synonym members = "(string \<times> string \<times> string list) list result"

definition get_leader_name ::
  "'c settings \<Rightarrow> members \<Rightarrow> (pyval \<Rightarrow> string) \<Rightarrow> (bool \<Rightarrow> string list \<Rightarrow> string result) \<Rightarrow> string option" where
  "get_leader_name cfg ms str spawn =
     (if \<not> use_etcd cfg then None
      else ask_nodes cfg str spawn (case ms of Inl _ \<Rightarrow> [] | Inr xs \<Rightarrow> rev (map (\<lambda>(i, n, _). (i, n)) xs))
             [''etcd1'', ''etcd2'', ''etcd3''])"

section \<open>Chaos and status\<close>

definition stop_call :: "string \<Rightarrow> process_call" where
  "stop_call name = \<lparr>command = [''docker'', ''compose'', ''stop'', name], capture_output = False, pipes_given = False, check = False\<rparr>"

datatype chaos_answer = Killed string bool | Simulated

definition chaos_kill_leader ::
  "'c settings \<Rightarrow> members \<Rightarrow> (pyval \<Rightarrow> string) \<Rightarrow> (bool \<Rightarrow> string list \<Rightarrow> string result) \<Rightarrow> chaos_answer result" where
  "chaos_kill_leader cfg ms str spawn =
     (if config_profile (config cfg) \<noteq> Demo then Inl (HTTPException 403)
      else if \<not> use_etcd cfg then Inr Simulated
      else case get_leader_name cfg ms str spawn of
             Some (c # cs) \<Rightarrow> bindR (subprocess_run spawn (stop_call (c # cs))) (\<lambda>_. Inr (Killed (c # cs) True))
           | _ \<Rightarrow> bindR (subprocess_run spawn (stop_call ''etcd3'')) (\<lambda>_. Inr (Killed ''etcd3'' False)))"

definition chaos_spike :: "'c settings \<Rightarrow> chaos_answer result" where
  "chaos_spike cfg = (if config_profile (config cfg) \<noteq> Demo then Inl (HTTPException 403) else Inr Simulated)"

definition cluster_status ::
  "'c settings \<Rightarrow> members \<Rightarrow> (pyval \<Rightarrow> string) \<Rightarrow> (bool \<Rightarrow> string list \<Rightarrow> string result)
   \<Rightarrow> (string \<times> string \<times> string list) list \<times> string option \<times> bool" where
  "cluster_status cfg ms str spawn =
     (if use_etcd cfg
      then (case ms of Inl _ \<Rightarrow> [] | Inr xs \<Rightarrow> xs, get_leader_name cfg ms str spawn, True)
      else ([(''etcd1'', ''leader'', []), (''etcd2'', ''follower'', []), (''etcd3'', ''follower'', [])], Some ''etcd1'', False))"

lemma status_call_refused: "subprocess_run spawn (status_call node) = Inl ValueError"
  by (simp add: subprocess_run_def status_call_def)

lemma ask_nodes_None: "ask_nodes cfg str spawn names nodes = None"
  by (induction nodes) (simp_all add: status_call_refused)

text \<open>
  C27. No leader is ever found.  Whatever the cluster answers, the leader detection returns nothing, because
  it starts its command with arguments that \<^verbatim>\<open>subprocess.run\<close> refuses and swallows the exception; so the
  status of a real cluster never names a leader, and the chaos endpoint always stops the third node,
  whichever node leads.
\<close>

theorem leader_never_found:
  "get_leader_name cfg ms str spawn = None
   \<and> fst (snd (cluster_status cfg ms str spawn)) = (if use_etcd cfg then None else Some ''etcd1'')
   \<and> chaos_kill_leader cfg ms str spawn =
       (if config_profile (config cfg) \<noteq> Demo then Inl (HTTPException 403)
        else if \<not> use_etcd cfg then Inr Simulated
        else bindR (spawn False [''docker'', ''compose'', ''stop'', ''etcd3'']) (\<lambda>_. Inr (Killed ''etcd3'' False)))"
proof -
  have none: "get_leader_name cfg ms str spawn = None" by (simp add: get_leader_name_def ask_nodes_None)
  then show ?thesis
    by (simp add: cluster_status_def chaos_kill_leader_def subprocess_run_def stop_call_def)
qed

end
