(* ===== verification/Spec2Isabelle.thy ===== *)
theory Spec2Isabelle
  imports Run_Properties Guards Bandit Export_Verifier Store_Properties Commit_Backend Verifier
    Queries Reconciliation Simulation Survival Worker_Witnesses Postgres_Refinement Advisory
begin

text \<open>
  A model of the payment recovery agent (Python, FastAPI) and the properties that make it correct.

  The program.  A failed UPI mandate payment arrives as a signed webhook, is parsed into a failure event and
  opens a recovery case.  A state machine decides what happens to the case: a deterministic fifth of the
  cases is a control group and only observed, amounts above the authentication-free ceiling need the payer,
  business declines escalate, and the rest is noticed, scheduled, executed through a commit backend and
  evaluated, under a retry cap, a notice lead time, retry spacing, a peak-hour blackout and do-not-disturb
  hours.  Every step is audited in a hash-chained log that an endpoint, an explainer and a script verify,
  and an independent verifier checks the finished trail against the rules.

  The theories, from the bottom:

  \<^item> \<open>Prelude\<close>, \<open>PyText\<close>, \<open>PyVal\<close>, \<open>PyTime\<close>, \<open>Sha256\<close>, \<open>Iso_Dates\<close>: the Python the program uses.  Exceptions
    are the left side of a result, dictionaries are association lists in insertion order, integers are
    unbounded, instants are microseconds since 1970 in UTC with the civil calendar and the fixed Indian
    offset, SHA-256 and HMAC work on 32-bit words, JSON texts are strings.
  \<^item> \<open>Models\<close> (\<^verbatim>\<open>app/models.py\<close>): the dataclasses as records, their validation as constructors.
  \<^item> \<open>Config\<close> (\<^verbatim>\<open>app/core/config.py\<close>): \<open>load_config\<close> over the parsed YAML value, and the shipped file.
  \<^item> \<open>Clock\<close>, \<open>Decline_Router\<close>, \<open>Guards\<close>, \<open>Bandit\<close>, \<open>Survival\<close> (the files of those names, and \<^verbatim>\<open>dnd.py\<close>,
    \<^verbatim>\<open>throttle.py\<close>, \<^verbatim>\<open>distress.py\<close>): every operation.
  \<^item> \<open>Scheduling\<close>, \<open>State_Machine\<close> (\<^verbatim>\<open>app/core/state_machine.py\<close>): the choice of an instant and the handlers.
    \<open>FSM_Runs\<close> and \<open>Run_Properties\<close> are the runs of one case and their invariants.
  \<^item> \<open>Case_Store\<close> (\<^verbatim>\<open>app/core/case_store.py\<close>): the store as a record of its dictionaries.  \<open>Store_Runs\<close> has the
    invariant every call keeps, \<open>Repository\<close> the contracts of a repository and a log as locales, interpreted
    on the store, \<open>Store_Properties\<close> what follows.
  \<^item> \<open>Postgres_Store\<close> (\<^verbatim>\<open>app/core/postgres_case_store.py\<close>): the same repository as SQL statements on tables.
    \<open>Postgres_Refinement\<close> relates the two: a forward simulation over all writes, the equality of all
    answers, and where they differ.
  \<^item> \<open>Audit_Chain\<close>, \<open>Export_Verifier\<close> (\<^verbatim>\<open>verify_chain\<close> of \<^verbatim>\<open>app/main.py\<close> and of \<^verbatim>\<open>verify_chain.py\<close>, the check
    of \<^verbatim>\<open>llm_explainer.py\<close>): verification of trails, and tamper evidence up to a SHA-256 collision.
  \<^item> \<open>Commit_Backend\<close> (\<^verbatim>\<open>app/core/commit_backend.py\<close>, \<^verbatim>\<open>InMemoryCommitBackend\<close>): the three backends under one
    locale; the etcd client and the database connection are locales with their documented laws.
  \<^item> \<open>Verifier\<close> (\<^verbatim>\<open>app/core/verifier.py\<close>): the compliance checks against declarative readings of the rules.
  \<^item> \<open>Webhook\<close> (\<^verbatim>\<open>webhook_security.py\<close>, \<^verbatim>\<open>webhook_parser.py\<close>): the signature and the parsers.
  \<^item> \<open>Service\<close>, \<open>Admin\<close> (\<^verbatim>\<open>app/main.py\<close>): the globals as the record \<open>service\<close>, one definition per handler, and
    \<open>serve\<close>, which takes any request.  \<open>Queries\<close> has the endpoints that only read, \<open>Advisory\<close> the decline
    proposer and the cluster and chaos endpoints.

  How the service is reasoned about.  A handler is a function of the settings, the readings of the wall clock
  during the request and the state, and returns the state it leaves, also when it raises.  \<open>Service_Runs\<close>
  and \<open>Service_Writes\<close> show that whatever a request does to the store is a sequence of store writes each of
  which is a step the state machine or an admin action allows (\<open>tx\<close>, \<open>case_move\<close>); so an invariant of single
  writes is an invariant of every run of the service.  \<open>Service_Properties\<close>, \<open>Endpoint_Properties\<close>,
  \<open>Reconciliation\<close>, \<open>Simulation\<close> and \<open>Queries\<close> hold the theorems: the log verifies after any requests, a failed
  webhook changes nothing, a redelivery is recognised for ever, an execution was due and approved, a due one
  happens, production admin endpoints are inert, and what goes wrong when the commit log and the case
  disagree.  Between two requests other processes may change the etcd cluster at will, so all of this holds of
  every worker of several.  \<open>Samples\<close>, \<open>Service_Samples\<close>, \<open>Service_Witnesses\<close> and \<open>Worker_Witnesses\<close> run the
  service on one case.

  Several workers.  \<open>Workers\<close> puts any number of services over one cluster, as \<^verbatim>\<open>scripts/concurrency_test*.py\<close>
  do, and shows which requests write to the cluster and how: an execution makes one transaction on the key
  of the first pending attempt.  From the documented laws of the client (the locales \<open>etcd_client\<close>, \<open>etcd_up\<close>)
  follow that no attempt is executed twice, whatever state each request was served on, and that of
  simultaneous requests one succeeds and the others are answered 409, which is what the scripts check;
  \<open>Convergence\<close> adds that the refused workers, reconciling with the log, end with the case executed as well.
  \<open>Load_Test\<close> has the requests and the count of \<^verbatim>\<open>scripts/load_test.py\<close>.

  Bounds and termination.  Loops over lists and dictionaries are structural recursion; the scan for a salary
  day ends by a measure; the survival curve need not end, so it is a partial function whose value \<open>None\<close> is
  not returning, and returning is proved where it does.  No definition uses fuel.  Integers are unbounded as
  in Python; 32-bit columns, the 64-bit range of timestamps and the 4300 digits of \<^verbatim>\<open>int()\<close> are explicit.

  Parameters.  The parsed YAML tree, the JSON parser on request bodies and on values read back from etcd, the
  etcd transaction and prefix scan, the database connection of the outbox, the row order and JSONB conversion
  of the Postgres server, the language model, the processes started, the rounding of floats in the survival
  curve, random draws and readings of the wall clock.  Strings are their UTF-8 bytes.

  Not modelled.  \<^verbatim>\<open>/health\<close> and the two HTML pages; messages and log lines; \<^verbatim>\<open>case_explainer.py\<close>, which cannot
  be imported; the fault and throughput scripts, the Streamlit dashboard and the spikes, which print what they
  are answered.  A value stored in a field of another type than its annotation stops the model (\<open>Unmodelled\<close>).
  Requests are served one at a time, as each process does; between workers the order is that of the requests'
  transactions, and the prefix scan of a refused request follows its transaction at once.  The service is
  modelled over the in-memory store, whose objects handlers change in place, and the Postgres store is related
  to that store and not to the handlers.
\<close>

end
